(* ===== verification/Prelude.thy ===== *)
theory Prelude
  imports Main "HOL-Library.Word" "HOL-Library.Monad_Syntax"
begin

text \<open>
  The library shared by the component theories: the machine types of the C++ sources, the
  little-endian byte layout of packed structs, bounded access to byte buffers, and the
  generic notion of an event-driven machine with an invariant.

  A buffer is a list of bytes. An access to it that leaves its bounds is undefined in C++:
  \<open>poke\<close> (a \<open>memcpy\<close> into the buffer, or a store through a packed struct) and
  \<open>peek\<close> (the reading counterpart) are \<open>None\<close> there, so that a definition built on
  them is \<open>Some\<close> exactly where the code stays within its buffers.
\<close>

unbundle bit_operations_syntax

section \<open>Machine types\<close>

type_synonym u8 = "8 word"
type_synonym u16 = "16 word"
type_synonym u32 = "32 word"
type_synonym u64 = "64 word"

named_theorems byte_simps \<open>lengths and round trips of the byte encodings\<close>
named_theorems buffer_simps \<open>reads and writes of byte buffers\<close>

section \<open>Little-endian encoding\<close>

fun le_bytes :: "nat \<Rightarrow> 'a::len word \<Rightarrow> u8 list" where
  "le_bytes 0 w = []"
| "le_bytes (Suc n) w = ucast w # le_bytes n (drop_bit 8 w)"

fun from_le :: "u8 list \<Rightarrow> 'a::len word" where
  "from_le [] = 0"
| "from_le (b # bs) = ucast b OR push_bit 8 (from_le bs)"

definition le16 :: "u16 \<Rightarrow> u8 list" where "le16 = le_bytes 2"
definition le32 :: "u32 \<Rightarrow> u8 list" where "le32 = le_bytes 4"
definition le64 :: "u64 \<Rightarrow> u8 list" where "le64 = le_bytes 8"

lemma length_le_bytes [simp, byte_simps]: "length (le_bytes n w) = n"
  by (induction n arbitrary: w) auto

lemma length_le16 [simp, byte_simps]: "length (le16 w) = 2"
  and length_le32 [simp, byte_simps]: "length (le32 x) = 4"
  and length_le64 [simp, byte_simps]: "length (le64 y) = 8"
  by (simp_all add: le16_def le32_def le64_def)

lemma bit_from_le:
  "bit (from_le bs :: 'a::len word) i \<longleftrightarrow>
     i < LENGTH('a) \<and> i div 8 < length bs \<and> bit (bs ! (i div 8)) (i mod 8)"
proof (induction bs arbitrary: i)
  case Nil
  then show ?case by simp
next
  case (Cons b bs)
  show ?case
  proof (cases "i < 8")
    case True
    then show ?thesis by (auto simp: bit_simps)
  next
    case False
    then have "i div 8 = Suc ((i - 8) div 8)" "i mod 8 = (i - 8) mod 8"
      by (simp_all add: le_div_geq le_mod_geq)
    moreover have "\<not> bit b i"
      using False by (auto dest: bit_imp_le_length)
    ultimately show ?thesis
      using False Cons.IH [of "i - 8"] by (auto simp: bit_simps)
  qed
qed

lemma nth_le_bytes:
  "k < n \<Longrightarrow> le_bytes n w ! k = ucast (drop_bit (8 * k) w)"
proof (induction n arbitrary: w k)
  case (Suc n)
  then show ?case by (cases k) (auto simp: add.commute)
qed simp

lemma from_le_bytes:
  "LENGTH('a) \<le> 8 * n \<Longrightarrow> from_le (le_bytes n w) = (w :: 'a::len word)"
proof (rule bit_word_eqI)
  fix i assume n: "LENGTH('a) \<le> 8 * n" and i: "i < LENGTH('a)"
  then have "i div 8 < n" by simp
  moreover have "8 * (i div 8) + i mod 8 = i" "i mod 8 < 8" by simp_all
  ultimately show "bit (from_le (le_bytes n w) :: 'a word) i = bit w i"
    using i by (simp add: bit_from_le nth_le_bytes bit_simps ac_simps del: mod_less_divisor)
qed

lemma from_le16 [simp, byte_simps]: "from_le (le16 w) = w"
  and from_le32 [simp, byte_simps]: "from_le (le32 x) = x"
  and from_le64 [simp, byte_simps]: "from_le (le64 y) = y"
  by (simp_all add: le16_def le32_def le64_def from_le_bytes)

lemma le_bytes_from_le:
  "length bs = n \<Longrightarrow> 8 * n \<le> LENGTH('a) \<Longrightarrow> le_bytes n (from_le bs :: 'a::len word) = bs"
proof (rule nth_equalityI)
  fix k assume n: "length bs = n" "8 * n \<le> LENGTH('a)"
    and "k < length (le_bytes n (from_le bs :: 'a word))"
  then have k: "k < n" by simp
  show "le_bytes n (from_le bs :: 'a word) ! k = bs ! k"
  proof (rule bit_word_eqI)
    fix i :: nat assume "i < LENGTH(8)"
    then have i: "i < 8" by simp
    with k n have "8 * k + i < LENGTH('a)" by auto
    moreover have "(8 * k + i) div 8 = k" "(8 * k + i) mod 8 = i" using i by auto
    ultimately show "bit (le_bytes n (from_le bs :: 'a word) ! k) i = bit (bs ! k) i"
      using k n i by (simp add: nth_le_bytes bit_simps bit_from_le)
  qed
qed simp

text \<open>The simplifier reads the bits of a word numeral off the number; 255 is the byte mask.\<close>

lemma bit_255 [simp]: "bit (255 :: nat) n \<longleftrightarrow> n < 8"
  and bit_255_int [simp]: "bit (255 :: int) n \<longleftrightarrow> n < 8"
proof -
  have "(255 :: nat) = mask 8" "(255 :: int) = mask 8" by (simp_all add: mask_eq_exp_minus_1)
  then show "bit (255 :: nat) n \<longleftrightarrow> n < 8" "bit (255 :: int) n \<longleftrightarrow> n < 8"
    by (simp_all only: bit_mask_iff) (simp_all)
qed

lemma unat_u8 [simp]: "unat (b :: u8) < 256"
proof -
  have "unat b < 2 ^ LENGTH(8)" by (rule unsigned_less)
  then show ?thesis by simp
qed

lemma unat_u16: "unat (w :: u16) < 65536"
proof -
  have "unat w < 2 ^ LENGTH(16)" by (rule unsigned_less)
  then show ?thesis by simp
qed

lemma unat_ucast_u16_u32 [simp]: "unat (ucast (w :: u16) :: u32) = unat w"
  using unat_u16 [of w] by (simp add: unsigned_ucast_eq take_bit_nat_eq_self)

lemma ucast_u16_u32 [simp]: "ucast (ucast (w :: u16) :: u32) = w"
  by (rule bit_word_eqI) (auto simp: bit_simps)

lemma unat_of_nat_eq: "a < 2 ^ 32 \<Longrightarrow> unat (of_nat a :: u32) = a"
  by (simp add: unat_of_nat take_bit_nat_eq_self)

lemma word_xor_0_iff: "x XOR y = 0 \<longleftrightarrow> x = (y :: 'a::len word)"
proof
  assume "x XOR y = 0"
  then have "x XOR (x XOR y) = x" by simp
  then show "x = y" by simp
qed simp

lemma word_xor_cancel:
  "a XOR x = a XOR y \<longleftrightarrow> x = (y :: 'a::len word)" "x XOR a = y XOR a \<longleftrightarrow> x = y"
proof -
  have "a XOR (a XOR x) = x" for x :: "'a word" by simp
  then show "a XOR x = a XOR y \<longleftrightarrow> x = y" by metis
  then show "x XOR a = y XOR a \<longleftrightarrow> x = y" by (simp add: xor.commute)
qed

lemma unat_ucast_byte: "8 \<le> LENGTH('a::len) \<Longrightarrow> unat (ucast (y :: u8) :: 'a word) = unat y"
proof -
  assume len: "8 \<le> LENGTH('a)"
  have "unat y < 2 ^ 8" using unsigned_less [of y] by simp
  also have "(2 :: nat) ^ 8 \<le> 2 ^ LENGTH('a)" using len by (intro power_increasing) simp_all
  finally show ?thesis by (simp add: unsigned_ucast_eq take_bit_nat_eq_self)
qed

lemma byte_from_le:
  assumes "k < length bs" and "8 * length bs \<le> LENGTH('a::len)"
  shows "ucast (drop_bit (8 * k) (from_le bs :: 'a word)) = bs ! k"
  using nth_le_bytes [of k "length bs" "from_le bs :: 'a word"] le_bytes_from_le [OF refl assms(2)]
    assms(1) by simp

section \<open>Bounded access to buffers\<close>

definition poke :: "u8 list \<Rightarrow> nat \<Rightarrow> u8 list \<Rightarrow> u8 list option" where
  "poke buf off bs =
     (if off + length bs \<le> length buf
      then Some (take off buf @ bs @ drop (off + length bs) buf) else None)"

definition peek :: "u8 list \<Rightarrow> nat \<Rightarrow> nat \<Rightarrow> u8 list option" where
  "peek buf off n = (if off + n \<le> length buf then Some (take n (drop off buf)) else None)"

lemma poke_Some_iff:
  "poke buf off bs = Some buf' \<longleftrightarrow>
     off + length bs \<le> length buf \<and> buf' = take off buf @ bs @ drop (off + length bs) buf"
  by (auto simp: poke_def)

lemma length_poke [buffer_simps]: "poke buf off bs = Some buf' \<Longrightarrow> length buf' = length buf"
  by (auto simp: poke_Some_iff)

lemma poke_in_bounds [buffer_simps]:
  "off + length bs \<le> length buf \<Longrightarrow>
     poke buf off bs = Some (take off buf @ bs @ drop (off + length bs) buf)"
  by (simp add: poke_def)

lemma poke_eq_None_iff [simp]: "poke buf off bs = None \<longleftrightarrow> length buf < off + length bs"
  by (auto simp: poke_def)

lemma peek_eq_None_iff [simp]: "peek buf off n = None \<longleftrightarrow> length buf < off + n"
  by (auto simp: peek_def)

lemma peek_in_bounds: "off + n \<le> length buf \<Longrightarrow> peek buf off n = Some (take n (drop off buf))"
  by (simp add: peek_def)

lemma length_peek: "peek buf off n = Some bs \<Longrightarrow> length bs = n"
  by (auto simp: peek_def split: if_splits)

lemma peek_poke_same [buffer_simps]:
  "poke buf off bs = Some buf' \<Longrightarrow> peek buf' off (length bs) = Some bs"
  by (auto simp: poke_Some_iff peek_def)

lemma peek_poke_other [buffer_simps]:
  assumes "poke buf off bs = Some buf'" and "a + n \<le> off \<or> off + length bs \<le> a"
  shows "peek buf' a n = peek buf a n"
proof -
  have len: "length buf' = length buf" using assms(1) by (rule length_poke)
  have buf': "buf' = take off buf @ bs @ drop (off + length bs) buf"
    and bound: "off + length bs \<le> length buf"
    using assms(1) by (simp_all add: poke_Some_iff)
  from assms(2) have "take n (drop a buf') = take n (drop a buf)"
  proof
    assume "a + n \<le> off"
    then show ?thesis using bound by (simp add: buf' take_drop add.commute)
  next
    assume "off + length bs \<le> a"
    then show ?thesis using bound by (simp add: buf')
  qed
  then show ?thesis by (simp add: peek_def len)
qed

text \<open>Writing consecutive pieces at the start of a buffer lays them out one after the other.\<close>

lemma poke_at_length [buffer_simps]:
  "off = length pre \<Longrightarrow> length bs \<le> length suf \<Longrightarrow>
     poke (pre @ suf) off bs = Some (pre @ bs @ drop (length bs) suf)"
  by (simp add: poke_def)

text \<open>Loads of a field of a packed struct that overlays the buffer.\<close>

definition rd8 :: "u8 list \<Rightarrow> nat \<Rightarrow> u8 option" where
  "rd8 buf off = map_option hd (peek buf off 1)"

definition rd16 :: "u8 list \<Rightarrow> nat \<Rightarrow> u16 option" where
  "rd16 buf off = map_option from_le (peek buf off 2)"

definition rd32 :: "u8 list \<Rightarrow> nat \<Rightarrow> u32 option" where
  "rd32 buf off = map_option from_le (peek buf off 4)"

definition rd64 :: "u8 list \<Rightarrow> nat \<Rightarrow> u64 option" where
  "rd64 buf off = map_option from_le (peek buf off 8)"

lemma rd8_nth [buffer_simps]: "off < length buf \<Longrightarrow> rd8 buf off = Some (buf ! off)"
  by (simp add: rd8_def peek_def hd_drop_conv_nth take_Suc_conv_app_nth)

lemma rd_in_bounds [buffer_simps]:
  "off + 2 \<le> length buf \<Longrightarrow> rd16 buf off = Some (from_le (take 2 (drop off buf)))"
  "off + 4 \<le> length buf \<Longrightarrow> rd32 buf off = Some (from_le (take 4 (drop off buf)))"
  "off + 8 \<le> length buf \<Longrightarrow> rd64 buf off = Some (from_le (take 8 (drop off buf)))"
  by (simp_all add: rd16_def rd32_def rd64_def peek_def)

lemma rd_None_iff [simp]:
  "rd8 buf off = None \<longleftrightarrow> length buf < off + 1" "rd16 buf off = None \<longleftrightarrow> length buf < off + 2"
  "rd32 buf off = None \<longleftrightarrow> length buf < off + 4" "rd64 buf off = None \<longleftrightarrow> length buf < off + 8"
  by (simp_all add: rd8_def rd16_def rd32_def rd64_def)

section \<open>Ordered maps\<close>

text \<open>
  A \<open>std::map\<close> whose iteration order matters is an association list sorted by key:
  \<open>map_put\<close> is \<open>m[k] = v\<close>, \<open>map_del\<close> is \<open>erase\<close>, and \<open>map_of\<close> is \<open>find\<close>.
\<close>

fun map_put :: "'k::linorder \<Rightarrow> 'v \<Rightarrow> ('k \<times> 'v) list \<Rightarrow> ('k \<times> 'v) list" where
  "map_put k v [] = [(k, v)]"
| "map_put k v ((l, w) # m) =
     (if k < l then (k, v) # (l, w) # m else if k = l then (k, v) # m else (l, w) # map_put k v m)"

definition map_del :: "'k \<Rightarrow> ('k \<times> 'v) list \<Rightarrow> ('k \<times> 'v) list" where
  "map_del k m = filter (\<lambda>(l, w). l \<noteq> k) m"

abbreviation keys_sorted :: "('k::linorder \<times> 'v) list \<Rightarrow> bool" where
  "keys_sorted m \<equiv> sorted_wrt (<) (map fst m)"

lemma map_put_set: "set (map_put k v m) \<subseteq> insert (k, v) (set m)"
  by (induction k v m rule: map_put.induct) (auto split: if_splits)

lemma keys_map_put: "set (map fst (map_put k v m)) = insert k (set (map fst m))"
  by (induction k v m rule: map_put.induct) auto

lemma map_of_map_put [simp]: "map_of (map_put k v m) = (map_of m)(k \<mapsto> v)"
  by (induction m) (auto simp: fun_eq_iff)

lemma map_of_map_del [simp]: "map_of (map_del k m) = (map_of m)(k := None)"
  by (induction m) (auto simp: map_del_def fun_eq_iff)

lemma keys_sorted_put: "keys_sorted m \<Longrightarrow> keys_sorted (map_put k v m)"
proof (induction k v m rule: map_put.induct)
  case (2 k v l w m)
  have "\<forall>x \<in> set (map fst (map_put k v m)). l < x" if "\<not> k < l" "k \<noteq> l"
    using 2 that by (subst keys_map_put) auto
  with 2 show ?case by (auto simp: le_less)
qed simp

lemma keys_sorted_filter: "keys_sorted m \<Longrightarrow> keys_sorted (filter P m)"
  by (induction m) auto

lemma keys_sorted_del: "keys_sorted m \<Longrightarrow> keys_sorted (map_del k m)"
  unfolding map_del_def by (rule keys_sorted_filter)

lemma keys_sorted_distinct: "keys_sorted m \<Longrightarrow> distinct (map fst m)"
  by (simp add: strict_sorted_iff)

text \<open>What a client of a \<open>std::map\<close> relies on.\<close>

locale ordered_map =
  fixes lookup :: "'m \<Rightarrow> 'k \<Rightarrow> 'v option"
    and put :: "'k \<Rightarrow> 'v \<Rightarrow> 'm \<Rightarrow> 'm"
    and del :: "'k \<Rightarrow> 'm \<Rightarrow> 'm"
  assumes lookup_put: "lookup (put k v m) l = (if l = k then Some v else lookup m l)"
    and lookup_del: "lookup (del k m) l = (if l = k then None else lookup m l)"
begin

lemma lookup_put_same: "lookup (put k v m) k = Some v"
  by (simp add: lookup_put)

lemma lookup_del_same: "lookup (del k m) k = None"
  by (simp add: lookup_del)

lemma lookup_put_other: "l \<noteq> k \<Longrightarrow> lookup (put k v m) l = lookup m l"
  by (simp add: lookup_put)

lemma lookup_del_other: "l \<noteq> k \<Longrightarrow> lookup (del k m) l = lookup m l"
  by (simp add: lookup_del)

lemma lookup_put_twice: "lookup (put k v (put k w m)) = lookup (put k v m)"
  by (rule ext) (simp add: lookup_put)

lemma lookup_del_put: "lookup m k = None \<Longrightarrow> lookup (del k (put k v m)) = lookup m"
  by (rule ext) (simp add: lookup_del lookup_put)

end

interpretation std_map: ordered_map map_of map_put map_del
  by unfold_locales simp_all

section \<open>Event-driven machines\<close>

text \<open>
  Several components are objects whose methods run one at a time under a lock: a state, and
  a step for every call or message. What every step keeps holds after every history.
\<close>

fun run :: "('e \<Rightarrow> 's \<Rightarrow> 's) \<Rightarrow> 'e list \<Rightarrow> 's \<Rightarrow> 's" where
  "run step [] s = s"
| "run step (e # es) s = run step es (step e s)"

lemma run_append: "run step (xs @ ys) s = run step ys (run step xs s)"
  by (induction xs arbitrary: s) auto

locale machine =
  fixes init :: 's
    and step :: "'e \<Rightarrow> 's \<Rightarrow> 's"
    and inv :: "'s \<Rightarrow> bool"
  assumes inv_init: "inv init"
    and inv_step: "inv s \<Longrightarrow> inv (step e s)"
begin

lemma inv_run_from: "inv s \<Longrightarrow> inv (run step es s)"
  by (induction es arbitrary: s) (auto intro: inv_step)

lemma inv_run: "inv (run step es init)"
  by (rule inv_run_from [OF inv_init])

end

section \<open>What a branching function can return\<close>

lemma bind_mem: "None \<in> X \<Longrightarrow> (\<And>x. f x \<in> X) \<Longrightarrow> Option.bind m f \<in> X"
  by (cases m) auto

lemma if_mem: "x \<in> X \<Longrightarrow> y \<in> X \<Longrightarrow> (if b then x else y) \<in> X"
  by simp

lemma case_mem: "x \<in> X \<Longrightarrow> (\<And>a. f a \<in> X) \<Longrightarrow> (case m of None \<Rightarrow> x | Some a \<Rightarrow> f a) \<in> X"
  by (cases m) auto

end
