(* ===== verification/Firmware.thy ===== *)
theory Firmware
  imports Mcrf4xx
begin

text \<open>
  Firmware files (upgrade/firmware.cpp and firmware.h): the packed header, and \<open>Firmware::Open\<close> with
  \<open>ReadAndCheckHeader\<close>. A file is the list of its bytes; \<open>files\<close> says which paths can be opened.
  The array of the firmware's data comes from \<open>new[]\<close> and is not initialised: \<open>junk\<close> is its content.
\<close>

section \<open>The header\<close>

definition kMd5SignatureLength :: nat where "kMd5SignatureLength = 16"
definition kEnlFileVersionV3 :: u32 where "kEnlFileVersionV3 = 0x03000000"

record LivoxEncryptFirmwareHeader =
  file_version :: u32
  firmware_version :: u32
  firmware_length :: u32
  firmware_type :: u8
  fw_device_type :: u8
  encrypt_type :: u8
  fw_rsvd :: "u8 list"
  checksum_type :: u8
  checksum_length :: u16
  checksum :: "u8 list"
  hw_whitelist :: "u8 list"
  modify_time :: u64
  header_checksum :: u16

definition header_body :: "LivoxEncryptFirmwareHeader \<Rightarrow> u8 list" where
  "header_body h =
     le32 (file_version h) @ le32 (firmware_version h) @ le32 (firmware_length h) @
     [firmware_type h, fw_device_type h, encrypt_type h] @ fw_rsvd h @ [checksum_type h] @
     le16 (checksum_length h) @ checksum h @ hw_whitelist h @ le64 (modify_time h)"

definition header_bytes :: "LivoxEncryptFirmwareHeader \<Rightarrow> u8 list" where
  "header_bytes h = header_body h @ le16 (header_checksum h)"

definition header_size :: nat where "header_size = 286"

definition header_at :: "u8 list \<Rightarrow> LivoxEncryptFirmwareHeader option" where
  "header_at b = do {
     v \<leftarrow> rd32 b 0; fv \<leftarrow> rd32 b 4; n \<leftarrow> rd32 b 8; ty \<leftarrow> rd8 b 12; dev \<leftarrow> rd8 b 13; enc \<leftarrow> rd8 b 14;
     rsvd \<leftarrow> peek b 15 2; ct \<leftarrow> rd8 b 17; cl \<leftarrow> rd16 b 18; c \<leftarrow> peek b 20 128; wl \<leftarrow> peek b 148 128;
     mt \<leftarrow> rd64 b 276; hc \<leftarrow> rd16 b 284;
     Some \<lparr>file_version = v, firmware_version = fv, firmware_length = n, firmware_type = ty,
       fw_device_type = dev, encrypt_type = enc, fw_rsvd = rsvd, checksum_type = ct, checksum_length = cl,
       checksum = c, hw_whitelist = wl, modify_time = mt, header_checksum = hc\<rparr> }"

section \<open>Opening a file\<close>

record Firmware =
  header :: LivoxEncryptFirmwareHeader
  fw_data :: "u8 list option"
  fw_tail :: "u8 list"
  file_size :: nat

definition zero_header :: LivoxEncryptFirmwareHeader where
  "zero_header = \<lparr>file_version = 0, firmware_version = 0, firmware_length = 0, firmware_type = 0,
     fw_device_type = 0, encrypt_type = 0, fw_rsvd = replicate 2 0, checksum_type = 0, checksum_length = 0,
     checksum = replicate 128 0, hw_whitelist = replicate 128 0, modify_time = 0, header_checksum = 0\<rparr>"

definition new_Firmware :: Firmware where
  "new_Firmware = \<lparr>header = zero_header, fw_data = None, fw_tail = replicate kMd5SignatureLength 0, file_size = 0\<rparr>"

definition MiniFileSize :: nat where
  "MiniFileSize = header_size + kMd5SignatureLength + 1"

definition FirmwarePackageVersion :: "Firmware \<Rightarrow> u32" where
  "FirmwarePackageVersion fw = file_version (header fw)"

text \<open>
  \<open>istream::read\<close> of n bytes into an array: what the file still has is stored, the rest of the array
  keeps its bytes. A read that comes up short fails, and a failed stream stores nothing more.
\<close>

definition read_into :: "u8 list \<Rightarrow> u8 list \<Rightarrow> u8 list \<times> u8 list" where
  "read_into old rest = (let got = take (length old) rest in (got @ drop (length got) old, drop (length old) rest))"

definition ReadAndCheckHeader :: "u8 list \<Rightarrow> (nat \<Rightarrow> u8) \<Rightarrow> Firmware \<Rightarrow> (bool \<times> Firmware) option" where
  "ReadAndCheckHeader file junk fw = do {
     let (hb, rest) = read_into (header_bytes (header fw)) file;
     h \<leftarrow> header_at hb;
     let fw = fw\<lparr>header := h\<rparr>;
     if mcrf4xx (take (header_size - 2) hb) \<noteq> header_checksum h then Some (False, fw)
     else do {
       let (d, rest) = read_into (map junk [0..<unat (firmware_length h)]) rest;
       let (t, rest) = read_into (fw_tail fw) rest;
       Some (True, fw\<lparr>fw_data := Some d, fw_tail := t\<rparr>) } }"

definition Open :: "(string \<Rightarrow> u8 list option) \<Rightarrow> (nat \<Rightarrow> u8) \<Rightarrow> string option \<Rightarrow> Firmware \<Rightarrow> (bool \<times> Firmware) option" where
  "Open files junk firmware_path fw =
     (case firmware_path of None \<Rightarrow> Some (False, fw)
      | Some path \<Rightarrow> case files path of None \<Rightarrow> Some (False, fw)
      | Some file \<Rightarrow>
          let fw = fw\<lparr>file_size := length file\<rparr>
          in if length file < MiniFileSize then Some (False, fw) else ReadAndCheckHeader file junk fw)"

section \<open>Layout of the header\<close>

definition header_ok :: "LivoxEncryptFirmwareHeader \<Rightarrow> bool" where
  "header_ok h \<longleftrightarrow> length (fw_rsvd h) = 2 \<and> length (checksum h) = 128 \<and> length (hw_whitelist h) = 128"

lemma length_header_body: "header_ok h \<Longrightarrow> length (header_body h) = 284"
  and length_header_bytes: "header_ok h \<Longrightarrow> length (header_bytes h) = header_size"
  by (simp_all add: header_ok_def header_body_def header_bytes_def header_size_def)

lemma header_ok_zero: "header_ok zero_header"
  by (simp add: header_ok_def zero_header_def)

text \<open>The bytes between two offsets of a concatenation, part by part.\<close>

lemma peek_append:
  "length a \<le> n \<Longrightarrow> peek (a @ b) n k = peek b (n - length a) k"
  "n + k \<le> length a \<Longrightarrow> peek (a @ b) n k = peek a n k"
  "length a = k \<Longrightarrow> peek (a @ b) 0 k = Some a" "length a = k \<Longrightarrow> peek a 0 k = Some a"
  "0 < n \<Longrightarrow> peek (x # b) n k = peek b (n - 1) k" "peek (x # b) 0 (Suc 0) = Some [x]"
  by (auto simp: peek_def drop_Cons')

lemma header_at_bytes:
  assumes "header_ok h" shows "header_at (header_bytes h) = Some h"
proof -
  let ?b = "header_bytes h"
  note l = assms [unfolded header_ok_def]
  note d = header_bytes_def header_body_def peek_append
  have w: "rd32 ?b 0 = Some (file_version h)" "rd32 ?b 4 = Some (firmware_version h)"
    "rd32 ?b 8 = Some (firmware_length h)" "rd16 ?b 18 = Some (checksum_length h)"
    "rd64 ?b 276 = Some (modify_time h)" "rd16 ?b 284 = Some (header_checksum h)"
    using l by (simp_all add: rd16_def rd32_def rd64_def d)
  have b: "rd8 ?b 12 = Some (firmware_type h)" "rd8 ?b 13 = Some (fw_device_type h)"
    "rd8 ?b 14 = Some (encrypt_type h)" "rd8 ?b 17 = Some (checksum_type h)"
    using l by (simp_all add: rd8_def d)
  have p: "peek ?b 15 2 = Some (fw_rsvd h)" "peek ?b 20 128 = Some (checksum h)"
    "peek ?b 148 128 = Some (hw_whitelist h)"
    using l by (simp_all add: d)
  show ?thesis unfolding header_at_def w b p by (cases h) simp
qed

section \<open>What is accepted\<close>

lemma header_at_Some: "length b = header_size \<Longrightarrow> \<exists>h. header_at b = Some h \<and> header_ok h"
  by (simp add: header_at_def header_size_def rd_in_bounds rd8_nth peek_def header_ok_def)

lemma header_at_checksum:
  "length b = header_size \<Longrightarrow> header_at b = Some h \<Longrightarrow> header_checksum h = from_le (drop 284 b)"
  by (auto simp: header_at_def header_size_def rd_in_bounds rd8_nth peek_def)

lemma length_read_into: "length (fst (read_into old rest)) = length old"
  by (auto simp: read_into_def Let_def)

lemma read_into_exact: "length old = n \<Longrightarrow> n = length got \<Longrightarrow> read_into old (got @ rest) = (got, rest)"
  by (simp add: read_into_def)

lemma Open_file:
  assumes "header_ok h" "header_ok (header fw)" "header_checksum h = mcrf4xx_bits (header_body h)"
    "firmware_length h = of_nat (length d)" "0 < length d" "length d < 2 ^ 32"
    "length t = kMd5SignatureLength" "length (fw_tail fw) = kMd5SignatureLength"
    "files path = Some (header_bytes h @ d @ t)"
  shows "Open files junk (Some path) fw =
    Some (True, \<lparr>header = h, fw_data = Some d, fw_tail = t, file_size = length (header_bytes h @ d @ t)\<rparr>)"
proof -
  have n: "unat (firmware_length h) = length d"
    using assms(4,6) by (simp add: unat_of_nat take_bit_nat_eq_self)
  have "take (header_size - 2) (header_bytes h) = header_body h"
    using length_header_body [OF assms(1)] by (simp add: header_bytes_def header_size_def)
  then have "mcrf4xx (take (header_size - 2) (header_bytes h)) = header_checksum h"
    using assms(3) by (simp add: mcrf4xx_def mcrf4xx_eq_bits)
  moreover have "read_into (header_bytes (header fw)) (header_bytes h @ d @ t) = (header_bytes h, d @ t)"
    using assms(1,2) by (intro read_into_exact) (simp_all add: length_header_bytes)
  moreover have "read_into (map junk [0..<length d]) (d @ t) = (d, t)" by (rule read_into_exact) simp_all
  moreover have "read_into (fw_tail fw) t = (t, [])"
    using read_into_exact [of "fw_tail fw" _ t "[]"] assms(7,8) by simp
  moreover have "MiniFileSize \<le> length (header_bytes h @ d @ t)"
    using assms(1,5,7) by (simp add: MiniFileSize_def length_header_bytes Suc_le_eq)
  ultimately show ?thesis
    using assms(9) header_at_bytes [OF assms(1)]
    by (simp add: Open_def ReadAndCheckHeader_def n del: length_append)
qed

text \<open>The decision, for a file of the least size.\<close>

lemma read_into_whole: "length old \<le> length f \<Longrightarrow> read_into old f = (take (length old) f, drop (length old) f)"
  by (simp add: read_into_def)

lemma Open_long:
  assumes "header_ok (header fw)" "files path = Some f" "MiniFileSize \<le> length f"
    "header_at (take header_size f) = Some h"
  shows "Open files junk (Some path) fw =
    (let fw = fw\<lparr>file_size := length f, header := h\<rparr>; n = unat (firmware_length h) in
     if mcrf4xx_bits (take 284 f) \<noteq> header_checksum h then Some (False, fw)
     else Some (True, fw\<lparr>
       fw_data := Some (take n (drop header_size f) @ map junk [length f - header_size..<n]),
       fw_tail := fst (read_into (fw_tail fw) (drop (header_size + n) f))\<rparr>))"
proof -
  have "header_size \<le> length f" using assms(3) by (simp add: MiniFileSize_def)
  then have "read_into (header_bytes (header fw)) f = (take header_size f, drop header_size f)"
    using assms(1) by (simp add: read_into_whole length_header_bytes)
  moreover have "take (header_size - 2) (take header_size f) = take 284 f"
    by (simp add: header_size_def min_def)
  moreover have "fst (read_into (map junk [0..<n]) g) = take n g @ map junk [length g..<n]" for n g
    by (cases "n \<le> length g") (simp_all add: read_into_def drop_map)
  moreover have "snd (read_into (map junk [0..<n]) g) = drop n g" for n g
    by (simp add: read_into_def Let_def)
  ultimately show ?thesis
    using assms(2-4)
    by (simp add: Open_def ReadAndCheckHeader_def mcrf4xx_def mcrf4xx_eq_bits Let_def case_prod_beta
        add.commute)
qed

text \<open>
  C22. If a file is accepted, the same file with one or two adjacent bytes of the header changed
  before its checksum is not.
\<close>
theorem firmware_header_corruption:
  assumes "Open files junk (Some path) fw = Some (True, fw1)" "header_ok (header fw)"
    "files path = Some (pre @ e @ post)" "files path' = Some (pre @ e' @ post)"
    "length e = length e'" "e \<noteq> e'" "length e \<le> 2" "length (pre @ e) \<le> 284"
  shows "\<exists>fw2. Open files junk (Some path') fw = Some (False, fw2)"
proof -
  let ?f = "pre @ e @ post" and ?g = "pre @ e' @ post"
  have size: "MiniFileSize \<le> length ?f" using assms(1,3) by (auto simp: Open_def Let_def simp del: length_append split: if_splits)
  then have size': "MiniFileSize \<le> length ?g" using assms(5) by simp
  have len: "length (take header_size ?f) = header_size" "length (take header_size ?g) = header_size"
    using size size' by (simp_all add: MiniFileSize_def)
  obtain h h' where h: "header_at (take header_size ?f) = Some h"
    and h': "header_at (take header_size ?g) = Some h'"
    using header_at_Some [OF len(1)] header_at_Some [OF len(2)] by blast
  let ?k = "284 - length (pre @ e)"
  have tf: "take 284 ?f = pre @ e @ take ?k post" "take 284 ?g = pre @ e' @ take ?k post"
    using assms(5,8) by simp_all
  have "drop 284 (take header_size ?f) = drop 284 (take header_size ?g)"
    using assms(5,8) by (simp add: drop_take)
  then have "header_checksum h = header_checksum h'"
    using header_at_checksum [OF len(1) h] header_at_checksum [OF len(2) h'] by simp
  moreover have "mcrf4xx_bits (take 284 ?f) = header_checksum h"
    using assms(1) Open_long [of fw files path, OF assms(2,3) size h] by (auto simp: Let_def split: if_splits)
  moreover have "mcrf4xx_bits (take 284 ?f) \<noteq> mcrf4xx_bits (take 284 ?g)"
    unfolding tf using mcrf4xx_detects [OF assms(5,6,7)] by (simp add: mcrf4xx_def mcrf4xx_eq_bits)
  ultimately show ?thesis using Open_long [of fw files path', OF assms(2,4) size' h'] by (simp add: Let_def)
qed

text \<open>
  C21. A file made of a header with the right checksum, data of the length the header declares and
  a signature is opened: the fields, the data and the signature are read back.
\<close>
theorem firmware_open:
  assumes "header_ok h" "header_ok (header fw)" "header_checksum h = mcrf4xx_bits (header_body h)"
    "firmware_length h = of_nat (length d)" "0 < length d" "length d < 2 ^ 32"
    "length t = kMd5SignatureLength" "length (fw_tail fw) = kMd5SignatureLength"
    "files path = Some (header_bytes h @ d @ t)"
  shows "Open files junk (Some path) fw =
    Some (True, \<lparr>header = h, fw_data = Some d, fw_tail = t, file_size = length (header_bytes h @ d @ t)\<rparr>)"
  using assms by (rule Open_file)

definition demo_header :: LivoxEncryptFirmwareHeader where
  "demo_header = zero_header\<lparr>firmware_length := 2,
     header_checksum := mcrf4xx_bits (header_body (zero_header\<lparr>firmware_length := 2\<rparr>))\<rparr>"

lemma demo_header: "header_ok demo_header" "header_checksum demo_header = mcrf4xx_bits (header_body demo_header)"
  "firmware_length demo_header = of_nat 2"
  by (simp_all add: demo_header_def header_ok_def zero_header_def header_body_def)

definition demo_file :: "u8 list" where
  "demo_file = header_bytes demo_header @ [7, 8] @ replicate 16 5"

lemma new_Firmware_ok: "header_ok (header new_Firmware)" "length (fw_tail new_Firmware) = kMd5SignatureLength"
  by (simp_all add: new_Firmware_def header_ok_zero)

theorem firmware_open_witness:
  "Open (\<lambda>p. Some demo_file) (\<lambda>i. 0) (Some ''fw.bin'') new_Firmware =
     Some (True, \<lparr>header = demo_header, fw_data = Some [7, 8], fw_tail = replicate 16 5,
       file_size = length (header_bytes demo_header @ [7, 8] @ replicate 16 5)\<rparr>)"
  using firmware_open [OF demo_header(1) new_Firmware_ok(1) demo_header(2), of "[7, 8]" "replicate 16 5"
      "\<lambda>p. Some demo_file"] new_Firmware_ok(2) demo_header(3)
  by (simp add: kMd5SignatureLength_def demo_file_def del: length_append)

theorem firmware_header_corruption_witness:
  "\<exists>fw2. Open (\<lambda>p. if p = ''a'' then Some demo_file else Some (9 # 9 # drop 2 demo_file)) (\<lambda>i. 0)
     (Some ''b'') new_Firmware = Some (False, fw2)"
proof -
  let ?files = "\<lambda>p. if p = ''a'' then Some demo_file else Some (9 # 9 # drop 2 demo_file)"
  have "demo_file = [0, 0] @ drop 2 demo_file"
    by (simp add: demo_file_def header_bytes_def header_body_def demo_header_def zero_header_def le32_def
        numeral_2_eq_2 numeral_eq_Suc)
  moreover have "Open ?files (\<lambda>i. 0) (Some ''a'') new_Firmware =
      Some (True, \<lparr>header = demo_header, fw_data = Some [7, 8], fw_tail = replicate 16 5,
       file_size = length (header_bytes demo_header @ [7, 8] @ replicate 16 5)\<rparr>)"
    using Open_file [OF demo_header(1) new_Firmware_ok(1) demo_header(2), of "[7, 8]" "replicate 16 5" ?files]
      new_Firmware_ok(2) demo_header(3)
    by (simp add: kMd5SignatureLength_def demo_file_def del: length_append)
  ultimately show ?thesis
    using firmware_header_corruption [of ?files "\<lambda>i. 0" "''a''" new_Firmware _ "[]" "[0, 0]" "drop 2 demo_file"
      "''b''" "[9, 9]"] new_Firmware_ok(1) by simp
qed

text \<open>
  A file that ends before the declared length is accepted too: the missing bytes are what the
  fresh array held, and the signature keeps its old content.
\<close>
theorem firmware_truncated:
  assumes "header_ok (header fw)" "files path = Some (header_bytes h @ d)" "header_ok h" "17 \<le> length d"
    "header_checksum h = mcrf4xx_bits (header_body h)" "length d < unat (firmware_length h)"
  shows "Open files junk (Some path) fw = Some (True, fw\<lparr>file_size := header_size + length d, header := h,
    fw_data := Some (d @ map junk [length d..<unat (firmware_length h)])\<rparr>)"
proof -
  have "take 284 (header_bytes h @ d) = header_body h"
    using length_header_body [OF assms(3)] by (simp add: header_bytes_def)
  then show ?thesis
    using assms Open_long [of fw files path "header_bytes h @ d" h junk] header_at_bytes [OF assms(3)]
    by (simp add: length_header_bytes MiniFileSize_def kMd5SignatureLength_def read_into_def Let_def)
qed

theorem firmware_truncated_witness:
  "\<exists>fw'. Open (\<lambda>p. Some (header_bytes (demo_header\<lparr>firmware_length := 18,
        header_checksum := mcrf4xx_bits (header_body (demo_header\<lparr>firmware_length := 18\<rparr>))\<rparr>) @ replicate 17 1))
      (\<lambda>i. 0xCD) (Some ''fw.bin'') new_Firmware = Some (True, fw') \<and>
     fw_data fw' = Some (replicate 17 1 @ [0xCD])"
proof -
  let ?h = "demo_header\<lparr>firmware_length := 18,
        header_checksum := mcrf4xx_bits (header_body (demo_header\<lparr>firmware_length := 18\<rparr>))\<rparr>"
  have "header_ok ?h" using demo_header(1) by (simp add: header_ok_def)
  moreover have "header_checksum ?h = mcrf4xx_bits (header_body ?h)" by (simp add: header_body_def)
  ultimately show ?thesis
    using firmware_truncated [OF new_Firmware_ok(1), of "\<lambda>p. Some (header_bytes ?h @ replicate 17 1)" "''fw.bin''" ?h
      "replicate 17 1" "\<lambda>i. 0xCD"] by simp
qed

end
