(* ===== verification/Livox_Defs.thy ===== *)
theory Livox_Defs
  imports Fast_CRC
begin

text \<open>
  The vocabulary of the Livox SDK: the enumerations of livox\_lidar\_def.h, comm/protocol.h and
  comm/define.h with the numbers the wire uses, and the structs that the command path passes
  around. Enumerations are datatypes with a code function; packed structs whose bytes go on
  the wire have a function to their little-endian layout. A \<open>float\<close> field is the word of its
  bit pattern: the SDK copies such fields and computes nothing with them.
\<close>

section \<open>livox\_lidar\_def.h\<close>

datatype LivoxLidarDeviceType =
    kLivoxLidarTypeHub | kLivoxLidarTypeMid40 | kLivoxLidarTypeTele | kLivoxLidarTypeHorizon
  | kLivoxLidarTypeMid70 | kLivoxLidarTypeAvia | kLivoxLidarTypeMid360
  | kLivoxLidarTypeIndustrialHAP | kLivoxLidarTypeHAP | kLivoxLidarTypePA

primrec dev_type_code :: "LivoxLidarDeviceType \<Rightarrow> u8" where
  "dev_type_code kLivoxLidarTypeHub = 0"
| "dev_type_code kLivoxLidarTypeMid40 = 1"
| "dev_type_code kLivoxLidarTypeTele = 2"
| "dev_type_code kLivoxLidarTypeHorizon = 3"
| "dev_type_code kLivoxLidarTypeMid70 = 6"
| "dev_type_code kLivoxLidarTypeAvia = 7"
| "dev_type_code kLivoxLidarTypeMid360 = 9"
| "dev_type_code kLivoxLidarTypeIndustrialHAP = 10"
| "dev_type_code kLivoxLidarTypeHAP = 15"
| "dev_type_code kLivoxLidarTypePA = 16"

datatype ParamKeyName =
    kKeyPclDataType | kKeyPatternMode | kKeyDualEmitEn
  | kKeyPointSendEn | kKeyLidarIpCfg | kKeyStateInfoHostIpCfg
  | kKeyLidarPointDataHostIpCfg | kKeyLidarImuHostIpCfg | kKeyCtlHostIpCfg
  | kKeyLogHostIpCfg | kKeyVehicleSpeed | kKeyEnvironmentTemp
  | kKeyInstallAttitude | kKeyBlindSpotSet | kKeyFrameRate
  | kKeyFovCfg0 | kKeyFovCfg1 | kKeyFovCfgEn
  | kKeyDetectMode | kKeyFuncIoCfg | kKeyWorkModeAfterBoot
  | kKeyWorkMode | kKeyGlassHeat | kKeyImuDataEn
  | kKeyFusaEn | kKeyForceHeatEn | kKeyLogParamSet
  | kKeySn | kKeyProductInfo | kKeyVersionApp
  | kKeyVersionLoader | kKeyVersionHardware | kKeyMac
  | kKeyCurWorkState | kKeyCoreTemp | kKeyPowerUpCnt
  | kKeyLocalTimeNow | kKeyLastSyncTime | kKeyTimeOffset
  | kKeyTimeSyncType | kKeyStatusCode | kKeyLidarDiagStatus
  | kKeyLidarFlashStatus | kKeyFwType | kKeyHmsCode
  | kKeyCurGlassHeatState | kKeyRoiMode | kKeyLidarDiagInfoQuery

primrec key_code :: "ParamKeyName \<Rightarrow> u16" where
  "key_code kKeyPclDataType = 0x0000"
| "key_code kKeyPatternMode = 0x0001"
| "key_code kKeyDualEmitEn = 0x0002"
| "key_code kKeyPointSendEn = 0x0003"
| "key_code kKeyLidarIpCfg = 0x0004"
| "key_code kKeyStateInfoHostIpCfg = 0x0005"
| "key_code kKeyLidarPointDataHostIpCfg = 0x0006"
| "key_code kKeyLidarImuHostIpCfg = 0x0007"
| "key_code kKeyCtlHostIpCfg = 0x0008"
| "key_code kKeyLogHostIpCfg = 0x0009"
| "key_code kKeyVehicleSpeed = 0x0010"
| "key_code kKeyEnvironmentTemp = 0x0011"
| "key_code kKeyInstallAttitude = 0x0012"
| "key_code kKeyBlindSpotSet = 0x0013"
| "key_code kKeyFrameRate = 0x0014"
| "key_code kKeyFovCfg0 = 0x0015"
| "key_code kKeyFovCfg1 = 0x0016"
| "key_code kKeyFovCfgEn = 0x0017"
| "key_code kKeyDetectMode = 0x0018"
| "key_code kKeyFuncIoCfg = 0x0019"
| "key_code kKeyWorkModeAfterBoot = 0x0020"
| "key_code kKeyWorkMode = 0x001A"
| "key_code kKeyGlassHeat = 0x001B"
| "key_code kKeyImuDataEn = 0x001C"
| "key_code kKeyFusaEn = 0x001D"
| "key_code kKeyForceHeatEn = 0x001E"
| "key_code kKeyLogParamSet = 0x7FFF"
| "key_code kKeySn = 0x8000"
| "key_code kKeyProductInfo = 0x8001"
| "key_code kKeyVersionApp = 0x8002"
| "key_code kKeyVersionLoader = 0x8003"
| "key_code kKeyVersionHardware = 0x8004"
| "key_code kKeyMac = 0x8005"
| "key_code kKeyCurWorkState = 0x8006"
| "key_code kKeyCoreTemp = 0x8007"
| "key_code kKeyPowerUpCnt = 0x8008"
| "key_code kKeyLocalTimeNow = 0x8009"
| "key_code kKeyLastSyncTime = 0x800A"
| "key_code kKeyTimeOffset = 0x800B"
| "key_code kKeyTimeSyncType = 0x800C"
| "key_code kKeyStatusCode = 0x800D"
| "key_code kKeyLidarDiagStatus = 0x800E"
| "key_code kKeyLidarFlashStatus = 0x800F"
| "key_code kKeyFwType = 0x8010"
| "key_code kKeyHmsCode = 0x8011"
| "key_code kKeyCurGlassHeatState = 0x8012"
| "key_code kKeyRoiMode = 0xFFFE"
| "key_code kKeyLidarDiagInfoQuery = 0xFFFF"

text \<open>The \<open>switch\<close> on a received key: the enumerator of a code, if there is one.\<close>

definition key_of_code :: "u16 \<Rightarrow> ParamKeyName option" where
  "key_of_code = map_of [
    (0x0000, kKeyPclDataType), (0x0001, kKeyPatternMode),
    (0x0002, kKeyDualEmitEn), (0x0003, kKeyPointSendEn),
    (0x0004, kKeyLidarIpCfg), (0x0005, kKeyStateInfoHostIpCfg),
    (0x0006, kKeyLidarPointDataHostIpCfg), (0x0007, kKeyLidarImuHostIpCfg),
    (0x0008, kKeyCtlHostIpCfg), (0x0009, kKeyLogHostIpCfg),
    (0x0010, kKeyVehicleSpeed), (0x0011, kKeyEnvironmentTemp),
    (0x0012, kKeyInstallAttitude), (0x0013, kKeyBlindSpotSet),
    (0x0014, kKeyFrameRate), (0x0015, kKeyFovCfg0),
    (0x0016, kKeyFovCfg1), (0x0017, kKeyFovCfgEn),
    (0x0018, kKeyDetectMode), (0x0019, kKeyFuncIoCfg),
    (0x0020, kKeyWorkModeAfterBoot), (0x001A, kKeyWorkMode),
    (0x001B, kKeyGlassHeat), (0x001C, kKeyImuDataEn),
    (0x001D, kKeyFusaEn), (0x001E, kKeyForceHeatEn),
    (0x7FFF, kKeyLogParamSet), (0x8000, kKeySn),
    (0x8001, kKeyProductInfo), (0x8002, kKeyVersionApp),
    (0x8003, kKeyVersionLoader), (0x8004, kKeyVersionHardware),
    (0x8005, kKeyMac), (0x8006, kKeyCurWorkState),
    (0x8007, kKeyCoreTemp), (0x8008, kKeyPowerUpCnt),
    (0x8009, kKeyLocalTimeNow), (0x800A, kKeyLastSyncTime),
    (0x800B, kKeyTimeOffset), (0x800C, kKeyTimeSyncType),
    (0x800D, kKeyStatusCode), (0x800E, kKeyLidarDiagStatus),
    (0x800F, kKeyLidarFlashStatus), (0x8010, kKeyFwType),
    (0x8011, kKeyHmsCode), (0x8012, kKeyCurGlassHeatState),
    (0xFFFE, kKeyRoiMode), (0xFFFF, kKeyLidarDiagInfoQuery)]"

lemma key_of_key_code [simp]: "key_of_code (key_code k) = Some k"
  by (cases k) (simp_all add: key_of_code_def)

lemma key_code_inj: "key_code k = key_code l \<longleftrightarrow> k = l"
  by (metis key_of_key_code option.inject)

text \<open>The order of a \<open>std::set<ParamKeyName>\<close> is the order of the codes.\<close>

instantiation ParamKeyName :: linorder
begin

definition less_eq_ParamKeyName :: "ParamKeyName \<Rightarrow> ParamKeyName \<Rightarrow> bool" where
  "less_eq_ParamKeyName k l \<longleftrightarrow> key_code k \<le> key_code l"

definition less_ParamKeyName :: "ParamKeyName \<Rightarrow> ParamKeyName \<Rightarrow> bool" where
  "less_ParamKeyName k l \<longleftrightarrow> key_code k < key_code l"

instance
  by standard (auto simp: less_eq_ParamKeyName_def less_ParamKeyName_def less_le key_code_inj)

end

datatype LivoxLidarStatus =
    kLivoxLidarStatusSendFailed | kLivoxLidarStatusHandlerImplNotExist
  | kLivoxLidarStatusInvalidHandle | kLivoxLidarStatusChannelNotExist
  | kLivoxLidarStatusNotEnoughMemory | kLivoxLidarStatusTimeout | kLivoxLidarStatusNotSupported
  | kLivoxLidarStatusNotConnected | kLivoxLidarStatusFailure | kLivoxLidarStatusSuccess

primrec status_code :: "LivoxLidarStatus \<Rightarrow> int" where
  "status_code kLivoxLidarStatusSendFailed = -9"
| "status_code kLivoxLidarStatusHandlerImplNotExist = -8"
| "status_code kLivoxLidarStatusInvalidHandle = -7"
| "status_code kLivoxLidarStatusChannelNotExist = -6"
| "status_code kLivoxLidarStatusNotEnoughMemory = -5"
| "status_code kLivoxLidarStatusTimeout = -4"
| "status_code kLivoxLidarStatusNotSupported = -3"
| "status_code kLivoxLidarStatusNotConnected = -2"
| "status_code kLivoxLidarStatusFailure = -1"
| "status_code kLivoxLidarStatusSuccess = 0"

datatype LivoxLidarPointDataType =
    kLivoxLidarImuData | kLivoxLidarCartesianCoordinateHighData
  | kLivoxLidarCartesianCoordinateLowData | kLivoxLidarSphericalCoordinateData

primrec point_data_type_code :: "LivoxLidarPointDataType \<Rightarrow> u8" where
  "point_data_type_code kLivoxLidarImuData = 0"
| "point_data_type_code kLivoxLidarCartesianCoordinateHighData = 0x01"
| "point_data_type_code kLivoxLidarCartesianCoordinateLowData = 0x02"
| "point_data_type_code kLivoxLidarSphericalCoordinateData = 0x03"

datatype LivoxLidarScanPattern =
    kLivoxLidarScanPatternNoneRepetive | kLivoxLidarScanPatternRepetive
  | kLivoxLidarScanPatternRepetiveLowFrameRate

primrec scan_pattern_code :: "LivoxLidarScanPattern \<Rightarrow> u8" where
  "scan_pattern_code kLivoxLidarScanPatternNoneRepetive = 0x00"
| "scan_pattern_code kLivoxLidarScanPatternRepetive = 0x01"
| "scan_pattern_code kLivoxLidarScanPatternRepetiveLowFrameRate = 0x02"

datatype LivoxLidarWorkMode =
    kLivoxLidarNormal | kLivoxLidarWakeUp | kLivoxLidarSleep | kLivoxLidarError
  | kLivoxLidarPowerOnSelfTest | kLivoxLidarMotorStarting | kLivoxLidarMotorStoping
  | kLivoxLidarUpgrade

primrec work_mode_code :: "LivoxLidarWorkMode \<Rightarrow> u8" where
  "work_mode_code kLivoxLidarNormal = 0x01"
| "work_mode_code kLivoxLidarWakeUp = 0x02"
| "work_mode_code kLivoxLidarSleep = 0x03"
| "work_mode_code kLivoxLidarError = 0x04"
| "work_mode_code kLivoxLidarPowerOnSelfTest = 0x05"
| "work_mode_code kLivoxLidarMotorStarting = 0x06"
| "work_mode_code kLivoxLidarMotorStoping = 0x07"
| "work_mode_code kLivoxLidarUpgrade = 0x08"

datatype LivoxLidarWorkModeAfterBoot =
    kLivoxLidarWorkModeAfterBootDefault | kLivoxLidarWorkModeAfterBootNormal
  | kLivoxLidarWorkModeAfterBootWakeUp

primrec work_mode_after_boot_code :: "LivoxLidarWorkModeAfterBoot \<Rightarrow> u8" where
  "work_mode_after_boot_code kLivoxLidarWorkModeAfterBootDefault = 0x00"
| "work_mode_after_boot_code kLivoxLidarWorkModeAfterBootNormal = 0x01"
| "work_mode_after_boot_code kLivoxLidarWorkModeAfterBootWakeUp = 0x02"

datatype LivoxLidarDetectMode = kLivoxLidarDetectNormal | kLivoxLidarDetectSensitive

primrec detect_mode_code :: "LivoxLidarDetectMode \<Rightarrow> u8" where
  "detect_mode_code kLivoxLidarDetectNormal = 0x00"
| "detect_mode_code kLivoxLidarDetectSensitive = 0x01"

datatype LivoxLidarGlassHeat =
    kLivoxLidarStopPowerOnHeatingOrDiagnosticHeating | kLivoxLidarTurnOnHeating
  | kLivoxLidarDiagnosticHeating | kLivoxLidarStopSelfHeating

primrec glass_heat_code :: "LivoxLidarGlassHeat \<Rightarrow> u8" where
  "glass_heat_code kLivoxLidarStopPowerOnHeatingOrDiagnosticHeating = 0x00"
| "glass_heat_code kLivoxLidarTurnOnHeating = 0x01"
| "glass_heat_code kLivoxLidarDiagnosticHeating = 0x02"
| "glass_heat_code kLivoxLidarStopSelfHeating = 0x03"

record LivoxLidarInstallAttitude =
  roll_deg :: u32
  pitch_deg :: u32
  yaw_deg :: u32
  att_x :: u32
  att_y :: u32
  att_z :: u32

definition install_attitude_bytes :: "LivoxLidarInstallAttitude \<Rightarrow> u8 list" where
  "install_attitude_bytes a = le32 (roll_deg a) @ le32 (pitch_deg a) @ le32 (yaw_deg a) @
     le32 (att_x a) @ le32 (att_y a) @ le32 (att_z a)"

record FovCfg =
  yaw_start :: u32
  yaw_stop :: u32
  pitch_start :: u32
  pitch_stop :: u32
  fov_rsvd :: u32

definition fov_cfg_bytes :: "FovCfg \<Rightarrow> u8 list" where
  "fov_cfg_bytes f = le32 (yaw_start f) @ le32 (yaw_stop f) @ le32 (pitch_start f) @
     le32 (pitch_stop f) @ le32 (fov_rsvd f)"

record FuncIOCfg =
  in0 :: u8
  int1 :: u8
  out0 :: u8
  out1 :: u8

definition func_io_cfg_bytes :: "FuncIOCfg \<Rightarrow> u8 list" where
  "func_io_cfg_bytes f = [in0 f, int1 f, out0 f, out1 f]"

record LivoxLidarLogParam =
  log_send_method :: u8
  log_id :: u16
  log_frequency :: u16
  is_save_setting :: u8
  check_code :: u8

definition log_param_bytes :: "LivoxLidarLogParam \<Rightarrow> u8 list" where
  "log_param_bytes p = [log_send_method p] @ le16 (log_id p) @ le16 (log_frequency p) @
     [is_save_setting p, check_code p]"

lemma length_struct_bytes [simp, byte_simps]:
  "length (install_attitude_bytes a) = 24" "length (fov_cfg_bytes f) = 20"
  "length (func_io_cfg_bytes i) = 4" "length (log_param_bytes p) = 7"
  by (simp_all add: install_attitude_bytes_def fov_cfg_bytes_def func_io_cfg_bytes_def
      log_param_bytes_def)

record LivoxLidarIpInfo =
  ip_addr :: string
  net_mask :: string
  gw_addr :: string

record HostStateInfoIpInfo =
  host_state_ip_addr :: string
  host_state_info_port :: u16
  lidar_state_info_port :: u16

record HostPointIPInfo =
  host_point_ip_addr :: string
  host_point_data_port :: u16
  lidar_point_data_port :: u16

record HostImuDataIPInfo =
  host_imu_ip_addr :: string
  host_imu_data_port :: u16
  lidar_imu_data_port :: u16

section \<open>comm/protocol.h\<close>

datatype ProtocolType = kLidarSdk | kRsvd1 | kProtocolUndef

primrec protocol_code :: "ProtocolType \<Rightarrow> u8" where
  "protocol_code kLidarSdk = 0"
| "protocol_code kRsvd1 = 1"
| "protocol_code kProtocolUndef = 2"

text \<open>
  \<open>data\<close> is a pointer: \<open>None\<close> when null, otherwise the bytes of the object from the pointer on,
  of which a reader may use \<open>data_len\<close>.
\<close>

record CommPacket =
  protocol :: u8
  version :: u8
  seq_num :: u32
  cmd_id :: u16
  cmd_type :: u8
  sender_type :: u8
  data :: "u8 list option"
  data_len :: u16

section \<open>comm/define.h\<close>

definition KDefaultTimeOut :: nat where "KDefaultTimeOut = 1000"
definition kMaxCommandBufferSize :: nat where "kMaxCommandBufferSize = 1400"

record LivoxLidarNetInfo =
  lidar_ipaddr :: string
  lidar_subnet_mask :: string
  lidar_gateway :: string
  lidar_cmd_data_port :: u16
  lidar_push_msg_port :: u16
  lidar_point_port_cfg :: u16
  lidar_imu_port_cfg :: u16
  lidar_log_port_cfg :: u16

record HostNetInfo =
  host_ip :: string
  multicast_ip :: string
  cmd_data_port :: u16
  push_msg_port :: u16
  point_data_port :: u16
  imu_data_port :: u16
  log_data_port :: u16

record LivoxLidarCfg =
  device_type :: u8
  lidar_net_info :: LivoxLidarNetInfo
  host_net_info :: HostNetInfo

datatype LidarCommandID =
    kCommandIDLidarSearch | kCommandIDLidarWorkModeControl | kCommandIDLidarGetInternalInfo
  | kCommandIDLidarPushMsg | kCommandIDLidarRebootDevice | kCommandIDLidarResetDevice
  | kCommandIDLidarSetPPSSync | kCommandIDLidarPushLog | kCommandIDLidarCollectionLog
  | kCommandIDLidarLogSysTimeSync | kCommandIDLidarDebugPointCloudControl
  | kCommandIDGeneralRequestUpgrade | kCommandIDGeneralXferFirmware
  | kCommandIDGeneralCompleteXferFirmware | kCommandIDGeneralRequestUpgradeProgress
  | kCommandIDGeneralRequestFirmwareInfo | kCommandIDLidarCommandCount

primrec command_id_code :: "LidarCommandID \<Rightarrow> u16" where
  "command_id_code kCommandIDLidarSearch = 0x0000"
| "command_id_code kCommandIDLidarWorkModeControl = 0x0100"
| "command_id_code kCommandIDLidarGetInternalInfo = 0x0101"
| "command_id_code kCommandIDLidarPushMsg = 0x0102"
| "command_id_code kCommandIDLidarRebootDevice = 0x0200"
| "command_id_code kCommandIDLidarResetDevice = 0x0201"
| "command_id_code kCommandIDLidarSetPPSSync = 0x0202"
| "command_id_code kCommandIDLidarPushLog = 0x0300"
| "command_id_code kCommandIDLidarCollectionLog = 0x0301"
| "command_id_code kCommandIDLidarLogSysTimeSync = 0x0302"
| "command_id_code kCommandIDLidarDebugPointCloudControl = 0x0303"
| "command_id_code kCommandIDGeneralRequestUpgrade = 0x0400"
| "command_id_code kCommandIDGeneralXferFirmware = 0x0401"
| "command_id_code kCommandIDGeneralCompleteXferFirmware = 0x0402"
| "command_id_code kCommandIDGeneralRequestUpgradeProgress = 0x0403"
| "command_id_code kCommandIDGeneralRequestFirmwareInfo = 0xFF"
| "command_id_code kCommandIDLidarCommandCount = 0x100"

datatype CommandType = kCommandTypeCmd | kCommandTypeAck

primrec command_type_code :: "CommandType \<Rightarrow> u8" where
  "command_type_code kCommandTypeCmd = 0"
| "command_type_code kCommandTypeAck = 1"

datatype SendType = kHostSend | kLidarSend

primrec send_type_code :: "SendType \<Rightarrow> u8" where
  "send_type_code kHostSend = 0"
| "send_type_code kLidarSend = 1"

record DetectionData =
  det_ret_code :: u8
  det_dev_type :: u8
  det_sn :: "u8 list"
  det_lidar_ip :: "u8 list"
  det_cmd_port :: u16

record ViewLidarIpInfo =
  view_handle :: u32
  view_dev_type :: u8
  view_host_ip :: string
  view_lidar_cmd_port :: u16
  view_lidar_point_port :: u16
  view_lidar_imu_data_port :: u16
  view_host_point_port :: u16
  view_host_imu_data_port :: u16

text \<open>The ports the command path uses.\<close>

definition kDetectionPort :: u16 where "kDetectionPort = 56000"
definition kHostDebugPointCloudPort :: u16 where "kHostDebugPointCloudPort = 44332"
definition kHAPCmdPort :: u16 where "kHAPCmdPort = 56000"
definition kHAPPushMsgPort :: u16 where "kHAPPushMsgPort = 56000"
definition kHAPPointDataPort :: u16 where "kHAPPointDataPort = 57000"
definition kHAPIMUPort :: u16 where "kHAPIMUPort = 58000"
definition kHAPLogPort :: u16 where "kHAPLogPort = 59000"
definition kMid360LidarCmdPort :: u16 where "kMid360LidarCmdPort = 56100"
definition kMid360LidarPushMsgPort :: u16 where "kMid360LidarPushMsgPort = 56200"
definition kMid360LidarPointCloudPort :: u16 where "kMid360LidarPointCloudPort = 56300"
definition kMid360LidarImuDataPort :: u16 where "kMid360LidarImuDataPort = 56400"
definition kMid360LidarLogPort :: u16 where "kMid360LidarLogPort = 56500"
definition kPaLidarPointCloudPort :: u16 where "kPaLidarPointCloudPort = 10000"
definition kPaLidarFaultPort :: u16 where "kPaLidarFaultPort = 10001"

lemmas port_defs = kDetectionPort_def kHostDebugPointCloudPort_def kHAPCmdPort_def
  kHAPPushMsgPort_def kHAPPointDataPort_def kHAPIMUPort_def kHAPLogPort_def
  kMid360LidarCmdPort_def kMid360LidarPushMsgPort_def kMid360LidarPointCloudPort_def
  kMid360LidarImuDataPort_def kMid360LidarLogPort_def kPaLidarPointCloudPort_def
  kPaLidarFaultPort_def

end
