(* ===== verification/Sdk_Protocol.thy ===== *)
theory Sdk_Protocol
  imports Livox_Defs
begin

text \<open>
  The wire format of the SDK: \<open>SdkProtocol\<close> (comm/sdk_protocol.cpp), the \<open>CommPort\<close> that wraps
  it (comm/comm_port.cpp) and the sequence numbers of \<open>GenerateSeq\<close> (comm/generate_seq.cpp).

  A packet is the packed struct \<open>SdkPacket\<close>: sof (offset 0), version (1), length (2), seq_num (4),
  cmd_id (8), cmd_type (10), sender_type (11), rsvd (12..17), crc16_h (18), crc32_d (20), data (24).
  The functions return \<open>None\<close> where the code would leave a buffer.
\<close>

section \<open>SdkProtocol\<close>

definition kSdkProtocolSof :: u8 where "kSdkProtocolSof = 0xAA"
definition kSdkVer :: u8 where "kSdkVer = 0"

definition GetPreambleLen :: u32 where "GetPreambleLen = 24"
definition GetPacketWrapperLen :: u32 where "GetPacketWrapperLen = 24"

lemmas sdk_consts = kSdkProtocolSof_def kSdkVer_def GetPreambleLen_def GetPacketWrapperLen_def

text \<open>The first \<open>n\<close> bytes behind a data pointer; a null pointer has none.\<close>

definition deref :: "u8 list option \<Rightarrow> nat \<Rightarrow> u8 list option" where
  "deref p n = (case p of None \<Rightarrow> if n = 0 then Some [] else None | Some d \<Rightarrow> peek d 0 n)"

definition GetPacketLen :: "u8 list \<Rightarrow> u32 option" where
  "GetPacketLen buf = map_option ucast (rd16 buf 2)"

definition Pack :: "u8 list \<Rightarrow> u32 \<Rightarrow> CommPacket \<Rightarrow> (int \<times> u8 list \<times> u32 option) option" where
  "Pack o_buf o_buf_size p =
     (if protocol p \<noteq> protocol_code kLidarSdk then Some (-1, o_buf, None)
      else do {
        b \<leftarrow> poke o_buf 0 [kSdkProtocolSof];
        b \<leftarrow> poke b 1 [kSdkVer];
        let len = (ucast (ucast (data_len p) + GetPacketWrapperLen) :: u16);
        b \<leftarrow> poke b 2 (le16 len);
        if o_buf_size < ucast len then Some (-1, b, None)
        else do {
          b \<leftarrow> poke b 4 (le32 (seq_num p AND 0xFFFF));
          b \<leftarrow> poke b 8 (le16 (cmd_id p));
          b \<leftarrow> poke b 10 [cmd_type p];
          b \<leftarrow> poke b 11 [sender_type p];
          h \<leftarrow> peek b 0 18;
          b \<leftarrow> poke b 18 (le16 (ccitt h));
          d \<leftarrow> deref (data p) (unat (data_len p));
          b \<leftarrow> poke b 20 (le32 (if data_len p = 0 then 0 else crc32 d));
          b \<leftarrow> poke b 24 d;
          Some (0, b, Some (ucast len))
        }
      })"

definition ParsePacket :: "u8 list \<Rightarrow> u32 \<Rightarrow> CommPacket option option" where
  "ParsePacket i_buf buf_size =
     (if buf_size < GetPacketWrapperLen then Some None
      else do {
        ver \<leftarrow> rd8 i_buf 1;
        len \<leftarrow> rd16 i_buf 2;
        seq \<leftarrow> rd32 i_buf 4;
        cmd \<leftarrow> rd16 i_buf 8;
        ty \<leftarrow> rd8 i_buf 10;
        sender \<leftarrow> rd8 i_buf 11;
        Some (Some \<lparr>protocol = protocol_code kLidarSdk, version = ver, seq_num = seq, cmd_id = cmd,
          cmd_type = ty, sender_type = sender, data = Some (drop 24 i_buf),
          data_len = ucast (ucast len - GetPacketWrapperLen)\<rparr>)
      })"

definition CheckPreamble :: "u8 list \<Rightarrow> u32 \<Rightarrow> bool option" where
  "CheckPreamble buf buf_size =
     (if buf_size < GetPreambleLen then Some False
      else do {
        sof \<leftarrow> rd8 buf 0;
        if sof \<noteq> kSdkProtocolSof then Some False else do {
        ver \<leftarrow> rd8 buf 1;
        if ver \<noteq> kSdkVer then Some False else do {
        len \<leftarrow> rd16 buf 2;
        if ucast len < GetPreambleLen then Some False else do {
        h \<leftarrow> peek buf 0 18;
        c16 \<leftarrow> rd16 buf 18;
        if c16 \<noteq> ccitt h then Some False else do {
        let n = unat (ucast len - GetPacketWrapperLen :: u32);
        d \<leftarrow> peek buf 24 n;
        c32 \<leftarrow> rd32 buf 20;
        Some (c32 = (if n = 0 then 0 else crc32 d)) }}}}
      })"

section \<open>CommPort\<close>

definition CommPort_Pack :: "u8 list \<Rightarrow> u32 \<Rightarrow> CommPacket \<Rightarrow> (int \<times> u8 list \<times> u32 option) option" where
  "CommPort_Pack o_buf o_buf_size p = Pack o_buf o_buf_size p"

definition ParseCommStream :: "u8 list \<Rightarrow> u32 \<Rightarrow> CommPacket option option" where
  "ParseCommStream buf buf_size = do {
     ok \<leftarrow> CheckPreamble buf buf_size;
     if \<not> ok then Some None else ParsePacket buf buf_size
   }"

section \<open>GenerateSeq\<close>

text \<open>The new value of the static counter, which is also the value returned.\<close>

definition GetSeq :: "u32 \<Rightarrow> u32" where
  "GetSeq value = (if value = 65535 then 1 else value + 1)"

section \<open>Facts about headers\<close>

definition header_of :: "CommPacket \<Rightarrow> u8 list \<Rightarrow> u8 list" where
  "header_of p rsvd = [kSdkProtocolSof, kSdkVer] @ le16 (data_len p + 24) @
     le32 (seq_num p AND 0xFFFF) @ le16 (cmd_id p) @ [cmd_type p, sender_type p] @ rsvd"

definition frame_of :: "CommPacket \<Rightarrow> u8 list \<Rightarrow> u8 list \<Rightarrow> u8 list" where
  "frame_of p rsvd d = header_of p rsvd @ le16 (ccitt (header_of p rsvd)) @
     le32 (if d = [] then 0 else crc32 d) @ d"

lemma length_header [simp]: "length (header_of p rsvd) = 12 + length rsvd"
  by (simp add: header_of_def)

lemma len_word:
  assumes "unat (n :: u16) \<le> 65511"
  shows "ucast (ucast n + 24 :: u32) = n + 24" "unat (n + 24) = unat n + 24"
    "ucast (n + 24) = (ucast n + 24 :: u32)" "unat (ucast n + 24 :: u32) = unat n + 24"
proof -
  show u: "unat (n + 24) = unat n + 24"
    using assms by (simp add: unat_word_ariths)
  have un: "unat (ucast n :: u32) = unat n"
    using assms by (simp add: unsigned_ucast_eq take_bit_nat_eq_self)
  show v: "unat (ucast n + 24 :: u32) = unat n + 24"
    using assms by (simp add: unat_word_ariths un)
  show "ucast (ucast n + 24 :: u32) = n + 24"
    by (rule word_unat_eq_iff [THEN iffD2], simp add: unsigned_ucast_eq v)
      (use assms in \<open>simp add: u take_bit_nat_eq_self\<close>)
  show "ucast (n + 24) = (ucast n + 24 :: u32)"
    by (rule word_unat_eq_iff [THEN iffD2], simp add: unsigned_ucast_eq v)
      (use assms in \<open>simp add: u take_bit_nat_eq_self\<close>)
qed

lemma Pack_frame:
  assumes "protocol p = protocol_code kLidarSdk" "data p = Some d" "unat (data_len p) \<le> length d"
    and small: "unat (data_len p) \<le> 65511"
    and "unat (data_len p) + 24 \<le> unat o_buf_size" "unat o_buf_size \<le> length o_buf"
  shows "Pack o_buf o_buf_size p = Some (0,
      frame_of p (take 6 (drop 12 o_buf)) (take (unat (data_len p)) d) @
      drop (24 + unat (data_len p)) o_buf, Some (ucast (data_len p) + 24))"
proof -
  have "\<not> o_buf_size < ucast (data_len p) + 24"
    using assms(5) by (simp add: word_less_nat_alt len_word(4) [OF small])
  moreover have "take (unat (data_len p)) d = [] \<longleftrightarrow> data_len p = 0"
    using assms(3) by (cases d) (auto simp: unat_eq_zero)
  moreover obtain k where "length o_buf = 24 + unat (data_len p) + k"
    using assms(5,6) by (metis add.commute le_Suc_ex le_trans)
  ultimately show ?thesis
    using assms(1-3)
    by (simp add: Pack_def poke_def peek_def deref_def Let_def sdk_consts len_word [OF small]
        frame_of_def header_of_def take_Cons' drop_Cons' add.commute [of _ "24 :: nat"])
qed

lemma take_drop_header:
  "take 18 (header_of p r @ xs) = header_of p r" "drop 18 (header_of p r @ xs) = xs"
  if "length r = 6"
  using that by simp_all

lemma frame_fields:
  assumes "length r = 6"
  shows "rd8 (frame_of p r d @ t) 0 = Some kSdkProtocolSof" "rd8 (frame_of p r d @ t) (Suc 0) = Some kSdkVer"
    "rd16 (frame_of p r d @ t) 2 = Some (data_len p + 24)"
    "rd32 (frame_of p r d @ t) 4 = Some (seq_num p AND 0xFFFF)"
    "rd16 (frame_of p r d @ t) 8 = Some (cmd_id p)" "rd8 (frame_of p r d @ t) 10 = Some (cmd_type p)"
    "rd8 (frame_of p r d @ t) 11 = Some (sender_type p)"
    "rd16 (frame_of p r d @ t) 18 = Some (ccitt (header_of p r))"
    "rd32 (frame_of p r d @ t) 20 = Some (if d = [] then 0 else crc32 d)"
    "peek (frame_of p r d @ t) 0 18 = Some (header_of p r)"
    "peek (frame_of p r d @ t) 24 (length d) = Some d"
  using assms
  by (simp_all add: rd8_def rd16_def rd32_def peek_def frame_of_def header_of_def
      take_Cons' drop_Cons')

lemma Check_frame:
  assumes "length r = 6" "length d = unat (data_len p)" "unat (data_len p) \<le> 65511" "24 \<le> n"
  shows "CheckPreamble (frame_of p r d @ t) n = Some True"
proof -
  have "\<not> ucast (data_len p) + 24 < (24 :: u32)"
    by (simp add: word_less_nat_alt len_word(4) [OF assms(3)])
  moreover have "unat (data_len p) = length d" using assms by simp
  ultimately show ?thesis
    using assms(1,3,4)
    by (simp add: CheckPreamble_def frame_fields [OF assms(1), unfolded sdk_consts] sdk_consts
        Let_def len_word [OF assms(3)] not_less)
qed

lemma Parse_frame:
  assumes "length r = 6" "unat (data_len p) \<le> 65511" "24 \<le> n"
  shows "ParsePacket (frame_of p r d @ t) n = Some (Some
    \<lparr>protocol = protocol_code kLidarSdk, version = kSdkVer, seq_num = seq_num p AND 0xFFFF,
     cmd_id = cmd_id p, cmd_type = cmd_type p, sender_type = sender_type p,
     data = Some (d @ t), data_len = data_len p\<rparr>)"
proof -
  have "drop 24 (frame_of p r d @ t) = d @ t"
    using assms(1) by (simp add: frame_of_def)
  then show ?thesis
    using assms
    by (simp add: ParsePacket_def frame_fields [OF assms(1), unfolded sdk_consts] sdk_consts
        len_word [OF assms(2)] not_less)
qed

lemma length_frame [simp]: "length r = 6 \<Longrightarrow> length (frame_of p r d) = 24 + length d"
  by (simp add: frame_of_def)


section \<open>Properties of the wire format\<close>

text \<open>
  C1. A packet packed into a buffer that holds it is a frame of 24 + data_len bytes at the start
  of the buffer; the rest of the buffer is untouched, and CommPort::ParseCommStream of the frame,
  with any bytes behind it, returns the packet's fields: the sequence number masked to 16 bits,
  the version 0 whatever the packet had, and a data pointer to the same bytes.
\<close>
theorem pack_parse_roundtrip:
  assumes "protocol p = protocol_code kLidarSdk" "data p = Some d" "unat (data_len p) \<le> length d"
    and "unat (data_len p) \<le> 65511"
    and "unat (data_len p) + 24 \<le> unat o_buf_size" "unat o_buf_size \<le> length o_buf" "24 \<le> n"
  shows "\<exists>frame t. CommPort_Pack o_buf o_buf_size p =
        Some (0, frame @ t, Some (ucast (data_len p) + 24)) \<and>
      length frame = unat (data_len p) + 24 \<and> t = drop (length frame) o_buf \<and>
      ParseCommStream (frame @ t') n = Some (Some
        \<lparr>protocol = protocol_code kLidarSdk, version = kSdkVer, seq_num = seq_num p AND 0xFFFF,
         cmd_id = cmd_id p, cmd_type = cmd_type p, sender_type = sender_type p,
         data = Some (take (unat (data_len p)) d @ t'), data_len = data_len p\<rparr>)"
proof -
  let ?r = "take 6 (drop 12 o_buf)" and ?d = "take (unat (data_len p)) d"
  have r: "length ?r = 6" and l: "length ?d = unat (data_len p)" using assms by simp_all
  show ?thesis
    by (rule exI [of _ "frame_of p ?r ?d"], rule exI [of _ "drop (24 + unat (data_len p)) o_buf"])
      (use assms in \<open>simp add: CommPort_Pack_def Pack_frame ParseCommStream_def
        Check_frame [OF r l] Parse_frame [OF r] r add.commute\<close>)
qed

theorem pack_parse_roundtrip_witness:
  "\<exists>frame t. CommPort_Pack (replicate 64 0) 64 (\<lparr>protocol = 0, version = 3, seq_num = 7, cmd_id = 0x100, cmd_type = 0, sender_type = 0,
     data = Some [1, 2, 3], data_len = 3\<rparr>) = Some (0, frame @ t, Some (ucast (3 :: u16) + 24)) \<and>
      length frame = 27 \<and> t = drop (length frame) (replicate 64 0) \<and>
      ParseCommStream (frame @ []) 27 = Some (Some
        \<lparr>protocol = 0, version = kSdkVer, seq_num = 7, cmd_id = 0x100, cmd_type = 0, sender_type = 0,
         data = Some [1, 2, 3], data_len = 3\<rparr>)"
  using pack_parse_roundtrip [of "\<lparr>protocol = 0, version = 3, seq_num = 7, cmd_id = 0x100, cmd_type = 0, sender_type = 0,
     data = Some [1, 2, 3], data_len = 3\<rparr>" "[1, 2, 3]" 64 "replicate 64 0" 27 "[]"] by simp

lemma CheckPreamble_None_iff:
  assumes "24 \<le> n" and n: "24 \<le> length buf" and "rd8 buf 0 = Some kSdkProtocolSof"
    "rd8 buf 1 = Some kSdkVer" "rd16 buf 2 = Some len" "24 \<le> unat len"
    "rd16 buf 18 = Some (ccitt (take 18 buf))"
  shows "CheckPreamble buf n = (if length buf < unat len then None else
     Some (rd32 buf 20 = Some (if unat len = 24 then 0 else crc32 (take (unat len - 24) (drop 24 buf)))))"
proof -
  have len: "unat (ucast len :: u32) = unat len"
    by simp
  have "24 \<le> (ucast len :: u32)" using assms(6) by (simp add: word_le_nat_alt len)
  then have "unat (ucast len - 24 :: u32) = unat len - 24" by (simp add: unat_sub_if' word_le_nat_alt len)
  moreover from \<open>24 \<le> (ucast len :: u32)\<close> have "\<not> ucast len < (24 :: u32)" by simp
  moreover have "peek buf 0 18 = Some (take 18 buf)" using n by (simp add: peek_def)
  moreover obtain c where "rd32 buf 20 = Some c" using n by (cases "rd32 buf 20") simp_all
  ultimately show ?thesis
    using assms n
    by (auto simp: CheckPreamble_def sdk_consts Let_def peek_def)
qed


lemma CheckPreamble_TrueD:
  assumes "CheckPreamble buf n = Some True"
  obtains len where "24 \<le> n" "24 \<le> length buf" "rd8 buf 0 = Some kSdkProtocolSof"
    "rd8 buf 1 = Some kSdkVer" "rd16 buf 2 = Some len" "24 \<le> unat len" "unat len \<le> length buf"
    "rd16 buf 18 = Some (ccitt (take 18 buf))"
    "rd32 buf 20 = Some (if unat len = 24 then 0 else crc32 (take (unat len - 24) (drop 24 buf)))"
proof -
  have un: "unat (ucast len - 24 :: u32) = unat len - 24" if "24 \<le> unat len" for len :: u16
    using that by (simp add: unat_sub_if' word_le_nat_alt)
  have z: "unat len \<le> 24 \<longleftrightarrow> unat len = 24" if "24 \<le> unat len" for len :: u16
    using that by arith
  show thesis
    using assms
    by (auto simp: CheckPreamble_def sdk_consts Let_def peek_def un z not_less word_le_nat_alt
        split: if_splits Option.bind_splits intro!: that)
qed

lemma CheckPreamble_not_False:
  assumes "CheckPreamble buf n \<noteq> Some False" "24 \<le> length buf"
  shows "rd16 buf 18 = Some (ccitt (take 18 buf))"
proof -
  have "rd8 buf 0 = Some (buf ! 0)" "rd8 buf 1 = Some (buf ! 1)"
    "rd16 buf 2 = Some (from_le (take 2 (drop 2 buf)))"
    using assms(2) by (auto intro!: rd8_nth rd_in_bounds)
  moreover obtain c where c: "rd16 buf 18 = Some c" "c = from_le (take 2 (drop 18 buf))"
    using assms(2) by (simp add: rd_in_bounds)
  moreover have "peek buf 0 18 = Some (take 18 buf)" using assms(2) by (simp add: peek_def)
  ultimately have "c = ccitt (take 18 buf)"
    using assms(1) by (simp add: CheckPreamble_def del: One_nat_def split: if_splits)
  with c(1) show ?thesis by simp
qed

lemma from_le_inj:
  assumes "(from_le xs :: 'a::len word) = from_le ys" "length xs = length ys" "8 * length xs \<le> LENGTH('a)"
  shows "xs = ys"
  using assms by (metis le_bytes_from_le)

lemma rd_eq_take:
  "rd16 b' off = rd16 b off \<Longrightarrow> length b' = length b \<Longrightarrow> off + 2 \<le> length b \<Longrightarrow>
     take 2 (drop off b') = take 2 (drop off b)"
  "rd32 b' off = rd32 b off \<Longrightarrow> length b' = length b \<Longrightarrow> off + 4 \<le> length b \<Longrightarrow>
     take 4 (drop off b') = take 4 (drop off b)"
  by (simp_all add: rd16_def rd32_def peek_def from_le_inj)

lemma split3: "buf = take 18 buf @ take 6 (drop 18 buf) @ drop 24 buf"
  using append_take_drop_id [of 18 buf] append_take_drop_id [of 6 "drop 18 buf"] by simp

lemma CheckPreamble_same_header:
  assumes b: "CheckPreamble b n = Some True" "rd16 b 2 = Some len"
    and b': "CheckPreamble b' n \<noteq> Some False" "length b' = length b" "take 18 b' = take 18 b"
  shows "take 2 (drop 18 b') = take 2 (drop 18 b)"
    "rd32 b' 20 = Some (if unat len = 24 then 0 else crc32 (take (unat len - 24) (drop 24 b')))"
proof -
  from b obtain l: "24 \<le> n" "24 \<le> length b" and "rd8 b 0 = Some kSdkProtocolSof"
    "rd8 b 1 = Some kSdkVer" and len: "24 \<le> unat len" "unat len \<le> length b"
    "rd16 b 18 = Some (ccitt (take 18 b))"
    by (auto elim!: CheckPreamble_TrueD)
  moreover have p: "rd8 b' 0 = rd8 b 0" "rd8 b' 1 = rd8 b 1" "rd16 b' 2 = rd16 b 2"
    using arg_cong [OF b'(3), of "\<lambda>x. rd8 x 0"] arg_cong [OF b'(3), of "\<lambda>x. rd8 x 1"]
      arg_cong [OF b'(3), of "\<lambda>x. rd16 x 2"] l b'(2)
    by (simp_all add: rd8_def rd16_def peek_def drop_take min_def)
  moreover have c: "rd16 b' 18 = Some (ccitt (take 18 b'))"
    using b' l by (intro CheckPreamble_not_False) simp_all
  ultimately have "CheckPreamble b' n = Some (rd32 b' 20 =
      Some (if unat len = 24 then 0 else crc32 (take (unat len - 24) (drop 24 b'))))"
    using b(2) b'(2) by (subst CheckPreamble_None_iff [where len = len]) simp_all
  with b'(1) show "rd32 b' 20 = Some (if unat len = 24 then 0 else crc32 (take (unat len - 24) (drop 24 b')))"
    by simp
  have "rd16 b' 18 = rd16 b 18" using c len(3) b'(3) by simp
  then show "take 2 (drop 18 b') = take 2 (drop 18 b)"
    using l b'(2) by (intro rd_eq_take) simp_all
qed

text \<open>
  C2. SdkProtocol::CheckPreamble rejects every accepted packet after a corruption of at most two
  consecutive bytes of its checksummed header, or of at most four consecutive bytes of its data.
\<close>
theorem corrupted_packet_rejected:
  assumes ok: "CheckPreamble (pre @ e @ post) n = Some True" "rd16 (pre @ e @ post) 2 = Some len"
    and e: "length e = length e'" "e \<noteq> e'"
    and pos: "length pre + length e \<le> 18 \<and> length e \<le> 2 \<or>
      18 \<le> length pre \<and> length pre + length e \<le> 24 \<or>
      24 \<le> length pre \<and> length pre + length e \<le> unat len \<and> length e \<le> 4"
  shows "CheckPreamble (pre @ e' @ post) n = Some False"
proof (rule ccontr)
  let ?b = "pre @ e @ post" and ?b' = "pre @ e' @ post"
  assume neg: "CheckPreamble ?b' n \<noteq> Some False"
  from ok(1) obtain len0 where "rd16 ?b 2 = Some len0"
    and b: "24 \<le> length ?b" "24 \<le> unat len0" "unat len0 \<le> length ?b"
      "rd16 ?b 18 = Some (ccitt (take 18 ?b))"
      "rd32 ?b 20 = Some (if unat len0 = 24 then 0 else crc32 (take (unat len0 - 24) (drop 24 ?b)))"
    by (rule CheckPreamble_TrueD)
  with ok(2) have len: "len0 = len" by simp
  have l: "length ?b' = length ?b" using e(1) by simp
  consider (head) "length pre + length e \<le> 18" "length e \<le> 2"
    | (sum) "18 \<le> length pre" "length pre + length e \<le> 24"
    | (load) "24 \<le> length pre" "length pre + length e \<le> unat len" "length e \<le> 4"
    using pos by blast
  then show False
  proof cases
    case head
    have "rd16 ?b' 18 = rd16 ?b 18" using head e(1) by (simp add: rd16_def peek_def)
    moreover have "take 18 ?b = pre @ e @ take (18 - length pre - length e) post"
      "take 18 ?b' = pre @ e' @ take (18 - length pre - length e) post"
      using head e(1) by simp_all
    moreover have "rd16 ?b' 18 = Some (ccitt (take 18 ?b'))"
      using b(1) l by (intro CheckPreamble_not_False [OF neg]) simp
    ultimately show False
      using b(4) ccitt_detects [OF e head(2)] by (metis option.inject)
  next
    case sum
    then have same: "take 18 ?b' = take 18 ?b" "drop 24 ?b' = drop 24 ?b" using e(1) by simp_all
    note b' = CheckPreamble_same_header [OF ok neg l same(1)]
    have "rd32 ?b' 20 = rd32 ?b 20" using b' b(5) same(2) len by simp
    then have "take 4 (drop 20 ?b') = take 4 (drop 20 ?b)"
      using b(1) l by (intro rd_eq_take) simp_all
    with b'(1) have "take 2 (drop 18 ?b') @ take 4 (drop 20 ?b') = take 2 (drop 18 ?b) @ take 4 (drop 20 ?b)"
      by simp
    then have "take 6 (drop 18 ?b') = take 6 (drop 18 ?b)"
      using take_add [of 2 4 "drop 18 ?b'"] take_add [of 2 4 "drop 18 ?b"] by (simp only: drop_drop) simp
    then have "?b' = ?b"
      using same split3 [of ?b'] split3 [of ?b] by metis
    then show False using e by simp
  next
    case load
    then have "take 18 ?b' = take 18 ?b" by simp
    note b' = CheckPreamble_same_header [OF ok neg l this]
    let ?t = "take (unat len - length pre - length e) post"
    have q: "rd32 ?b' 20 = rd32 ?b 20" using load by (simp add: rd32_def peek_def e(1))
    have n: "unat len \<noteq> 24" using load(1,2) e by (cases e) auto
    have t: "take (unat len - 24) (drop 24 ?b) = drop 24 pre @ e @ ?t"
      "take (unat len - 24) (drop 24 ?b') = drop 24 pre @ e' @ ?t"
      using load e(1) by simp_all
    have "Some (crc32 (drop 24 pre @ e' @ ?t)) = Some (crc32 (drop 24 pre @ e @ ?t))"
      using q b'(2) b(5) unfolding len t if_not_P [OF n] by simp
    then show False
      using crc32_detects [OF e load(3), of "drop 24 pre" ?t] by simp
  qed
qed


theorem corrupted_packet_rejected_witness:
  "CheckPreamble ((header_of
    (\<lparr>protocol = 0, version = 3, seq_num = 7, cmd_id = 0x100, cmd_type = 0, sender_type = 0,
     data = Some [1, 2, 3], data_len = 3\<rparr>) [0, 0, 0, 0, 0, 0] @ le16 (ccitt (header_of
    (\<lparr>protocol = 0, version = 3, seq_num = 7, cmd_id = 0x100, cmd_type = 0, sender_type = 0,
     data = Some [1, 2, 3], data_len = 3\<rparr>) [0, 0, 0, 0, 0, 0])) @
     le32 (crc32 [1, 2, 3])) @ [1, 2, 4] @ []) 27 = Some False"
proof (rule corrupted_packet_rejected [where e = "[1, 2, 3]" and len = 27])
  have f: "(header_of
    (\<lparr>protocol = 0, version = 3, seq_num = 7, cmd_id = 0x100, cmd_type = 0, sender_type = 0,
     data = Some [1, 2, 3], data_len = 3\<rparr>) [0, 0, 0, 0, 0, 0] @ le16 (ccitt (header_of
    (\<lparr>protocol = 0, version = 3, seq_num = 7, cmd_id = 0x100, cmd_type = 0, sender_type = 0,
     data = Some [1, 2, 3], data_len = 3\<rparr>) [0, 0, 0, 0, 0, 0])) @
      le32 (crc32 [1, 2, 3])) @ [1, 2, 3] @ [] = frame_of
    (\<lparr>protocol = 0, version = 3, seq_num = 7, cmd_id = 0x100, cmd_type = 0, sender_type = 0,
     data = Some [1, 2, 3], data_len = 3\<rparr>) [0, 0, 0, 0, 0, 0] [1, 2, 3] @ []"
    by (simp add: frame_of_def)
  show "CheckPreamble ((header_of
    (\<lparr>protocol = 0, version = 3, seq_num = 7, cmd_id = 0x100, cmd_type = 0, sender_type = 0,
     data = Some [1, 2, 3], data_len = 3\<rparr>) [0, 0, 0, 0, 0, 0] @ le16 (ccitt (header_of
    (\<lparr>protocol = 0, version = 3, seq_num = 7, cmd_id = 0x100, cmd_type = 0, sender_type = 0,
     data = Some [1, 2, 3], data_len = 3\<rparr>) [0, 0, 0, 0, 0, 0])) @
      le32 (crc32 [1, 2, 3])) @ [1, 2, 3] @ []) 27 = Some True"
    unfolding f by (rule Check_frame) simp_all
  show "rd16 ((header_of
    (\<lparr>protocol = 0, version = 3, seq_num = 7, cmd_id = 0x100, cmd_type = 0, sender_type = 0,
     data = Some [1, 2, 3], data_len = 3\<rparr>) [0, 0, 0, 0, 0, 0] @ le16 (ccitt (header_of
    (\<lparr>protocol = 0, version = 3, seq_num = 7, cmd_id = 0x100, cmd_type = 0, sender_type = 0,
     data = Some [1, 2, 3], data_len = 3\<rparr>) [0, 0, 0, 0, 0, 0])) @
      le32 (crc32 [1, 2, 3])) @ [1, 2, 3] @ []) 2 = Some 27"
    unfolding f by (subst frame_fields) simp_all
qed simp_all

lemma CheckPreamble_None_D:
  assumes "CheckPreamble buf n = None" "unat n \<le> length buf"
  shows "24 \<le> n" "rd8 buf 0 = Some kSdkProtocolSof" "rd8 buf 1 = Some kSdkVer"
    "rd16 buf 18 = Some (ccitt (take 18 buf))" "\<exists>len. rd16 buf 2 = Some len \<and> 24 \<le> unat len"
proof -
  show n: "24 \<le> n" using assms(1) by (auto simp: CheckPreamble_def sdk_consts split: if_splits)
  then have l: "24 \<le> length buf" using assms(2) by (simp add: word_le_nat_alt)
  show "rd16 buf 18 = Some (ccitt (take 18 buf))"
    using assms l by (intro CheckPreamble_not_False [of buf n]) simp_all
  have "rd8 buf 0 = Some (buf ! 0)" "rd8 buf 1 = Some (buf ! 1)"
    "rd16 buf 2 = Some (from_le (take 2 (drop 2 buf)))"
    using l by (auto intro!: rd8_nth rd_in_bounds)
  then show "rd8 buf 0 = Some kSdkProtocolSof" "rd8 buf 1 = Some kSdkVer"
    "\<exists>len. rd16 buf 2 = Some len \<and> 24 \<le> unat len"
    using assms(1) n
    by (simp_all add: CheckPreamble_def GetPreambleLen_def word_le_nat_alt word_less_nat_alt del: One_nat_def
        split: if_splits)
qed

text \<open>
  With a buffer of at least buf_size bytes, CheckPreamble reads beyond the buffer in exactly one
  case: a header whose checksum is right declares a length that ends beyond the buffer.
\<close>
theorem CheckPreamble_overread_iff:
  assumes "unat n \<le> length buf"
  shows "CheckPreamble buf n = None \<longleftrightarrow>
    24 \<le> n \<and> rd8 buf 0 = Some kSdkProtocolSof \<and> rd8 buf 1 = Some kSdkVer \<and>
    rd16 buf 18 = Some (ccitt (take 18 buf)) \<and> (\<exists>len. rd16 buf 2 = Some len \<and> length buf < unat len)"
    (is "?L \<longleftrightarrow> ?R")
proof
  assume ?L
  note D = CheckPreamble_None_D [OF this assms]
  from D(5) obtain len where "rd16 buf 2 = Some len" "24 \<le> unat len" by blast
  moreover have "24 \<le> length buf" using D(1) assms by (simp add: word_le_nat_alt)
  ultimately have "length buf < unat len"
    using CheckPreamble_None_iff [OF D(1) _ D(2,3) _ _ D(4)] \<open>?L\<close> by (auto split: if_splits)
  with D \<open>rd16 buf 2 = Some len\<close> show ?R by blast
next
  assume R: ?R
  then have "24 \<le> length buf" using assms by (simp add: word_le_nat_alt)
  with R show ?L by (auto simp: CheckPreamble_None_iff)
qed

theorem CheckPreamble_overread_iff_witness:
  "CheckPreamble (replicate 24 0) 24 = None \<longleftrightarrow>
    (24 :: u32) \<le> 24 \<and> rd8 (replicate 24 0) 0 = Some kSdkProtocolSof \<and>
    rd8 (replicate 24 0) 1 = Some kSdkVer \<and>
    rd16 (replicate 24 0) 18 = Some (ccitt (take 18 (replicate 24 0))) \<and>
    (\<exists>len. rd16 (replicate 24 0) 2 = Some len \<and> length (replicate 24 (0 :: u8)) < unat len)"
  by (rule CheckPreamble_overread_iff) simp

lemma unat_wire_length: "unat (ucast (ucast (n :: u16) + 24 :: u32) :: u16) = (unat n + 24) mod 65536"
proof -
  have "unat (ucast n + 24 :: u32) = unat n + 24"
    using unat_u16 [of n] by (simp add: unat_word_ariths)
  then show ?thesis by (simp add: unsigned_ucast_eq take_bit_eq_mod)
qed

text \<open>
  C10. Packing a packet of the SDK protocol, whose data has data_len bytes, into a buffer of
  o_buf_size bytes writes beyond the buffer in exactly two cases: the buffer has fewer than four
  bytes, which are written before the size is looked at; or data_len is at least 65512, so that
  the 16-bit length field wraps to a value that passes the size check though the packet does not
  fit.
\<close>
theorem Pack_overflow_iff:
  assumes "protocol p = protocol_code kLidarSdk" "data p = Some d" "unat (data_len p) \<le> length d"
    and "unat o_buf_size = length o_buf"
  shows "Pack o_buf o_buf_size p = None \<longleftrightarrow> length o_buf < 4 \<or>
    65512 \<le> unat (data_len p) \<and> unat (data_len p) - 65512 \<le> length o_buf \<and>
    length o_buf < unat (data_len p) + 24"
proof -
  let ?l = "ucast (ucast (data_len p) + 24 :: u32) :: u16"
  have "o_buf_size < ucast ?l \<longleftrightarrow> length o_buf < (unat (data_len p) + 24) mod 65536"
    by (simp add: word_less_nat_alt unat_wire_length assms(4))
  also have "\<dots> \<longleftrightarrow> (if unat (data_len p) < 65512 then length o_buf < unat (data_len p) + 24
      else length o_buf < unat (data_len p) - 65512)"
    using unat_u16 [of "data_len p"] by (auto simp: mod_if)
  finally have size: "o_buf_size < ucast ?l \<longleftrightarrow> (if unat (data_len p) < 65512 then length o_buf < unat (data_len p) + 24
      else length o_buf < unat (data_len p) - 65512)" .
  consider "length o_buf < 4" | "4 \<le> length o_buf" "length o_buf < 24" | "24 \<le> length o_buf" by linarith
  then show ?thesis
  proof cases
    case 1
    then show ?thesis using assms(1) by (auto simp: Pack_def poke_def Let_def split: Option.bind_split)
  next
    case 2
    then obtain k where k: "length o_buf = 4 + k" by (metis le_Suc_ex)
    have "Pack o_buf o_buf_size p = None \<longleftrightarrow> \<not> o_buf_size < ucast ?l"
      using assms(1-3) 2 k by (auto simp: Pack_def poke_def peek_def deref_def Let_def sdk_consts split: Option.bind_split if_splits)
    then show ?thesis using 2 size by auto
  next
    case 3
    then obtain k where k: "length o_buf = 24 + k" by (metis le_Suc_ex)
    have "Pack o_buf o_buf_size p = None \<longleftrightarrow> \<not> o_buf_size < ucast ?l \<and> k < unat (data_len p)"
      using assms(1-3) k
      by (simp add: Pack_def poke_def peek_def deref_def Let_def sdk_consts take_Cons' drop_Cons')
    then show ?thesis using k size by auto
  qed
qed

theorem Pack_overflow_iff_witness:
  "Pack (replicate 1400 0) 1400 
    (\<lparr>protocol = 0, version = 3, seq_num = 7, cmd_id = 0x100, cmd_type = 0, sender_type = 0,
     data = Some (replicate 65515 0), data_len = 65515\<rparr>) = None \<longleftrightarrow>
    length (replicate 1400 (0 :: u8)) < 4 \<or> 65512 \<le> unat (65515 :: u16) \<and> unat (65515 :: u16) - 65512 \<le> length (replicate 1400 (0 :: u8)) \<and>
    length (replicate 1400 (0 :: u8)) < unat (65515 :: u16) + 24"
  by (subst Pack_overflow_iff [where d = "replicate 65515 0"]) simp_all

lemma GetSeq_iterate:
  assumes "1 \<le> unat s" "unat s \<le> 65535"
  shows "unat ((GetSeq ^^ n) s) = (unat s - 1 + n) mod 65535 + 1"
proof (induction n)
  case 0
  then show ?case using assms by auto
next
  case (Suc n)
  let ?v = "(GetSeq ^^ n) s"
  have lt: "unat ?v < 65536" using Suc.IH by simp
  have "unat (GetSeq ?v) = unat ?v mod 65535 + 1"
  proof (cases "?v = 65535")
    case True
    then show ?thesis by (simp add: GetSeq_def)
  next
    case False
    then have "unat ?v \<noteq> 65535" by (simp add: word_unat_eq_iff)
    then show ?thesis using lt False by (simp add: GetSeq_def unat_word_ariths)
  qed
  then show ?case using Suc.IH by (simp add: mod_Suc_eq)
qed

text \<open>
  C11. Any 65535 consecutive sequence numbers of GenerateSeq::GetSeq are pairwise distinct and
  none is the number 0, so no two of that many commands share an entry of the pending table.
\<close>
theorem GetSeq_window_distinct:
  assumes "i < j" "j < i + 65535"
  shows "(GetSeq ^^ i) 1 \<noteq> (GetSeq ^^ j) 1 \<and> (GetSeq ^^ i) 1 \<noteq> 0 \<and>
    (GetSeq ^^ i) 1 AND 0xFFFF = (GetSeq ^^ i) 1"
proof -
  have u: "unat ((GetSeq ^^ k) 1) = k mod 65535 + 1" for k
    using GetSeq_iterate [of 1 k] by simp
  have "i mod 65535 \<noteq> j mod 65535"
  proof
    assume "i mod 65535 = j mod 65535"
    then have "65535 dvd j - i" using assms(1) by (metis less_imp_le mod_eq_dvd_iff_nat)
    then show False using assms dvd_imp_le [of 65535 "j - i"] by simp
  qed
  then have "(GetSeq ^^ i) 1 \<noteq> (GetSeq ^^ j) 1" using u [of i] u [of j] by auto
  moreover have "(GetSeq ^^ i) 1 \<noteq> 0" using u [of i] by auto
  moreover have "unat ((GetSeq ^^ i) 1) < 65536" using u [of i] by simp
  then have "(GetSeq ^^ i) 1 AND mask 16 = (GetSeq ^^ i) 1"
    by (simp add: take_bit_eq_mask [symmetric] word_unat_eq_iff unsigned_take_bit_eq take_bit_nat_eq_self)
  then have "(GetSeq ^^ i) 1 AND 0xFFFF = (GetSeq ^^ i) 1" by (simp add: mask_eq_exp_minus_1)
  ultimately show ?thesis by blast
qed

theorem GetSeq_window_distinct_witness:
  "(GetSeq ^^ 0) 1 \<noteq> (GetSeq ^^ 65534) 1 \<and> (GetSeq ^^ 0) 1 \<noteq> (0 :: u32) \<and>
    (GetSeq ^^ 0) 1 AND 0xFFFF = (GetSeq ^^ 0) (1 :: u32)"
  by (rule GetSeq_window_distinct) simp_all

end
