(* ===== verification/Build_Request.thy ===== *)
theory Build_Request
  imports Livox_Defs
begin

text \<open>
  The request builders of \<open>BuildRequest\<close> (command_handler/build_request.cpp): a request is a
  16-bit number of keys, two reserved bytes and one \<open>LivoxLidarKeyValueParam\<close> (key, length, value)
  per key, written through packed structs into a buffer of the caller.

  A builder returns whether it succeeded, the buffer and the request length (at most 40, so a
  natural number here). It is \<open>None\<close> where it would leave the buffer and where an exception of
  \<open>std::stoi\<close> leaves it uncaught.
\<close>

section \<open>std::stoi and std::string::find\<close>

datatype stoi_error = InvalidArgument | OutOfRange

definition isspace :: "char \<Rightarrow> bool" where
  "isspace c = (of_char c = (32 :: nat) \<or> 9 \<le> (of_char c :: nat) \<and> of_char c \<le> (13 :: nat))"

definition isdigit :: "char \<Rightarrow> bool" where
  "isdigit c = (48 \<le> (of_char c :: nat) \<and> of_char c \<le> (57 :: nat))"

definition dec_value :: "string \<Rightarrow> int" where
  "dec_value s = foldl (\<lambda>v c. 10 * v + (of_char c - 48)) 0 s"

definition stoi :: "string \<Rightarrow> stoi_error + int" where
  "stoi s =
     (let s = dropWhile isspace s;
          neg = (s \<noteq> [] \<and> hd s = CHR ''-'');
          s = (if s \<noteq> [] \<and> (hd s = CHR ''-'' \<or> hd s = CHR ''+'') then tl s else s);
          ds = takeWhile isdigit s;
          v = (if neg then - dec_value ds else dec_value ds)
      in if ds = [] then Inl InvalidArgument
         else if v < - (2 ^ 31) \<or> 2 ^ 31 \<le> v then Inl OutOfRange
         else Inr v)"

fun find_str :: "string \<Rightarrow> string \<Rightarrow> nat option" where
  "find_str seq s = (if take (length seq) s = seq then Some 0 else
     (case s of [] \<Rightarrow> None | c # t \<Rightarrow> map_option Suc (find_str seq t)))"

declare find_str.simps [simp del]

section \<open>BuildRequest::IpToU8\<close>

text \<open>
  One number of the address: the check accepts 256, which the vector of bytes stores as 0.
  \<open>ip_loop\<close> is the \<open>while\<close> loop on the text from \<open>pos1\<close> on; it ends because a number that
  \<open>stoi\<close> accepts is not empty.
\<close>

definition ip_val :: "string \<Rightarrow> stoi_error + u8 option" where
  "ip_val s = (case stoi s of Inl e \<Rightarrow> Inl e
     | Inr val \<Rightarrow> Inr (if val < 0 \<or> 256 < val then None else Some (of_int val)))"

lemma ip_val_Nil [simp]: "ip_val [] = Inl InvalidArgument"
  by (simp add: ip_val_def stoi_def)

function ip_loop :: "string \<Rightarrow> string \<Rightarrow> u8 list \<Rightarrow> stoi_error + (u8 list \<times> string) option" where
  "ip_loop seq rest result =
     (case find_str seq rest of
        None \<Rightarrow> Inr (Some (result, rest))
      | Some n \<Rightarrow>
          (case ip_val (take n rest) of
             Inl e \<Rightarrow> Inl e
           | Inr None \<Rightarrow> Inr None
           | Inr (Some b) \<Rightarrow> ip_loop seq (drop (n + length seq) rest) (result @ [b])))"
  by pat_completeness auto
termination
proof (relation "measure (\<lambda>(seq, rest, result). length rest)", simp, clarsimp)
  fix seq rest n x assume "ip_val (take n rest) = Inr (Some x)"
  then have "take n rest \<noteq> []" by (metis ip_val_Nil sum.distinct(1))
  then show "length rest - (n + length seq) < length rest" by auto
qed

declare ip_loop.simps [simp del]

definition IpToU8 :: "string \<Rightarrow> string \<Rightarrow> stoi_error + u8 list option" where
  "IpToU8 src seq =
     (case ip_loop seq src [] of
        Inl e \<Rightarrow> Inl e
      | Inr None \<Rightarrow> Inr None
      | Inr (Some (result, rest)) \<Rightarrow>
          (if rest \<noteq> []
           then (case ip_val rest of
                   Inl e \<Rightarrow> Inl e
                 | Inr None \<Rightarrow> Inr None
                 | Inr (Some b) \<Rightarrow> Inr (if length (result @ [b]) \<noteq> 4 then None else Some (result @ [b])))
           else Inr (if length result \<noteq> 4 then None else Some result)))"

section \<open>Filling in addresses\<close>

definition InitHostIpAddr :: "string \<Rightarrow> u8 list \<Rightarrow> nat \<Rightarrow> (bool \<times> u8 list) option" where
  "InitHostIpAddr ip buf off =
     (case IpToU8 ip ''.'' of
        Inl e \<Rightarrow> None
      | Inr None \<Rightarrow> Some (False, buf)
      | Inr (Some v) \<Rightarrow> do { b \<leftarrow> poke buf off (take 4 v); Some (True, b) })"

definition InitMulticastHostIpAddr :: "string \<Rightarrow> u8 list \<Rightarrow> nat \<Rightarrow> (bool \<times> u8 list) option" where
  "InitMulticastHostIpAddr ip buf off =
     (case IpToU8 ip ''.'' of
        Inl e \<Rightarrow> None
      | Inr None \<Rightarrow> Some (False, buf)
      | Inr (Some v) \<Rightarrow> do { b \<leftarrow> poke buf off (take 4 v); Some (True, b) })"

definition InitLidarIpinfoVal :: "LivoxLidarIpInfo \<Rightarrow> u8 list \<Rightarrow> nat \<Rightarrow> (bool \<times> u8 list) option" where
  "InitLidarIpinfoVal cfg buf off =
     (case IpToU8 (ip_addr cfg) ''.'' of Inl e \<Rightarrow> None | Inr None \<Rightarrow> Some (False, buf)
      | Inr (Some ip) \<Rightarrow> do {
          b \<leftarrow> poke buf off (take 4 ip);
          case IpToU8 (net_mask cfg) ''.'' of Inl e \<Rightarrow> None | Inr None \<Rightarrow> Some (False, b)
          | Inr (Some nm) \<Rightarrow> do {
              b \<leftarrow> poke b (off + 4) (take 4 nm);
              case IpToU8 (gw_addr cfg) ''.'' of Inl e \<Rightarrow> None | Inr None \<Rightarrow> Some (False, b)
              | Inr (Some gw) \<Rightarrow> do { b \<leftarrow> poke b (off + 8) (take 4 gw); Some (True, b) } } })"

section \<open>The builders\<close>

type_synonym build = "(bool \<times> u8 list \<times> nat) option"

text \<open>
  The pieces every builder repeats: the key count at \<open>req_len\<close>, the key and length of an entry,
  and an entry that holds a \<open>HostIpInfoValue\<close>, whose address is filled in by \<open>init\<close>.
\<close>

definition begin_request :: "u8 list \<Rightarrow> nat \<Rightarrow> u16 \<Rightarrow> (u8 list \<times> nat) option" where
  "begin_request buf req_len key_num = do { b \<leftarrow> poke buf req_len (le16 key_num); Some (b, 4) }"

definition kv_head :: "u8 list \<Rightarrow> nat \<Rightarrow> ParamKeyName \<Rightarrow> u16 \<Rightarrow> u8 list option" where
  "kv_head buf off key len = do { b \<leftarrow> poke buf off (le16 (key_code key)); poke b (off + 2) (le16 len) }"

definition host_kv :: "u8 list \<Rightarrow> nat \<Rightarrow> ParamKeyName \<Rightarrow>
    (u8 list \<Rightarrow> nat \<Rightarrow> (bool \<times> u8 list) option) \<Rightarrow> u16 \<Rightarrow> u16 option \<Rightarrow> build" where
  "host_kv buf req_len key init host_port lidar_port = do {
     b \<leftarrow> kv_head buf req_len key 8;
     (ok, b) \<leftarrow> init b (req_len + 4);
     if \<not> ok then Some (False, b, req_len)
     else (case lidar_port of
       None \<Rightarrow> Some (False, b, req_len)
     | Some lp \<Rightarrow> do {
         b \<leftarrow> poke b (req_len + 8) (le16 host_port);
         b \<leftarrow> poke b (req_len + 10) (le16 lp);
         Some (True, b, req_len + (5 - 1 + 8)) })
   }"

text \<open>The multicast address is used when it is set.\<close>

definition host_or_multicast :: "HostNetInfo \<Rightarrow> u8 list \<Rightarrow> nat \<Rightarrow> (bool \<times> u8 list) option" where
  "host_or_multicast h = (if multicast_ip h = [] then InitHostIpAddr (host_ip h)
     else InitMulticastHostIpAddr (multicast_ip h))"

definition BuildUpdateViewLidarCfgRequest :: "ViewLidarIpInfo \<Rightarrow> u8 list \<Rightarrow> nat \<Rightarrow> build" where
  "BuildUpdateViewLidarCfgRequest info req_buf req_len = do {
     let pa = (view_dev_type info = dev_type_code kLivoxLidarTypePA);
     (b, n) \<leftarrow> begin_request req_buf 0 (if pa then 1 else 2);
     (ok, b, n) \<leftarrow> host_kv b n kKeyLidarPointDataHostIpCfg (InitHostIpAddr (view_host_ip info))
       (view_host_point_port info) (Some (view_lidar_point_port info));
     if \<not> ok \<or> pa then Some (ok, b, n)
     else host_kv b n kKeyLidarImuHostIpCfg (InitHostIpAddr (view_host_ip info))
       (view_host_imu_data_port info) (Some (view_lidar_imu_data_port info))
   }"

definition BuildUpdateMid360LidarCfgRequest :: "LivoxLidarCfg \<Rightarrow> u8 list \<Rightarrow> nat \<Rightarrow> build" where
  "BuildUpdateMid360LidarCfgRequest cfg req_buf req_len = do {
     let h = host_net_info cfg;
     (b, n) \<leftarrow> begin_request req_buf req_len 3;
     (ok, b, n) \<leftarrow> host_kv b n kKeyStateInfoHostIpCfg
       (\<lambda>b off. do {
          (ok, b) \<leftarrow> InitHostIpAddr (host_ip h) b off;
          if \<not> ok then Some (False, b) else host_or_multicast h b off })
       (push_msg_port h) (Some kMid360LidarPushMsgPort);
     if \<not> ok then Some (False, b, n) else do {
     (ok, b, n) \<leftarrow> host_kv b n kKeyLidarPointDataHostIpCfg (host_or_multicast h)
       (point_data_port h) (Some kMid360LidarPointCloudPort);
     if \<not> ok then Some (False, b, n) else
     host_kv b n kKeyLidarImuHostIpCfg (host_or_multicast h)
       (imu_data_port h) (Some kMid360LidarImuDataPort) }
   }"

text \<open>The lidar ports by device type; the builder fails for an unknown type after the address.\<close>

definition lidar_point_port_of :: "u8 \<Rightarrow> u16 option" where
  "lidar_point_port_of t =
     (if t = dev_type_code kLivoxLidarTypeIndustrialHAP then Some kHAPPointDataPort
      else if t = dev_type_code kLivoxLidarTypeMid360 then Some kMid360LidarPointCloudPort
      else if t = dev_type_code kLivoxLidarTypePA then Some kPaLidarPointCloudPort else None)"

definition lidar_imu_port_of :: "u8 \<Rightarrow> u16 option" where
  "lidar_imu_port_of t =
     (if t = dev_type_code kLivoxLidarTypeIndustrialHAP then Some kHAPIMUPort
      else if t = dev_type_code kLivoxLidarTypeMid360 then Some kMid360LidarImuDataPort else None)"

definition BuildUpdateLidarCfgRequest :: "LivoxLidarCfg \<Rightarrow> u8 list \<Rightarrow> nat \<Rightarrow> build" where
  "BuildUpdateLidarCfgRequest cfg req_buf req_len = do {
     let h = host_net_info cfg;
     let pa = (device_type cfg = dev_type_code kLivoxLidarTypePA);
     (b, n) \<leftarrow> begin_request req_buf req_len (if pa then 1 else 2);
     (ok, b, n) \<leftarrow> host_kv b n kKeyLidarPointDataHostIpCfg (host_or_multicast h)
       (point_data_port h) (lidar_point_port_of (device_type cfg));
     if \<not> ok \<or> pa then Some (ok, b, n)
     else host_kv b n kKeyLidarImuHostIpCfg (host_or_multicast h)
       (imu_data_port h) (lidar_imu_port_of (device_type cfg))
   }"

definition BuildSetLidarIPInfoRequest :: "LivoxLidarIpInfo \<Rightarrow> u8 list \<Rightarrow> nat \<Rightarrow> build" where
  "BuildSetLidarIPInfoRequest cfg req_buf req_len = do {
     (b, n) \<leftarrow> begin_request req_buf req_len 1;
     b \<leftarrow> kv_head b n kKeyLidarIpCfg 12;
     (ok, b) \<leftarrow> InitLidarIpinfoVal cfg b (n + 4);
     Some (ok, b, if ok then n + (5 - 1 + 12) else n)
   }"

definition BuildSetHostStateInfoIPCfgRequest :: "HostStateInfoIpInfo \<Rightarrow> u8 list \<Rightarrow> nat \<Rightarrow> build" where
  "BuildSetHostStateInfoIPCfgRequest cfg req_buf req_len = do {
     (b, n) \<leftarrow> begin_request req_buf req_len 1;
     host_kv b n kKeyStateInfoHostIpCfg (InitHostIpAddr (host_state_ip_addr cfg))
       (host_state_info_port cfg) (Some (lidar_state_info_port cfg))
   }"

definition BuildSetHostPointDataIPInfoRequest :: "HostPointIPInfo \<Rightarrow> u8 list \<Rightarrow> nat \<Rightarrow> build" where
  "BuildSetHostPointDataIPInfoRequest cfg req_buf req_len = do {
     (b, n) \<leftarrow> begin_request req_buf req_len 1;
     host_kv b n kKeyLidarPointDataHostIpCfg (InitHostIpAddr (host_point_ip_addr cfg))
       (host_point_data_port cfg) (Some (lidar_point_data_port cfg))
   }"

definition BuildSetHostImuDataIPInfoRequest :: "HostImuDataIPInfo \<Rightarrow> u8 list \<Rightarrow> nat \<Rightarrow> build" where
  "BuildSetHostImuDataIPInfoRequest cfg req_buf req_len = do {
     (b, n) \<leftarrow> begin_request req_buf req_len 1;
     host_kv b n kKeyLidarImuHostIpCfg (InitHostIpAddr (host_imu_ip_addr cfg))
       (host_imu_data_port cfg) (Some (lidar_imu_data_port cfg))
   }"


section \<open>The layout of a request\<close>

definition kv_bytes :: "ParamKeyName \<Rightarrow> u8 list \<Rightarrow> u8 list" where
  "kv_bytes k v = le16 (key_code k) @ le16 (of_nat (length v)) @ v"

definition request_with :: "u16 \<Rightarrow> (ParamKeyName \<times> u8 list) list \<Rightarrow> u8 list" where
  "request_with n kvs = le16 n @ [0, 0] @ concat (map (\<lambda>(k, v). kv_bytes k v) kvs)"

definition request_bytes :: "(ParamKeyName \<times> u8 list) list \<Rightarrow> u8 list" where
  "request_bytes kvs = request_with (of_nat (length kvs)) kvs"

definition host_value :: "u8 list \<Rightarrow> u16 \<Rightarrow> u16 \<Rightarrow> u8 list" where
  "host_value ip hp lp = ip @ le16 hp @ le16 lp"

lemma length_kv_bytes [simp]: "length (kv_bytes k v) = 4 + length v"
  by (simp add: kv_bytes_def)

lemma length_host_value [simp]: "length (host_value ip hp lp) = length ip + 4"
  by (simp add: host_value_def)

text \<open>\<open>init\<close> writes the address \<open>ip\<close>.\<close>

definition sets_ip :: "(u8 list \<Rightarrow> nat \<Rightarrow> (bool \<times> u8 list) option) \<Rightarrow> u8 list \<Rightarrow> bool" where
  "sets_ip init ip \<longleftrightarrow> length ip = 4 \<and>
     (\<forall>pre suf. 4 \<le> length suf \<longrightarrow> init (pre @ suf) (length pre) = Some (True, pre @ ip @ drop 4 suf))"

lemma begin_request_zero:
  "4 \<le> n \<Longrightarrow> begin_request (replicate n 0) 0 k = Some (request_with k [] @ replicate (n - 4) 0, 4)"
proof -
  assume "4 \<le> n"
  then obtain m where "n = 4 + m" using le_Suc_ex by blast
  then show ?thesis
    by (simp add: begin_request_def poke_def numeral_eq_Suc request_with_def)
qed

lemma host_kv_Some:
  assumes "sets_ip init ip" "length pre = n" "12 \<le> length suf"
  shows "host_kv (pre @ suf) n k init hp (Some lp) =
    Some (True, (pre @ kv_bytes k (host_value ip hp lp)) @ drop 12 suf, n + 12)"
proof -
  have "kv_head (pre @ suf) n k 8 = Some ((pre @ le16 (key_code k) @ le16 8) @ drop 4 suf)"
    using assms(2,3) by (simp add: kv_head_def poke_def)
  moreover have "init ((pre @ le16 (key_code k) @ le16 8) @ drop 4 suf) (n + 4) =
      Some (True, (pre @ le16 (key_code k) @ le16 8) @ ip @ drop 8 suf)"
    using assms(1) [unfolded sets_ip_def, THEN conjunct2, rule_format,
      of "drop 4 suf" "pre @ le16 (key_code k) @ le16 8"] assms(2,3) by simp
  ultimately show ?thesis
    using assms by (simp add: host_kv_def poke_def kv_bytes_def host_value_def sets_ip_def) arith
qed


lemma length_request_with [simp]:
  "length (request_with n kvs) = 4 + (\<Sum>(k, v) \<leftarrow> kvs. 4 + length v)"
  by (induction kvs) (auto simp: request_with_def)

lemma host_kv_request:
  assumes "sets_ip init ip" "n = length (request_with c kvs)" "12 \<le> length suf"
  shows "host_kv (request_with c kvs @ suf) n k init hp (Some lp) =
    Some (True, request_with c (kvs @ [(k, host_value ip hp lp)]) @ drop 12 suf, n + 12)"
  using host_kv_Some [OF assms(1) assms(2) [symmetric] assms(3)] by (simp add: request_with_def)

lemma sets_ip_host:
  assumes "IpToU8 s ''.'' = Inr (Some ip)"
  shows "sets_ip (InitHostIpAddr s) ip" "sets_ip (InitMulticastHostIpAddr s) ip"
proof -
  have "length ip = 4"
    using assms by (auto simp: IpToU8_def split: sum.splits option.splits prod.splits if_splits)
  then show "sets_ip (InitHostIpAddr s) ip" "sets_ip (InitMulticastHostIpAddr s) ip"
    using assms by (simp_all add: sets_ip_def InitHostIpAddr_def InitMulticastHostIpAddr_def poke_def)
qed

definition dest_ip :: "HostNetInfo \<Rightarrow> string" where
  "dest_ip h = (if multicast_ip h = [] then host_ip h else multicast_ip h)"

lemma sets_ip_dest:
  "IpToU8 (dest_ip h) ''.'' = Inr (Some ip) \<Longrightarrow> sets_ip (host_or_multicast h) ip"
  by (auto simp: dest_ip_def host_or_multicast_def sets_ip_host split: if_splits)

lemma sets_ip_twice:
  assumes "sets_ip f ip" "sets_ip g ip'"
  shows "sets_ip (\<lambda>b off. do { (ok, b) \<leftarrow> f b off; if \<not> ok then Some (False, b) else g b off }) ip'"
  using assms by (simp add: sets_ip_def)

section \<open>Addresses in dotted decimal\<close>

fun dec :: "nat \<Rightarrow> string" where
  "dec n = (if n < 10 then [char_of (48 + n)] else dec (n div 10) @ [char_of (48 + n mod 10)])"

declare dec.simps [simp del]

fun dots :: "nat list \<Rightarrow> string" where
  "dots [] = []"
| "dots [n] = dec n"
| "dots (n # m # ns) = dec n @ ''.'' @ dots (m # ns)"

declare dots.simps [simp del]

lemma of_char_digit:
  assumes "d < 10"
  shows "of_char (char_of (48 + d :: nat)) = (48 + d)" "of_char (char_of (48 + d :: nat)) = (48 + int d)"
proof -
  show n: "of_char (char_of (48 + d :: nat)) = (48 + d)" using assms by simp
  have "(of_char c :: int) = int (of_char c)" for c by (simp only: of_nat_of_char)
  then show "of_char (char_of (48 + d :: nat)) = (48 + int d)" using n by simp
qed

lemma dec_digits: "\<forall>c \<in> set (dec n). isdigit c"
proof (induction n rule: dec.induct)
  case (1 n)
  have "isdigit (char_of (48 + n mod 10))" using of_char_digit [of "n mod 10"] by (simp add: isdigit_def)
  moreover have "n < 10 \<Longrightarrow> isdigit (char_of (48 + n))" using of_char_digit [of n] by (simp add: isdigit_def)
  ultimately show ?case using 1 by (subst dec.simps) auto
qed

lemma dec_value_dec: "dec_value (dec n) = int n"
proof (induction n rule: dec.induct)
  case (1 n)
  have "dec_value (xs @ [char_of (48 + m mod 10)]) = 10 * dec_value xs + int (m mod 10)" for xs and m :: nat
    using of_char_digit [of "m mod 10"] by (simp add: dec_value_def)
  moreover have "10 * int (n div 10) + int (n mod 10) = int n" by (simp add: zdiv_int zmod_int)
  ultimately show ?case
    using 1 of_char_digit [of n] by (subst dec.simps) (auto simp: dec_value_def)
qed

lemma dec_not_Nil [simp]: "dec n \<noteq> []"
  by (subst dec.simps) simp

lemma digit_chars: "isdigit c \<Longrightarrow> \<not> isspace c \<and> c \<noteq> CHR ''-'' \<and> c \<noteq> CHR ''+'' \<and> c \<noteq> CHR ''.''"
  by (auto simp: isdigit_def isspace_def)

lemma stoi_dec: "n < 2 ^ 31 \<Longrightarrow> stoi (dec n) = Inr (int n)"
proof -
  assume n: "n < 2 ^ 31"
  obtain c cs where d: "dec n = c # cs" by (cases "dec n") simp_all
  then have c: "isdigit c" using dec_digits [of n] by simp
  have "takeWhile isdigit (c # cs) = c # cs" using dec_digits [of n] d by (simp add: takeWhile_eq_all_conv)
  then show ?thesis
    using n digit_chars [OF c] dec_value_dec [of n] by (simp add: stoi_def d)
qed

lemma ip_val_dec: "n < 2 ^ 31 \<Longrightarrow> ip_val (dec n) = Inr (if n \<le> 256 then Some (of_nat n) else None)"
  by (simp add: ip_val_def stoi_dec)

lemma find_dot:
  "\<forall>c \<in> set s. c \<noteq> CHR ''.'' \<Longrightarrow> find_str ''.'' s = None"
  "\<forall>c \<in> set s. c \<noteq> CHR ''.'' \<Longrightarrow> find_str ''.'' (s @ CHR ''.'' # t) = Some (length s)"
  by (induction s) (simp_all add: find_str.simps)

lemma dec_no_dot: "\<forall>c \<in> set (dec n). c \<noteq> CHR ''.''"
  using dec_digits [of n] digit_chars by blast

lemma ip_loop_dots:
  "ns \<noteq> [] \<Longrightarrow> \<forall>n \<in> set ns. n < 2 ^ 31 \<Longrightarrow> ip_loop ''.'' (dots ns) acc =
     Inr (if \<forall>n \<in> set (butlast ns). n \<le> 256
       then Some (acc @ map of_nat (butlast ns), dec (last ns)) else None)"
proof (induction ns arbitrary: acc rule: dots.induct)
  case (2 n)
  then show ?case by (simp add: dots.simps ip_loop.simps find_dot(1) [OF dec_no_dot])
next
  case (3 n m ns)
  then show ?case
    by (simp add: dots.simps ip_loop.simps [of _ "dec n @ _"] find_dot(2) [OF dec_no_dot] ip_val_dec)
qed simp

lemma IpToU8_dots_eq:
  assumes "ns \<noteq> []" "\<forall>n \<in> set ns. n < 2 ^ 31"
  shows "IpToU8 (dots ns) ''.'' =
    Inr (if length ns = 4 \<and> (\<forall>n \<in> set ns. n \<le> 256) then Some (map of_nat ns) else None)"
proof -
  have "ns = butlast ns @ [last ns]" using assms(1) by simp
  then obtain xs y where ns: "ns = xs @ [y]" by blast
  then show ?thesis
    using assms by (auto simp: IpToU8_def ip_loop_dots ip_val_dec)
qed

section \<open>Properties of the requests\<close>

text \<open>
  BuildUpdateLidarCfgRequest on a zeroed buffer writes, for each supported device type, exactly
  the request whose keys are the point data destination and, except for a PA, the IMU destination:
  the address to use (the multicast address when set), the configured host port and the port of
  the device type; the length it returns is the length of that request.
\<close>
theorem update_lidar_cfg_request:
  assumes ip: "IpToU8 (dest_ip (host_net_info cfg)) ''.'' = Inr (Some ip)" and n: "28 \<le> n"
    and t: "device_type cfg = dev_type_code t"
      "t \<in> {kLivoxLidarTypeIndustrialHAP, kLivoxLidarTypeMid360, kLivoxLidarTypePA}"
  shows "\<exists>kvs rest. BuildUpdateLidarCfgRequest cfg (replicate n 0) 0 =
      Some (True, request_bytes kvs @ rest, length (request_bytes kvs)) \<and>
    kvs = (kKeyLidarPointDataHostIpCfg, host_value ip (point_data_port (host_net_info cfg))
        (the (lidar_point_port_of (device_type cfg)))) #
      (if t = kLivoxLidarTypePA then [] else [(kKeyLidarImuHostIpCfg,
        host_value ip (imu_data_port (host_net_info cfg)) (the (lidar_imu_port_of (device_type cfg))))])"
proof -
  note s = sets_ip_dest [OF ip]
  have l: "length ip = 4" using s by (simp add: sets_ip_def)
  show ?thesis
    using t n
    by (auto simp: BuildUpdateLidarCfgRequest_def begin_request_zero host_kv_request [OF s] Let_def
        lidar_point_port_of_def lidar_imu_port_of_def request_bytes_def l)
qed


theorem update_lidar_cfg_request_witness:
  "\<exists>rest. BuildUpdateLidarCfgRequest (\<lparr>device_type = 10, lidar_net_info = \<lparr>lidar_ipaddr = [], lidar_subnet_mask = [], lidar_gateway = [],
       lidar_cmd_data_port = 0, lidar_push_msg_port = 0, lidar_point_port_cfg = 0, lidar_imu_port_cfg = 0,
       lidar_log_port_cfg = 0\<rparr>,
     host_net_info = \<lparr>host_ip = dots [192, 168, 1, 5], multicast_ip = [], cmd_data_port = 56101,
       push_msg_port = 56201, point_data_port = 56301, imu_data_port = 56401, log_data_port = 56501\<rparr>\<rparr>) (replicate 1400 0) 0 = Some (True, request_bytes
     [(kKeyLidarPointDataHostIpCfg, host_value [192, 168, 1, 5] 56301 57000),
      (kKeyLidarImuHostIpCfg, host_value [192, 168, 1, 5] 56401 58000)] @ rest, 28)"
  using update_lidar_cfg_request [of "\<lparr>device_type = 10, lidar_net_info = \<lparr>lidar_ipaddr = [], lidar_subnet_mask = [], lidar_gateway = [],
       lidar_cmd_data_port = 0, lidar_push_msg_port = 0, lidar_point_port_cfg = 0, lidar_imu_port_cfg = 0,
       lidar_log_port_cfg = 0\<rparr>,
     host_net_info = \<lparr>host_ip = dots [192, 168, 1, 5], multicast_ip = [], cmd_data_port = 56101,
       push_msg_port = 56201, point_data_port = 56301, imu_data_port = 56401, log_data_port = 56501\<rparr>\<rparr>" "[192, 168, 1, 5]" 1400 kLivoxLidarTypeIndustrialHAP]
  by (auto simp: IpToU8_dots_eq dest_ip_def lidar_point_port_of_def lidar_imu_port_of_def port_defs
      request_bytes_def)

text \<open>
  BuildUpdateMid360LidarCfgRequest writes exactly the three-key request (state info, point data
  and IMU destinations): the address to use (the multicast address when set, though the host
  address must parse too), the configured host ports and the Mid360 ports; the length it returns
  is the length of that request.
\<close>
theorem update_mid360_request:
  assumes ip: "IpToU8 (dest_ip (host_net_info cfg)) ''.'' = Inr (Some ip)"
      "IpToU8 (host_ip (host_net_info cfg)) ''.'' = Inr (Some ip0)" and n: "40 \<le> n"
  shows "\<exists>rest. BuildUpdateMid360LidarCfgRequest cfg (replicate n 0) 0 =
      Some (True, request_bytes
        [(kKeyStateInfoHostIpCfg, host_value ip (push_msg_port (host_net_info cfg)) kMid360LidarPushMsgPort),
         (kKeyLidarPointDataHostIpCfg, host_value ip (point_data_port (host_net_info cfg)) kMid360LidarPointCloudPort),
         (kKeyLidarImuHostIpCfg, host_value ip (imu_data_port (host_net_info cfg)) kMid360LidarImuDataPort)]
       @ rest, 40)"
proof -
  note s = sets_ip_dest [OF ip(1)] sets_ip_twice [OF sets_ip_host(1) [OF ip(2)] sets_ip_dest [OF ip(1)]]
  have l: "length ip = 4" using s by (simp add: sets_ip_def)
  show ?thesis
    using n by (simp add: BuildUpdateMid360LidarCfgRequest_def begin_request_zero host_kv_request [OF s(1)]
        host_kv_request [OF s(2)] Let_def request_bytes_def l)
qed


theorem update_mid360_request_witness:
  "\<exists>rest. BuildUpdateMid360LidarCfgRequest (\<lparr>device_type = 9, lidar_net_info = \<lparr>lidar_ipaddr = [], lidar_subnet_mask = [], lidar_gateway = [],
       lidar_cmd_data_port = 0, lidar_push_msg_port = 0, lidar_point_port_cfg = 0, lidar_imu_port_cfg = 0,
       lidar_log_port_cfg = 0\<rparr>,
     host_net_info = \<lparr>host_ip = dots [192, 168, 1, 5], multicast_ip = [], cmd_data_port = 56101,
       push_msg_port = 56201, point_data_port = 56301, imu_data_port = 56401, log_data_port = 56501\<rparr>\<rparr>) (replicate 1400 0) 0 =
      Some (True, request_bytes
        [(kKeyStateInfoHostIpCfg, host_value [192, 168, 1, 5] 56201 kMid360LidarPushMsgPort),
         (kKeyLidarPointDataHostIpCfg, host_value [192, 168, 1, 5] 56301 kMid360LidarPointCloudPort),
         (kKeyLidarImuHostIpCfg, host_value [192, 168, 1, 5] 56401 kMid360LidarImuDataPort)] @ rest, 40)"
  using update_mid360_request [of "\<lparr>device_type = 9, lidar_net_info = \<lparr>lidar_ipaddr = [], lidar_subnet_mask = [], lidar_gateway = [],
       lidar_cmd_data_port = 0, lidar_push_msg_port = 0, lidar_point_port_cfg = 0, lidar_imu_port_cfg = 0,
       lidar_log_port_cfg = 0\<rparr>,
     host_net_info = \<lparr>host_ip = dots [192, 168, 1, 5], multicast_ip = [], cmd_data_port = 56101,
       push_msg_port = 56201, point_data_port = 56301, imu_data_port = 56401, log_data_port = 56501\<rparr>\<rparr>" "[192, 168, 1, 5]" "[192, 168, 1, 5]" 1400]
  by (simp add: IpToU8_dots_eq dest_ip_def)

text \<open>
  IpToU8 of numbers in dotted decimal succeeds exactly for four numbers of at most 256, and
  returns them modulo 256: 256 is accepted and becomes 0.
\<close>
theorem IpToU8_dots:
  assumes "ns \<noteq> []" "\<forall>n \<in> set ns. n < 2 ^ 31"
  shows "IpToU8 (dots ns) ''.'' =
    Inr (if length ns = 4 \<and> (\<forall>n \<in> set ns. n \<le> 256) then Some (map of_nat ns) else None)"
  using assms by (rule IpToU8_dots_eq)

theorem IpToU8_dots_witness: "IpToU8 (dots [192, 168, 256, 5]) ''.'' = Inr (Some [192, 168, 0, 5])"
  by (subst IpToU8_dots) simp_all

lemma InitLidarIpinfoVal_Some:
  assumes "IpToU8 (ip_addr c) ''.'' = Inr (Some a)" "IpToU8 (net_mask c) ''.'' = Inr (Some m)"
    "IpToU8 (gw_addr c) ''.'' = Inr (Some g)" and n: "length pre = n" "12 \<le> length suf"
  shows "InitLidarIpinfoVal c (pre @ suf) n = Some (True, pre @ (a @ m @ g) @ drop 12 suf)"
proof -
  have "length a = 4" "length m = 4" "length g = 4"
    using sets_ip_host(1) [OF assms(1)] sets_ip_host(1) [OF assms(2)] sets_ip_host(1) [OF assms(3)]
    by (simp_all add: sets_ip_def)
  moreover obtain k where "length suf = 12 + k" using n(2) le_Suc_ex by blast
  ultimately show ?thesis
    using assms(1-3) n(1) by (simp add: InitLidarIpinfoVal_def poke_def)
qed

lemma kv_head_request:
  assumes "n = length (request_with c kvs)" "4 \<le> length suf"
  shows "kv_head (request_with c kvs @ suf) n k len =
    Some ((request_with c kvs @ le16 (key_code k) @ le16 len) @ drop 4 suf)"
  using assms by (simp add: kv_head_def poke_def del: length_request_with)

text \<open>
  The builders of the single-key requests write exactly the request with their key, addresses and
  ports and return its length.
\<close>
theorem single_key_requests:
  assumes "IpToU8 a ''.'' = Inr (Some ip)" "IpToU8 m ''.'' = Inr (Some nm)"
    "IpToU8 g ''.'' = Inr (Some gw)" and n: "20 \<le> n"
  shows "(\<exists>rest. BuildSetLidarIPInfoRequest \<lparr>ip_addr = a, net_mask = m, gw_addr = g\<rparr> (replicate n 0) 0 =
      Some (True, request_bytes [(kKeyLidarIpCfg, ip @ nm @ gw)] @ rest, 20)) \<and>
    (\<exists>rest. BuildSetHostStateInfoIPCfgRequest \<lparr>host_state_ip_addr = a, host_state_info_port = hp,
        lidar_state_info_port = lp\<rparr> (replicate n 0) 0 =
      Some (True, request_bytes [(kKeyStateInfoHostIpCfg, host_value ip hp lp)] @ rest, 16)) \<and>
    (\<exists>rest. BuildSetHostPointDataIPInfoRequest \<lparr>host_point_ip_addr = a, host_point_data_port = hp,
        lidar_point_data_port = lp\<rparr> (replicate n 0) 0 =
      Some (True, request_bytes [(kKeyLidarPointDataHostIpCfg, host_value ip hp lp)] @ rest, 16)) \<and>
    (\<exists>rest. BuildSetHostImuDataIPInfoRequest \<lparr>host_imu_ip_addr = a, host_imu_data_port = hp,
        lidar_imu_data_port = lp\<rparr> (replicate n 0) 0 =
      Some (True, request_bytes [(kKeyLidarImuHostIpCfg, host_value ip hp lp)] @ rest, 16))"
proof -
  have l: "length ip = 4" "length nm = 4" "length gw = 4"
    using sets_ip_host(1) [OF assms(1)] sets_ip_host(1) [OF assms(2)] sets_ip_host(1) [OF assms(3)]
    by (simp_all add: sets_ip_def)
  have k: "(le16 1 @ 0 # 0 # le16 (key_code kKeyLidarIpCfg) @ le16 12) @ ip @ nm @ gw =
      request_with 1 [(kKeyLidarIpCfg, ip @ nm @ gw)]"
    using l by (simp add: request_with_def kv_bytes_def)
  have "\<exists>rest. BuildSetLidarIPInfoRequest \<lparr>ip_addr = a, net_mask = m, gw_addr = g\<rparr> (replicate n 0) 0 =
      Some (True, request_bytes [(kKeyLidarIpCfg, ip @ nm @ gw)] @ rest, 20)"
    using n InitLidarIpinfoVal_Some [of "\<lparr>ip_addr = a, net_mask = m, gw_addr = g\<rparr>" ip nm gw
        "request_with 1 [] @ le16 (key_code kKeyLidarIpCfg) @ le16 12" 8 "drop 4 (replicate (n - 4) 0)"] assms l
    by (simp add: BuildSetLidarIPInfoRequest_def begin_request_zero kv_head_request request_bytes_def)
      (simp add: request_with_def kv_bytes_def)
  then show ?thesis
    using n l
    by (simp add: BuildSetHostStateInfoIPCfgRequest_def BuildSetHostPointDataIPInfoRequest_def
        BuildSetHostImuDataIPInfoRequest_def begin_request_zero request_bytes_def
        host_kv_request [OF sets_ip_host(1) [OF assms(1)]])
qed

lemma host_kv_bad_ip:
  assumes "IpToU8 s ''.'' = Inr None" "n + 4 \<le> length buf"
  shows "\<exists>b. host_kv buf n k (InitHostIpAddr s) hp lp = Some (False, b, n)"
    "\<exists>b. host_kv buf n k (InitMulticastHostIpAddr s) hp lp = Some (False, b, n)"
  using assms by (auto simp: host_kv_def kv_head_def poke_def InitHostIpAddr_def InitMulticastHostIpAddr_def)

theorem single_key_requests_witness:
  "\<exists>rest. BuildSetHostStateInfoIPCfgRequest \<lparr>host_state_ip_addr = dots [192, 168, 1, 5],
      host_state_info_port = 56201, lidar_state_info_port = 56200\<rparr> (replicate 1400 0) 0 =
    Some (True, request_bytes [(kKeyStateInfoHostIpCfg, host_value [192, 168, 1, 5] 56201 56200)] @ rest, 16)"
  by (rule single_key_requests [where m = "dots [255, 255, 255, 0]" and nm = "[255, 255, 255, 0]"
      and g = "dots [192, 168, 1, 1]" and gw = "[192, 168, 1, 1]", THEN conjunct2, THEN conjunct1])
    (simp_all add: IpToU8_dots_eq)

text \<open>
  When the address to use does not parse, the configuration builders return false.
\<close>
theorem requests_reject_bad_ip:
  assumes ip: "IpToU8 (dest_ip (host_net_info cfg)) ''.'' = Inr None"
      "IpToU8 (host_ip (host_net_info cfg)) ''.'' \<in> range Inr" and n: "20 \<le> n"
  shows "(\<exists>b l. BuildUpdateLidarCfgRequest cfg (replicate n 0) 0 = Some (False, b, l)) \<and>
    (\<exists>b l. BuildUpdateMid360LidarCfgRequest cfg (replicate n 0) 0 = Some (False, b, l))"
proof -
  let ?h = "host_net_info cfg"
  have bad: "\<exists>b. host_kv buf m k (host_or_multicast ?h) hp lp = Some (False, b, m)"
    if "m + 4 \<le> length buf" for buf m k hp lp
    using host_kv_bad_ip [OF ip(1) that] by (auto simp: host_or_multicast_def dest_ip_def)
  have bad2: "\<exists>b. host_kv buf m k (\<lambda>b off. do {
          (ok, b) \<leftarrow> InitHostIpAddr (host_ip ?h) b off;
          if \<not> ok then Some (False, b) else host_or_multicast ?h b off }) hp lp = Some (False, b, m)"
    if "m + 8 \<le> length buf" for buf m k hp lp
    using that ip
    by (auto simp: host_kv_def kv_head_def poke_def InitHostIpAddr_def InitMulticastHostIpAddr_def
        host_or_multicast_def dest_ip_def split: option.splits if_splits)
  obtain b1 where "host_kv (request_with  1 [] @ replicate (n - 4) 0) 4
      kKeyLidarPointDataHostIpCfg (host_or_multicast ?h) (point_data_port ?h)
      (lidar_point_port_of (device_type cfg)) = Some (False, b1, 4)"
    using bad [of 4 "request_with  1 [] @ replicate (n - 4) 0" kKeyLidarPointDataHostIpCfg
      "point_data_port ?h" "lidar_point_port_of (device_type cfg)"] n by auto
  moreover obtain b3 where "host_kv (request_with  2 [] @ replicate (n - 4) 0) 4
      kKeyLidarPointDataHostIpCfg (host_or_multicast ?h) (point_data_port ?h)
      (lidar_point_port_of (device_type cfg)) = Some (False, b3, 4)"
    using bad [of 4 "request_with  2 [] @ replicate (n - 4) 0" kKeyLidarPointDataHostIpCfg
      "point_data_port ?h" "lidar_point_port_of (device_type cfg)"] n by auto
  moreover obtain b2 where "host_kv (request_with 3 [] @ replicate (n - 4) 0) 4 kKeyStateInfoHostIpCfg
      (\<lambda>b off. do {
          (ok, b) \<leftarrow> InitHostIpAddr (host_ip ?h) b off;
          if \<not> ok then Some (False, b) else host_or_multicast ?h b off })
      (push_msg_port ?h) (Some kMid360LidarPushMsgPort) = Some (False, b2, 4)"
    using bad2 [of 4 "request_with 3 [] @ replicate (n - 4) 0" kKeyStateInfoHostIpCfg
      "push_msg_port ?h" "Some kMid360LidarPushMsgPort"] n by auto
  ultimately show ?thesis
    using n by (cases "device_type cfg = 16")
      (simp_all add: BuildUpdateLidarCfgRequest_def BuildUpdateMid360LidarCfgRequest_def
        begin_request_zero Let_def)
qed

theorem requests_reject_bad_ip_witness:
  "(\<exists>b l. BuildUpdateLidarCfgRequest (\<lparr>device_type = 9, lidar_net_info = \<lparr>lidar_ipaddr = [], lidar_subnet_mask = [], lidar_gateway = [],
       lidar_cmd_data_port = 0, lidar_push_msg_port = 0, lidar_point_port_cfg = 0, lidar_imu_port_cfg = 0,
       lidar_log_port_cfg = 0\<rparr>,
     host_net_info = \<lparr>host_ip = dots [192, 168, 257, 5], multicast_ip = [], cmd_data_port = 56101,
       push_msg_port = 56201, point_data_port = 56301, imu_data_port = 56401, log_data_port = 56501\<rparr>\<rparr>) (replicate 1400 0) 0 = Some (False, b, l)) \<and>
   (\<exists>b l. BuildUpdateMid360LidarCfgRequest (\<lparr>device_type = 9, lidar_net_info = \<lparr>lidar_ipaddr = [], lidar_subnet_mask = [], lidar_gateway = [],
       lidar_cmd_data_port = 0, lidar_push_msg_port = 0, lidar_point_port_cfg = 0, lidar_imu_port_cfg = 0,
       lidar_log_port_cfg = 0\<rparr>,
     host_net_info = \<lparr>host_ip = dots [192, 168, 257, 5], multicast_ip = [], cmd_data_port = 56101,
       push_msg_port = 56201, point_data_port = 56301, imu_data_port = 56401, log_data_port = 56501\<rparr>\<rparr>) (replicate 1400 0) 0 = Some (False, b, l))"
proof (rule requests_reject_bad_ip)
  let ?c = "\<lparr>device_type = 9, lidar_net_info = \<lparr>lidar_ipaddr = [], lidar_subnet_mask = [], lidar_gateway = [],
       lidar_cmd_data_port = 0, lidar_push_msg_port = 0, lidar_point_port_cfg = 0, lidar_imu_port_cfg = 0,
       lidar_log_port_cfg = 0\<rparr>,
     host_net_info = \<lparr>host_ip = dots [192, 168, 257, 5], multicast_ip = [], cmd_data_port = 56101,
       push_msg_port = 56201, point_data_port = 56301, imu_data_port = 56401, log_data_port = 56501\<rparr>\<rparr>"
  show "IpToU8 (dest_ip (host_net_info ?c)) ''.'' = Inr None"
    "IpToU8 (host_ip (host_net_info ?c)) ''.'' \<in> range Inr"
    by (simp_all add: dest_ip_def IpToU8_dots_eq)
qed simp

end
