(* ===== verification/Lidar_State_Info.thy ===== *)
theory Lidar_State_Info
  imports Build_Request
begin

text \<open>
  \<open>parse_lidar_state_info.cpp\<close>: the state a lidar pushes, a list of keys with values, read into a
  \<open>DirectLidarStateInfo\<close> and written as JSON. The structure is packed; it is modelled as its bytes,
  because the code copies as many bytes to a field as the message says. The JSON writer is a library:
  the model is the sequence of calls it receives.
\<close>

section \<open>The structure\<close>

text \<open>The fields in their order, each named by the key that carries it, with their sizes.\<close>

definition state_fields :: "(ParamKeyName \<times> nat) list" where
  "state_fields = [
     (kKeyPclDataType, 1), (kKeyPatternMode, 1), (kKeyDualEmitEn, 1), (kKeyPointSendEn, 1),
     (kKeyLidarIpCfg, 16 + 16 + 16), (kKeyStateInfoHostIpCfg, 16 + 2 + 2),
     (kKeyLidarPointDataHostIpCfg, 16 + 2 + 2), (kKeyLidarImuHostIpCfg, 16 + 2 + 2),
     (kKeyCtlHostIpCfg, 16 + 2 + 2), (kKeyLogHostIpCfg, 16 + 2 + 2),
     (kKeyVehicleSpeed, 4), (kKeyEnvironmentTemp, 4), (kKeyInstallAttitude, 24), (kKeyBlindSpotSet, 4),
     (kKeyFrameRate, 1), (kKeyFovCfg0, 20), (kKeyFovCfg1, 20), (kKeyFovCfgEn, 1), (kKeyDetectMode, 1),
     (kKeyFuncIoCfg, 4), (kKeyWorkMode, 1), (kKeyGlassHeat, 1), (kKeyImuDataEn, 1), (kKeyFusaEn, 1),
     (kKeySn, 16), (kKeyProductInfo, 64), (kKeyVersionApp, 4), (kKeyVersionLoader, 4),
     (kKeyVersionHardware, 4), (kKeyMac, 6), (kKeyCurWorkState, 1), (kKeyCoreTemp, 4),
     (kKeyPowerUpCnt, 4), (kKeyLocalTimeNow, 8), (kKeyLastSyncTime, 8), (kKeyTimeOffset, 8),
     (kKeyTimeSyncType, 1), (kKeyStatusCode, 32), (kKeyLidarDiagStatus, 2), (kKeyLidarFlashStatus, 1),
     (kKeyFwType, 1), (kKeyHmsCode, 32), (kKeyRoiMode, 1)]"

fun field_in :: "(ParamKeyName \<times> nat) list \<Rightarrow> nat \<Rightarrow> ParamKeyName \<Rightarrow> (nat \<times> nat) option" where
  "field_in [] off k = None"
| "field_in ((k', n) # fs) off k = (if k = k' then Some (off, n) else field_in fs (off + n) k)"

text \<open>Offset and size of the field of a key.\<close>

definition field_of :: "ParamKeyName \<Rightarrow> (nat \<times> nat) option" where
  "field_of = field_in state_fields 0"

definition state_size :: nat where
  "state_size = sum_list (map snd state_fields)"

section \<open>Addresses\<close>

text \<open>\<open>strcpy\<close> of the dotted form of the four bytes at \<open>off\<close>.\<close>

definition copy_ip :: "u8 list \<Rightarrow> u16 \<Rightarrow> u8 list \<Rightarrow> nat \<Rightarrow> u8 list option" where
  "copy_ip pkt off info dst = do {
     ip \<leftarrow> peek pkt (unat off) 4;
     poke info dst (map of_char (dots (map unat ip)) @ [0]) }"

definition ParseLidarIpAddr :: "u8 list \<Rightarrow> u16 \<Rightarrow> u8 list \<Rightarrow> nat \<Rightarrow> u8 list option" where
  "ParseLidarIpAddr pkt off info dst = do {
     info \<leftarrow> copy_ip pkt off info dst;
     info \<leftarrow> copy_ip pkt (off + 4) info (dst + 16);
     copy_ip pkt (off + 8) info (dst + 32) }"

text \<open>
  \<open>ParseStateInfoHostIPCfg\<close>, \<open>ParsePointCloudHostIpCfg\<close>, \<open>ParseImuDataHostIpCfg\<close> and \<open>ParseIpCfg\<close>
  differ only in the field they fill.
\<close>

definition ParseIpCfg :: "u8 list \<Rightarrow> u16 \<Rightarrow> u8 list \<Rightarrow> nat \<Rightarrow> u8 list option" where
  "ParseIpCfg pkt off info dst = do {
     info \<leftarrow> copy_ip pkt off info dst;
     p \<leftarrow> peek pkt (unat (off + 4)) 2;
     info \<leftarrow> poke info (dst + 16) p;
     p \<leftarrow> peek pkt (unat (off + 4 + 2)) 2;
     poke info (dst + 18) p }"

definition ParseStateInfoHostIPCfg :: "u8 list \<Rightarrow> u16 \<Rightarrow> u8 list \<Rightarrow> nat \<Rightarrow> u8 list option" where
  "ParseStateInfoHostIPCfg = ParseIpCfg"

definition ParsePointCloudHostIpCfg :: "u8 list \<Rightarrow> u16 \<Rightarrow> u8 list \<Rightarrow> nat \<Rightarrow> u8 list option" where
  "ParsePointCloudHostIpCfg = ParseIpCfg"

definition ParseImuDataHostIpCfg :: "u8 list \<Rightarrow> u16 \<Rightarrow> u8 list \<Rightarrow> nat \<Rightarrow> u8 list option" where
  "ParseImuDataHostIpCfg = ParseIpCfg"

section \<open>The parser\<close>

definition parse_value :: "ParamKeyName \<Rightarrow> nat \<Rightarrow> u8 list \<Rightarrow> u16 \<Rightarrow> u16 \<Rightarrow> u8 list \<Rightarrow> u8 list option" where
  "parse_value k dst pkt off val_len info =
     (if k = kKeyLidarIpCfg then ParseLidarIpAddr pkt off info dst
      else if k = kKeyStateInfoHostIpCfg then ParseStateInfoHostIPCfg pkt off info dst
      else if k = kKeyLidarPointDataHostIpCfg then ParsePointCloudHostIpCfg pkt off info dst
      else if k = kKeyLidarImuHostIpCfg then ParseImuDataHostIpCfg pkt off info dst
      else if k \<in> {kKeyCtlHostIpCfg, kKeyLogHostIpCfg} then ParseIpCfg pkt off info dst
      else do {
        v \<leftarrow> peek pkt (unat off) (unat val_len);
        poke info dst v })"

text \<open>
  The loop over the keys. The inner \<open>None\<close> is the \<open>false\<close> of a message that is too short; the outer
  one an access outside the message or the structure.
\<close>

fun parse_keys :: "nat \<Rightarrow> u8 list \<Rightarrow> u16 \<Rightarrow> u16 \<Rightarrow> u8 list \<Rightarrow> ParamKeyName set \<Rightarrow>
    (u8 list \<times> ParamKeyName set) option option" where
  "parse_keys 0 pkt len off info seen = Some (Some (info, seen))"
| "parse_keys (Suc n) pkt len off info seen =
     (if unat len < unat off + 5 then Some None
      else do {
        key \<leftarrow> rd16 pkt (unat off);
        val_len \<leftarrow> rd16 pkt (unat (off + 2));
        let off = off + 2 + 2;
        case Option.bind (key_of_code key) (\<lambda>k. map_option (Pair k) (field_of k)) of
          None \<Rightarrow> parse_keys n pkt len (off + val_len) info seen
        | Some (k, dst, sz) \<Rightarrow> do {
            info \<leftarrow> parse_value k dst pkt off val_len info;
            parse_keys n pkt len (off + val_len) info (insert k seen) } })"

definition ParseStateInfo :: "CommPacket \<Rightarrow> u8 list \<Rightarrow> (u8 list \<times> ParamKeyName set) option option" where
  "ParseStateInfo p info = do {
     pkt \<leftarrow> data p;
     key_num \<leftarrow> rd16 pkt 0;
     parse_keys (unat key_num) pkt (data_len p) 4 info {} }"

section \<open>JSON\<close>

text \<open>
  The calls of the JSON writer. A number is the value the writer is given, after the conversion to
  the type of the call; a double is the bits of the float it comes from.
\<close>

datatype json_call =
    StartObject
  | EndObject
  | StartArray
  | EndArray
  | Key string
  | Num int
  | Double u32
  | Str "u8 list"

type_synonym writer = "nat \<Rightarrow> u8 list \<Rightarrow> json_call list option"
type_synonym json_item = "ParamKeyName set \<Rightarrow> u8 list \<Rightarrow> json_call list option"

text \<open>Writers of the values at an offset in the field at \<open>base\<close>.\<close>

definition w_uint :: "nat \<Rightarrow> nat \<Rightarrow> writer" where
  "w_uint n off base info = do { b \<leftarrow> peek info (base + off) n; Some [Num (uint (from_le b :: u64))] }"

definition w_int32 :: "nat \<Rightarrow> writer" where
  "w_int32 off base info = do { w \<leftarrow> rd32 info (base + off); Some [Num (sint w)] }"

definition w_int64 :: "nat \<Rightarrow> writer" where
  "w_int64 off base info = do { w \<leftarrow> rd64 info (base + off); Some [Num (sint w)] }"

definition w_double :: "nat \<Rightarrow> writer" where
  "w_double off base info = do { w \<leftarrow> rd32 info (base + off); Some [Double w] }"

text \<open>A C string: the bytes up to the first zero, which may lie beyond the field.\<close>

definition w_string :: "nat \<Rightarrow> writer" where
  "w_string off base info =
     (let s = drop (base + off) info in if 0 \<in> set s then Some [Str (takeWhile (\<lambda>b. b \<noteq> 0) s)] else None)"

text \<open>The calls that do not depend on the state.\<close>

definition w_call :: "json_call \<Rightarrow> writer" where "w_call c base info = Some [c]"
definition w_key :: "string \<Rightarrow> writer" where "w_key name = w_call (Key name)"

fun w_calls :: "writer list \<Rightarrow> writer" where
  "w_calls [] base info = Some []"
| "w_calls (w # ws) base info = do { x \<leftarrow> w base info; y \<leftarrow> w_calls ws base info; Some (x @ y) }"

fun hex_digits :: "nat \<Rightarrow> string" where
  "hex_digits n = (if n < 16 then [''0123456789abcdef'' ! n]
     else hex_digits (n div 16) @ [''0123456789abcdef'' ! (n mod 16)])"

declare hex_digits.simps [simp del]

text \<open>The status code in hexadecimal, the last byte first, separated by blanks.\<close>

definition w_status :: writer where
  "w_status base info = do {
     b \<leftarrow> peek info base 32;
     let ss = concat (map (\<lambda>idx. hex_digits (unat (b ! idx)) @ (if idx \<noteq> 0 then '' '' else [])) (rev [0..<32]));
     Some [Str (map of_char ss)] }"

text \<open>One \<open>if\<close> of the code: the calls made for a key that was received, in their order.\<close>

definition item :: "ParamKeyName \<Rightarrow> writer list \<Rightarrow> json_item" where
  "item k ws seen info =
     (if k \<in> seen
      then (case field_of k of None \<Rightarrow> None | Some (base, sz) \<Rightarrow> w_calls ws base info)
      else Some [])"

fun items :: "json_item list \<Rightarrow> json_item" where
  "items [] seen info = Some []"
| "items (f # fs) seen info = do { x \<leftarrow> f seen info; y \<leftarrow> items fs seen info; Some (x @ y) }"

definition network_items :: "json_item list" where
  "network_items = [
     item kKeyPclDataType [w_key ''pcl_data_type'', w_uint 1 0],
     item kKeyPatternMode [w_key ''pattern_mode'', w_uint 1 0],
     item kKeyDualEmitEn [w_key ''dual_emit_en'', w_uint 1 0],
     item kKeyPointSendEn [w_key ''point_send_en'', w_uint 1 0],
     item kKeyLidarIpCfg [w_key ''lidar_ipcfg'', w_call StartObject, w_key ''lidar_ip'', w_string 0,
       w_key ''lidar_subnet_mask'', w_string 16, w_key ''lidar_gateway'', w_string 32, w_call EndObject],
     item kKeyStateInfoHostIpCfg [w_key ''state_info_host_ipcfg'', w_call StartObject, w_key ''ip'',
       w_string 0, w_key ''dst_port'', w_uint 2 16, w_key ''src_port'', w_uint 2 18, w_call EndObject],
     item kKeyLidarPointDataHostIpCfg [w_key ''ponitcloud_host_ipcfg'', w_call StartObject, w_key ''ip'',
       w_string 0, w_key ''dst_port'', w_uint 2 16, w_key ''src_port'', w_uint 2 18, w_call EndObject],
     item kKeyLidarImuHostIpCfg [w_key ''imu_host_ipcfg'', w_call StartObject, w_key ''ip'', w_string 0,
       w_key ''dst_port'', w_uint 2 16, w_key ''src_port'', w_uint 2 18, w_call EndObject],
     item kKeyCtlHostIpCfg [w_key ''ctl_host_ipcfg'', w_call StartObject, w_key ''ip'', w_string 0,
       w_key ''dst_port'', w_uint 2 16, w_key ''src_port'', w_uint 2 18, w_call EndObject],
     item kKeyLogHostIpCfg [w_key ''log_host_ipcfg'', w_call StartObject, w_key ''ip'', w_string 0,
       w_key ''dst_port'', w_uint 2 16, w_key ''src_port'', w_uint 2 18, w_call EndObject]]"

definition setting_items :: "json_item list" where
  "setting_items = [
     item kKeyVehicleSpeed [w_key ''vehicle_speed'', w_int32 0],
     item kKeyEnvironmentTemp [w_key ''environment_temp'', w_int32 0],
     item kKeyInstallAttitude [w_key ''install_attitude'', w_call StartObject, w_key ''roll_deg'', w_double 0,
       w_key ''pitch_deg'', w_double 4, w_key ''yaw_deg'', w_double 8, w_key ''x_mm'', w_uint 4 12,
       w_key ''y_mm'', w_uint 4 16, w_key ''z_mm'', w_uint 4 20, w_call EndObject],
     item kKeyBlindSpotSet [w_key ''blind_spot_set'', w_uint 4 0],
     item kKeyFrameRate [w_key ''frame_rate'', w_uint 1 0],
     item kKeyFovCfg0 [w_key ''fov_cfg0'', w_call StartObject, w_key ''yaw_start'', w_int32 0,
       w_key ''yaw_stop'', w_int32 4, w_key ''pitch_start'', w_int32 8, w_key ''pitch_stop'', w_int32 12,
       w_call EndObject],
     item kKeyFovCfg1 [w_key ''fov_cfg1'', w_call StartObject, w_key ''yaw_start'', w_int32 0,
       w_key ''yaw_stop'', w_int32 4, w_key ''pitch_start'', w_int32 8, w_key ''pitch_stop'', w_int32 12,
       w_call EndObject],
     item kKeyFovCfgEn [w_key ''fov_cfg_en'', w_uint 1 0],
     item kKeyDetectMode [w_key ''detect_mode'', w_uint 1 0],
     item kKeyFuncIoCfg [w_key ''func_io_cfg'', w_call StartObject, w_key ''IN0'', w_uint 1 0, w_key ''IN1'',
       w_uint 1 1, w_key ''OUT0'', w_uint 1 2, w_key ''OUT1'', w_uint 1 3, w_call EndObject],
     item kKeyWorkMode [w_key ''work_tgt_mode'', w_uint 1 0],
     item kKeyGlassHeat [w_key ''glass_heat'', w_uint 1 0],
     item kKeyImuDataEn [w_key ''imu_data_en'', w_uint 1 0],
     item kKeyFusaEn [w_key ''fusa_en'', w_uint 1 0]]"

definition identity_items :: "json_item list" where
  "identity_items = [
     item kKeySn [w_key ''sn'', w_string 0],
     item kKeyProductInfo [w_key ''product_info'', w_string 0],
     item kKeyVersionApp [w_key ''version_app'', w_call StartArray, w_uint 1 0, w_uint 1 1, w_uint 1 2,
       w_uint 1 3, w_call EndArray],
     item kKeyVersionLoader [w_key ''version_loader'', w_call StartArray, w_uint 1 0, w_uint 1 1, w_uint 1 2,
       w_uint 1 3, w_call EndArray],
     item kKeyVersionHardware [w_key ''version_hardware'', w_call StartArray, w_uint 1 0, w_uint 1 1,
       w_uint 1 2, w_uint 1 3, w_call EndArray],
     item kKeyMac [w_key ''mac'', w_call StartArray, w_uint 1 0, w_uint 1 1, w_uint 1 2, w_uint 1 3,
       w_uint 1 4, w_uint 1 5, w_call EndArray]]"

definition status_items :: "json_item list" where
  "status_items = [
     item kKeyCurWorkState [w_key ''cur_work_state'', w_uint 1 0],
     item kKeyCoreTemp [w_key ''core_temp'', w_int32 0],
     item kKeyPowerUpCnt [w_key ''powerup_cnt'', w_uint 4 0],
     item kKeyLocalTimeNow [w_key ''local_time_now'', w_uint 8 0],
     item kKeyLastSyncTime [w_key ''last_sync_time'', w_uint 8 0],
     item kKeyTimeOffset [w_key ''time_offset'', w_int64 0],
     item kKeyTimeSyncType [w_key ''time_sync_type'', w_uint 1 0],
     item kKeyStatusCode [w_key ''status_code'', w_status],
     item kKeyLidarDiagStatus [w_key ''lidar_diag_status'', w_uint 2 0],
     item kKeyLidarFlashStatus [w_key ''lidar_flash_status'', w_uint 1 0],
     item kKeyFwType [w_key ''FW_TYPE'', w_uint 1 0],
     item kKeyHmsCode [w_key ''hms_code'', w_call StartArray, w_uint 4 0, w_uint 4 4, w_uint 4 8, w_uint 4 12,
       w_uint 4 16, w_uint 4 20, w_uint 4 24, w_uint 4 28, w_call EndArray],
     item kKeyRoiMode [w_key ''ROI_Mode'', w_uint 1 0]]"

definition LivoxLidarStateInfoToJson :: "u8 list \<Rightarrow> ParamKeyName set \<Rightarrow> json_call list option" where
  "LivoxLidarStateInfoToJson info seen = do {
     calls \<leftarrow> items (network_items @ setting_items @ identity_items @ status_items) seen info;
     Some (StartObject # calls @ [EndObject]) }"

text \<open>
  \<open>Parse\<close>: the structure is a local variable that is not initialised, with the bytes of \<open>junk\<close>
  (zeros behind them, so that any list will do); a message that is too short leaves the text empty.
\<close>

definition Parse :: "u8 list \<Rightarrow> CommPacket \<Rightarrow> (bool \<times> json_call list) option" where
  "Parse junk p = do {
     r \<leftarrow> ParseStateInfo p (take state_size (junk @ replicate state_size 0));
     case r of None \<Rightarrow> Some (False, [])
     | Some (info, seen) \<Rightarrow> map_option (Pair True) (LivoxLidarStateInfoToJson info seen) }"

section \<open>Fields of the structure\<close>

lemma field_in_bounds:
  "field_in fs off k = Some (a, n) \<Longrightarrow> off \<le> a \<and> a + n \<le> off + sum_list (map snd fs)"
  by (induction fs off k rule: field_in.induct) (fastforce split: if_splits)+

lemma field_in_disjoint:
  "field_in fs off k = Some (a, n) \<Longrightarrow> field_in fs off k' = Some (a', n') \<Longrightarrow> k \<noteq> k' \<Longrightarrow>
     a + n \<le> a' \<or> a' + n' \<le> a"
  by (induction fs off k rule: field_in.induct) (auto split: if_splits dest: field_in_bounds)

lemma field_of_bounds: "field_of k = Some (a, n) \<Longrightarrow> a + n \<le> state_size"
  using field_in_bounds [of state_fields 0 k a n] by (simp add: field_of_def state_size_def)

text \<open>The contents of the field of a key.\<close>

definition contents :: "u8 list \<Rightarrow> ParamKeyName \<Rightarrow> u8 list" where
  "contents info k = (case field_of k of None \<Rightarrow> [] | Some (a, n) \<Rightarrow> take n (drop a info))"

lemma contents_poke:
  assumes "field_of k = Some (a, n)" "length d = n" "poke info a d = Some info'"
    and "length info = state_size"
  shows "contents info' k' = (if k' = k then d else contents info k')"
proof (cases "field_of k'")
  case None
  then show ?thesis using assms(1) by (auto simp: contents_def)
next
  case (Some r)
  obtain a' n' where r: "r = (a', n')" by fastforce
  show ?thesis
  proof (cases "k' = k")
    case True
    then show ?thesis using assms by (auto simp: contents_def poke_Some_iff)
  next
    case False
    have "a + n \<le> a' \<or> a' + n' \<le> a"
      using field_in_disjoint [of state_fields 0 k a n k' a' n'] assms(1) Some r False
      by (auto simp: field_of_def)
    with peek_poke_other [OF assms(3), of a' n'] assms(2)
    have "peek info' a' n' = peek info a' n'" by auto
    with length_poke [OF assms(3)] field_of_bounds [of k' a' n'] Some r assms(4)
    show ?thesis using False by (auto simp: contents_def peek_def poke_Some_iff split: if_splits)
  qed
qed

section \<open>What a value becomes in its field\<close>

definition ip_text :: "u8 list \<Rightarrow> u8 list" where
  "ip_text ip = map of_char (dots (map unat ip)) @ [0]"

text \<open>An address leaves the bytes behind its terminator as they were.\<close>

definition put_ip :: "u8 list \<Rightarrow> u8 list \<Rightarrow> u8 list" where
  "put_ip ip old = ip_text ip @ drop (length (ip_text ip)) old"

definition host_keys :: "ParamKeyName set" where
  "host_keys = {kKeyStateInfoHostIpCfg, kKeyLidarPointDataHostIpCfg, kKeyLidarImuHostIpCfg,
     kKeyCtlHostIpCfg, kKeyLogHostIpCfg}"

definition decode :: "ParamKeyName \<Rightarrow> u8 list \<Rightarrow> u8 list \<Rightarrow> u8 list" where
  "decode k v old =
     (if k = kKeyLidarIpCfg
      then put_ip (take 4 v) (take 16 old) @ put_ip (take 4 (drop 4 v)) (take 16 (drop 16 old)) @
        put_ip (take 4 (drop 8 v)) (take 16 (drop 32 old))
      else if k \<in> host_keys then put_ip (take 4 v) (take 16 old) @ take 4 (drop 4 v)
      else v)"

text \<open>How many bytes the value of a key has in a message.\<close>

definition wire_length :: "ParamKeyName \<Rightarrow> nat" where
  "wire_length k = (if k = kKeyLidarIpCfg then 12 else if k \<in> host_keys then 8
     else (case field_of k of None \<Rightarrow> 0 | Some (a, n) \<Rightarrow> n))"

lemma length_dec: "n < 256 \<Longrightarrow> length (dec n) \<le> 3"
  by (subst dec.simps, subst dec.simps, subst dec.simps) auto

lemma length_ip_text: "length ip = 4 \<Longrightarrow> length (ip_text ip) \<le> 16"
proof -
  assume "length ip = 4"
  then obtain a b c d where ip: "ip = [a, b, c, d]" by (auto simp: numeral_eq_Suc length_Suc_conv)
  have "length (dec (unat x)) \<le> 3" for x :: u8
    by (intro length_dec unat_u8)
  from this [of a] this [of b] this [of c] this [of d]
  show ?thesis by (simp add: ip_text_def ip dots.simps)
qed

lemma length_put_ip: "length ip = 4 \<Longrightarrow> length old = 16 \<Longrightarrow> length (put_ip ip old) = 16"
  using length_ip_text [of ip] by (simp add: put_ip_def)

lemma copy_ip_at:
  assumes "peek pkt (unat off) 4 = Some ip" "length x = 16" "dst = length A"
  shows "copy_ip pkt off (A @ x @ B) dst = Some (A @ put_ip ip x @ B)"
  using length_ip_text [OF length_peek [OF assms(1)]] assms
  by (simp add: copy_ip_def ip_text_def [symmetric] poke_def put_ip_def)

text \<open>Reads inside a value \<open>v\<close> of a message.\<close>

lemma unat_off:
  fixes off :: u16
  assumes "unat off + i < 65536"
  shows "unat (off + of_nat i) = unat off + i"
  using assms by (simp add: unat_word_ariths unat_of_nat)

lemma peek_value:
  assumes "unat off = length pre" "length pre + length v < 65536" "i + n \<le> length v"
  shows "peek (pre @ v @ suf) (unat (off + of_nat i :: u16)) n = Some (take n (drop i v))"
  using assms unat_off [of off i] by (simp add: peek_def)

lemmas peek_value_0 = peek_value [where i = 0, simplified]

lemma copy_ip_value:
  assumes "unat off = length pre" "length pre + length v < 65536" "i + 4 \<le> length v"
    and "length x = 16" "dst = length A"
  shows "copy_ip (pre @ v @ suf) (off + of_nat i) (A @ x @ B) dst = Some (A @ put_ip (take 4 (drop i v)) x @ B)"
  using assms by (intro copy_ip_at peek_value)

lemma ParseLidarIpAddr_value:
  assumes "unat off = length pre" "length pre + length v < 65536" "length v = 12"
    and "length x = 48" "dst = length A"
  shows "ParseLidarIpAddr (pre @ v @ suf) off (A @ x @ B) dst = Some (A @ decode kKeyLidarIpCfg v x @ B)"
proof -
  obtain x1 x2 x3 where x: "x = x1 @ x2 @ x3" and l: "length x1 = 16" "length x2 = 16" "length x3 = 16"
    using that [of "take 16 x" "take 16 (drop 16 x)" "drop 32 x"] assms(4)
      append_take_drop_id [of 16 x] append_take_drop_id [of 16 "drop 16 x"] by simp
  let ?p = "put_ip (take 4 v) x1" and ?q = "put_ip (take 4 (drop 4 v)) x2"
  have lp: "length ?p = 16" "length ?q = 16" using assms(3) l by (simp_all add: length_put_ip)
  have 1: "copy_ip (pre @ v @ suf) off (A @ x @ B) dst = Some (A @ ?p @ x2 @ x3 @ B)"
    using copy_ip_value [OF assms(1,2), of 0 x1 dst A suf "x2 @ x3 @ B"] assms(3,5) x l by simp
  have 2: "copy_ip (pre @ v @ suf) (off + 4) (A @ ?p @ x2 @ x3 @ B) (dst + 16) = Some (A @ ?p @ ?q @ x3 @ B)"
    using copy_ip_value [OF assms(1,2), of 4 x2 "dst + 16" "A @ ?p" suf "x3 @ B"] assms(3,5) l lp by simp
  have 3: "copy_ip (pre @ v @ suf) (off + 8) (A @ ?p @ ?q @ x3 @ B) (dst + 32) =
      Some (A @ ?p @ ?q @ put_ip (take 4 (drop 8 v)) x3 @ B)"
    using copy_ip_value [OF assms(1,2), of 8 x3 "dst + 32" "A @ ?p @ ?q" suf B] assms(3,5) l lp by simp
  show ?thesis unfolding ParseLidarIpAddr_def 1 by (simp add: 2 3 decode_def x l)
qed

lemma ParseIpCfg_value:
  assumes "unat off = length pre" "length pre + length v < 65536" "length v = 8"
    and "length x = 20" "dst = length A"
  shows "ParseIpCfg (pre @ v @ suf) off (A @ x @ B) dst =
    Some (A @ (put_ip (take 4 v) (take 16 x) @ take 4 (drop 4 v)) @ B)"
proof -
  obtain y z where x: "x = y @ z" and l: "length y = 16" "length z = 4"
    using that [of "take 16 x" "drop 16 x"] assms(4) by simp
  let ?p = "put_ip (take 4 v) y"
  have lp: "length ?p = 16" using assms(3) l by (simp add: length_put_ip)
  have 1: "copy_ip (pre @ v @ suf) off (A @ x @ B) dst = Some (A @ ?p @ z @ B)"
    using copy_ip_value [OF assms(1,2), of 0 y dst A suf "z @ B"] assms(3,5) x l by simp
  have 2: "peek (pre @ v @ suf) (unat (off + 4)) 2 = Some (take 2 (drop 4 v))"
    using peek_value [OF assms(1,2), of 4 2 suf] assms(3) by simp
  have 3: "peek (pre @ v @ suf) (unat (6 + off)) 2 = Some (take 2 (drop 6 v))"
    using peek_value [OF assms(1,2), of 6 2 suf] assms(3) by (simp add: add.commute)
  have 4: "take 2 (drop 4 v) @ drop 6 v = drop 4 v"
    using append_take_drop_id [of 2 "drop 4 v"] by simp
  show ?thesis
    unfolding ParseIpCfg_def 1 using assms(3,5) l lp 4 by (simp add: 2 3 poke_def x)
qed

lemma field_sizes: "field_of kKeyLidarIpCfg = Some (a, n) \<Longrightarrow> n = 48" "k \<in> host_keys \<Longrightarrow> field_of k = Some (a, n) \<Longrightarrow> n = 20"
  by (auto simp: field_of_def state_fields_def host_keys_def)

lemma parse_value_spec:
  assumes "field_of k = Some (a, n)" "length v = wire_length k" "unat off = length pre"
    and "length pre + length v < 65536" "length info = state_size"
  shows "parse_value k a (pre @ v @ suf) off (of_nat (length v)) info =
      poke info a (decode k v (contents info k))" "length (decode k v (contents info k)) = n"
proof -
  obtain A x B where info: "info = A @ x @ B" and l: "length A = a" "length x = n"
    using that [of "take a info" "take n (drop a info)" "drop n (drop a info)"]
      field_of_bounds [OF assms(1)] assms(5)
    by (metis append_take_drop_id length_take length_drop min.absorb2 le_diff_conv2 add.commute add_leD1)
  have c: "contents info k = x" using l by (simp add: contents_def assms(1) info)
  consider (ip) "k = kKeyLidarIpCfg" | (host) "k \<in> host_keys" "k \<noteq> kKeyLidarIpCfg"
    | (plain) "k \<noteq> kKeyLidarIpCfg" "k \<notin> host_keys" by blast
  then have "parse_value k a (pre @ v @ suf) off (of_nat (length v)) info = Some (A @ decode k v x @ B) \<and>
    length (decode k v x) = n"
  proof cases
    case ip
    have n: "n = 48" using field_sizes(1) assms(1) ip by simp
    have v: "length v = 12" using assms(2) ip by (simp add: wire_length_def)
    have "length (decode k v x) = 48" using v l n ip by (simp add: decode_def length_put_ip)
    then show ?thesis
      using ParseLidarIpAddr_value [OF assms(3,4) v, of x a A suf B] ip n l by (simp add: parse_value_def info)
  next
    case host
    have n: "n = 20" using field_sizes(2) assms(1) host by simp
    have v: "length v = 8" using assms(2) host by (simp add: wire_length_def)
    have d: "decode k v x = put_ip (take 4 v) (take 16 x) @ take 4 (drop 4 v)"
      using host by (simp add: decode_def)
    have "length (decode k v x) = 20" using v l n by (simp add: d length_put_ip)
    then show ?thesis
      using ParseIpCfg_value [OF assms(3,4) v, of x a A suf B] host n l
      by (auto simp: parse_value_def host_keys_def d info ParseStateInfoHostIPCfg_def
          ParsePointCloudHostIpCfg_def ParseImuDataHostIpCfg_def)
  next
    case plain
    then have v: "length v = n" using assms(1,2) by (simp add: wire_length_def)
    have "unat (of_nat (length v) :: u16) = length v" using assms(4) by (simp add: unat_of_nat)
    moreover have "parse_value k a (pre @ v @ suf) off (of_nat (length v)) info =
        Option.bind (peek (pre @ v @ suf) (unat off) (unat (of_nat (length v) :: u16))) (poke info a)"
      using plain by (auto simp: parse_value_def host_keys_def)
    ultimately show ?thesis
      using plain v l assms(3) by (simp add: decode_def peek_def poke_def info)
  qed
  then show "parse_value k a (pre @ v @ suf) off (of_nat (length v)) info =
      poke info a (decode k v (contents info k))" "length (decode k v (contents info k)) = n"
    unfolding c using l by (simp_all add: poke_def info)
qed

lemma wire_length_pos: "field_of k = Some r \<Longrightarrow> 0 < wire_length k"
  by (auto simp: wire_length_def field_of_def state_fields_def host_keys_def split: if_splits)

section \<open>A message of known keys\<close>

text \<open>A key of the structure with a value of its length.\<close>

definition wire_ok :: "ParamKeyName \<times> u8 list \<Rightarrow> bool" where
  "wire_ok kv \<longleftrightarrow> field_of (fst kv) \<noteq> None \<and> length (snd kv) = wire_length (fst kv)"

definition decode_all :: "(ParamKeyName \<times> u8 list) list \<Rightarrow> (ParamKeyName \<Rightarrow> u8 list) \<Rightarrow> ParamKeyName \<Rightarrow> u8 list" where
  "decode_all kvs f = fold (\<lambda>(k, v) f. f(k := decode k v (f k))) kvs f"

lemma parse_keys_step:
  assumes "wire_ok (k, v)" "unat off = length pre" "length pre + 4 + length v \<le> unat len"
    and "length info = state_size"
  shows "\<exists>info'. length info' = state_size \<and> contents info' = (contents info)(k := decode k v (contents info k)) \<and>
    parse_keys (Suc n) (pre @ kv_bytes k v @ suf) len off info seen =
      parse_keys n (pre @ kv_bytes k v @ suf) len (off + of_nat (4 + length v)) info' (insert k seen)"
proof -
  obtain a m where f: "field_of k = Some (a, m)" and v: "length v = wire_length k"
    using assms(1) by (auto simp: wire_ok_def)
  have bound: "unat len < 65536" using unat_u16 by blast
  have pos: "0 < length v" using wire_length_pos [OF f] v by simp
  let ?pkt = "pre @ kv_bytes k v @ suf"
  have o: "unat (off + 2) = unat off + 2" "unat (off + 2 + 2) = unat off + 4"
    using unat_off [of off 2] unat_off [of off 4] assms(2,3) bound by (simp_all add: add.assoc)
  have r: "rd16 ?pkt (length pre) = Some (key_code k)" "rd16 ?pkt (length pre + 2) = Some (of_nat (length v))"
    by (simp_all add: rd16_def peek_def kv_bytes_def)
  let ?pre = "pre @ le16 (key_code k) @ le16 (of_nat (length v))"
  have pre: "unat (off + 2 + 2) = length ?pre" "length ?pre + length v < 65536"
    using o assms(2,3) bound by simp_all
  have p: "parse_value k a ?pkt (off + 2 + 2) (of_nat (length v)) info = poke info a (decode k v (contents info k))"
    using parse_value_spec(1) [OF f v pre assms(4), of suf] by (simp add: kv_bytes_def)
  have l: "length (decode k v (contents info k)) = m"
    by (rule parse_value_spec(2) [OF f v pre assms(4)])
  obtain info' where i: "poke info a (decode k v (contents info k)) = Some info'"
    using field_of_bounds [OF f] assms(4) l by (fastforce simp: poke_def)
  have "contents info' = (contents info)(k := decode k v (contents info k))"
    using contents_poke [OF f l i assms(4)] by auto
  moreover have "parse_keys (Suc n) ?pkt len off info seen =
      parse_keys n ?pkt len (off + of_nat (4 + length v)) info' (insert k seen)"
  proof -
    have "\<not> unat len < unat off + 5" using assms(2,3) pos by linarith
    then show ?thesis using p i f r by (simp add: o assms(2) Let_def add.assoc)
  qed
  ultimately show ?thesis using length_poke [OF i] assms(4) by auto
qed

lemma parse_keys_all:
  assumes "\<forall>kv \<in> set kvs. wire_ok kv" "unat off = length pre" "length info = state_size"
    and "length pre + (\<Sum>(k, v) \<leftarrow> kvs. 4 + length v) \<le> unat len"
  shows "\<exists>info'. parse_keys (length kvs) (pre @ concat (map (\<lambda>(k, v). kv_bytes k v) kvs) @ suf) len off info seen =
      Some (Some (info', seen \<union> fst ` set kvs)) \<and> length info' = state_size \<and>
    contents info' = decode_all kvs (contents info)"
  using assms
proof (induction kvs arbitrary: pre off info seen)
  case Nil
  then show ?case by (simp add: decode_all_def)
next
  case (Cons kv kvs)
  obtain k v where kv: "kv = (k, v)" by fastforce
  let ?suf = "concat (map (\<lambda>(k, v). kv_bytes k v) kvs) @ suf"
  obtain info' where i: "length info' = state_size" "contents info' = (contents info)(k := decode k v (contents info k))"
    and e: "parse_keys (Suc (length kvs)) (pre @ kv_bytes k v @ ?suf) len off info seen =
      parse_keys (length kvs) (pre @ kv_bytes k v @ ?suf) len (off + of_nat (4 + length v)) info' (insert k seen)"
    using parse_keys_step [of k v off pre len info "length kvs" ?suf seen] Cons.prems kv by auto
  have o: "unat (off + of_nat (4 + length v)) = length (pre @ kv_bytes k v)"
    using unat_off [of off "4 + length v"] unat_u16 [of len] Cons.prems kv by simp
  show ?case
    using Cons.IH [where off = "off + of_nat (4 + length v)" and pre = "pre @ kv_bytes k v" and info = info'
        and seen = "insert k seen"] Cons.prems(1,4) o i e kv
    by (auto simp: decode_all_def fun_upd_def simp del: parse_keys.simps)
qed

text \<open>
  C14. Parsing a message made of any list of known keys with values of their wire lengths
  succeeds, records exactly those keys, and changes the structure as the abstract map from keys to
  field contents is updated, value after value: addresses become dotted text in their 16 bytes,
  everything else is copied; every other field keeps its bytes.
\<close>
theorem state_info_roundtrip:
  assumes "\<forall>kv \<in> set kvs. wire_ok kv" "length info = state_size"
    and "data p = Some (request_bytes kvs @ rest)" "length (request_bytes kvs) \<le> unat (data_len p)"
  shows "\<exists>info'. ParseStateInfo p info = Some (Some (info', fst ` set kvs)) \<and> length info' = state_size \<and>
    contents info' = decode_all kvs (contents info)"
proof -
  have b: "length kvs < 65536"
  proof -
    have "length kvs \<le> (\<Sum>(k, v) \<leftarrow> kvs. 4 + length v)" by (induction kvs) auto
    then show ?thesis using assms(4) unat_u16 [of "data_len p"] by (simp add: request_bytes_def)
  qed
  have r: "rd16 (request_bytes kvs @ rest) 0 = Some (of_nat (length kvs))"
    by (simp add: request_bytes_def request_with_def rd16_def peek_def)
  have "4 + (\<Sum>(k, v) \<leftarrow> kvs. 4 + length v) \<le> unat (data_len p)"
    using assms(4) by (simp add: request_bytes_def)
  then show ?thesis
    using parse_keys_all [of kvs 4 "le16 (of_nat (length kvs)) @ [0, 0]" info "data_len p" rest "{}"] assms(1-3) b r
    by (simp add: ParseStateInfo_def request_bytes_def request_with_def unat_of_nat)
qed

theorem state_info_roundtrip_witness:
  "\<exists>info'. ParseStateInfo \<lparr>protocol = 0, version = 0, seq_num = 1, cmd_id = 0x102, cmd_type = 0, sender_type = 1,
       data = Some (request_bytes [(kKeyWorkMode, [1]), (kKeyCtlHostIpCfg, [192, 168, 1, 5, 0, 1, 0, 2])] @ [0]),
       data_len = 21\<rparr> (replicate state_size 0) =
      Some (Some (info', fst ` set [(kKeyWorkMode, [1]), (kKeyCtlHostIpCfg, [192, 168, 1, 5, 0, 1, 0, 2 :: u8])])) \<and>
    length info' = state_size \<and>
    contents info' = decode_all [(kKeyWorkMode, [1]), (kKeyCtlHostIpCfg, [192, 168, 1, 5, 0, 1, 0, 2])]
      (contents (replicate state_size 0))"
  by (rule state_info_roundtrip [where rest = "[0]"])
    (simp_all add: wire_ok_def wire_length_def host_keys_def field_of_def state_fields_def request_bytes_def)

text \<open>
  C15. The length of a value is not compared with its field: a plain value of any length is
  written from the start of its field over whatever follows, and the parser leaves the structure
  exactly when the value ends beyond it.
\<close>
theorem state_value_overflow:
  assumes "field_of k = Some (a, n)" "k \<noteq> kKeyLidarIpCfg" "k \<notin> host_keys" "v \<noteq> []"
    and "data p = Some (request_bytes [(k, v)] @ rest)" "length (request_bytes [(k, v)]) \<le> unat (data_len p)"
    and "length info = state_size"
  shows "ParseStateInfo p info =
    (if a + length v \<le> state_size
     then Some (Some (take a info @ v @ drop (a + length v) info, {k})) else None)"
proof -
  let ?pkt = "request_bytes [(k, v)] @ rest"
  have l: "8 + length v \<le> unat (data_len p)" using assms(6) by (simp add: request_bytes_def)
  then have lv: "unat (of_nat (length v) :: u16) = length v" using unat_u16 [of "data_len p"] by (simp add: unat_of_nat)
  have r: "rd16 ?pkt 0 = Some 1" "rd16 ?pkt 4 = Some (key_code k)" "rd16 ?pkt 6 = Some (of_nat (length v))"
    and pk: "peek ?pkt 8 (length v) = Some v"
    by (simp_all add: request_bytes_def request_with_def kv_bytes_def rd16_def peek_def numeral_eq_Suc)
  have "parse_value k a ?pkt 8 (of_nat (length v)) info = poke info a v"
    using assms(2,3) lv pk by (auto simp: parse_value_def host_keys_def)
  moreover have "\<not> unat (data_len p) < 9" using l assms(4) by (cases v) auto
  ultimately have "ParseStateInfo p info = Option.bind (poke info a v) (\<lambda>i. Some (Some (i, {k})))"
    using assms(1,5) r by (simp add: ParseStateInfo_def)
  then show ?thesis using assms(7) by (simp add: poke_def)
qed

theorem state_value_overflow_witness:
  "ParseStateInfo \<lparr>protocol = 0, version = 0, seq_num = 1, cmd_id = 0x102, cmd_type = 0, sender_type = 1,
     data = Some (request_bytes [(kKeyRoiMode, [7, 8])] @ []), data_len = 10\<rparr> (replicate state_size 0) = None"
  using state_value_overflow [of kKeyRoiMode 439 1 "[7, 8]" "\<lparr>protocol = 0, version = 0, seq_num = 1,
     cmd_id = 0x102, cmd_type = 0, sender_type = 1, data = Some (request_bytes [(kKeyRoiMode, [7, 8])] @ []),
     data_len = 10\<rparr>" "[]" "replicate state_size 0"]
  by (simp add: field_of_def state_fields_def host_keys_def request_bytes_def state_size_def)

section \<open>The JSON text\<close>

text \<open>
  A reader of the calls, as a JSON parser reads the text they write: the stack of what is open, \<open>Top\<close>
  before the value and \<open>Closed\<close> after it, with the members and elements read so far.
\<close>

datatype json = JObject "(string \<times> json) list" | JArray "json list" | JNum int | JDouble u32 | JStr "u8 list"

datatype json_frame = Top | Closed json | InObject "(string \<times> json) list" | InMember "(string \<times> json) list" string
  | InArray "json list"

fun value_done :: "json \<Rightarrow> json_frame list \<Rightarrow> json_frame list option" where
  "value_done v (Top # st) = Some (Closed v # st)"
| "value_done v (InMember ms k # st) = Some (InObject (ms @ [(k, v)]) # st)"
| "value_done v (InArray vs # st) = Some (InArray (vs @ [v]) # st)"
| "value_done v st = None"

fun value_expected :: "json_frame list \<Rightarrow> bool" where
  "value_expected (Top # st) = True"
| "value_expected (InMember ms k # st) = True"
| "value_expected (InArray vs # st) = True"
| "value_expected st = False"

fun json_step :: "json_call \<Rightarrow> json_frame list \<Rightarrow> json_frame list option" where
  "json_step (Key s) (InObject ms # st) = Some (InMember ms s # st)"
| "json_step StartObject st = (if value_expected st then Some (InObject [] # st) else None)"
| "json_step EndObject (InObject ms # st) = value_done (JObject ms) st"
| "json_step StartArray st = (if value_expected st then Some (InArray [] # st) else None)"
| "json_step EndArray (InArray vs # st) = value_done (JArray vs) st"
| "json_step (Num n) st = value_done (JNum n) st"
| "json_step (Double w) st = value_done (JDouble w) st"
| "json_step (Str s) st = value_done (JStr s) st"
| "json_step c st = None"

fun json_run :: "json_call list \<Rightarrow> json_frame list \<Rightarrow> json_frame list option" where
  "json_run [] st = Some st"
| "json_run (c # cs) st = Option.bind (json_step c st) (json_run cs)"



fun leaf_of :: "json_call list \<Rightarrow> json option" where
  "leaf_of [Num n] = Some (JNum n)"
| "leaf_of [Double w] = Some (JDouble w)"
| "leaf_of [Str s] = Some (JStr s)"
| "leaf_of cs = None"

definition leaf_value :: "writer \<Rightarrow> nat \<Rightarrow> u8 list \<Rightarrow> json option" where
  "leaf_value w base info = Option.bind (w base info) leaf_of"






lemma those_append_option: "those (xs @ ys) = do { a \<leftarrow> those xs; b \<leftarrow> those ys; Some (a @ b) }"
proof (induction xs)
  case (Cons x xs)
  then show ?case by (cases x; cases "those xs"; cases "those ys") simp_all
qed (cases "those ys"; simp)

text \<open>The calls of writers, read in turn.\<close>

definition reads :: "writer list \<Rightarrow> nat \<Rightarrow> u8 list \<Rightarrow> json_frame list \<Rightarrow> json_frame list option" where
  "reads ws base info st = do { cs \<leftarrow> w_calls ws base info; json_run cs st }"




definition leaf_writer :: "writer \<Rightarrow> bool" where
  "leaf_writer w \<longleftrightarrow> (\<forall>base info st. reads [w] base info st =
     Option.bind (leaf_value w base info) (\<lambda>v. value_done v st))"

lemma leaf_writers [simp]:
  "leaf_writer (w_uint n off)" "leaf_writer (w_int32 off)" "leaf_writer (w_int64 off)"
  "leaf_writer (w_double off)" "leaf_writer (w_string off)" "leaf_writer w_status"
  by (auto simp: leaf_writer_def reads_def leaf_value_def w_uint_def w_int32_def w_int64_def w_double_def w_string_def
    w_status_def Let_def simp del: rd_None_iff peek_eq_None_iff
    split: Option.bind_split)













end
