(* ===== verification/Sdk_State.thy ===== *)
theory Sdk_State
  imports Sdk_Protocol Lidar_State_Info
begin

text \<open>
  The state of the command path: \<open>GeneralCommandHandler\<close> (command_handler/general_command_handler.h),
  the per-device-type handlers \<open>HapCommandHandler\<close> and \<open>Mid360CommandHandler\<close>, the part of
  \<open>DeviceManager\<close> (device_manager.h) that takes part in detection and configuration, the pending
  commands, and the operations on single fields.

  What leaves the SDK is recorded in order in \<open>out\<close>: datagrams handed to \<open>sendto\<close>, calls of the
  user's callbacks and calls into the logger components. The results of \<open>sendto\<close> are the
  parameter \<open>env\<close>: the value of the n-th call. An operation is \<open>None\<close> where the code has undefined
  behaviour or an exception is not caught.
\<close>

section \<open>Commands and callbacks\<close>

text \<open>
  A \<open>CommandCallback\<close> wraps a function and its client data: a function of the user (which may be
  null), \<open>GeneralCommandHandler::QueryFwTypeCallback\<close>, \<open>UpdateLidarCallback\<close> of the handler of a
  device type, or \<open>DeviceManager::GetLivoxLidarInternalInfoCallback\<close>.
\<close>

datatype callback = UserCallback "nat option" | QueryFwTypeCallback | UpdateLidarCallback u8
  | InternalInfoCallback

record Command =
  packet :: CommPacket
  cmd_handle :: u32
  cmd_lidar_ip :: string
  time_out :: nat
  cb :: "callback option"

definition kSdkVer_command :: u8 where "kSdkVer_command = 3"

definition default_packet :: CommPacket where
  "default_packet = \<lparr>protocol = 0, version = 0, seq_num = 0, cmd_id = 0, cmd_type = 0,
     sender_type = 0, data = None, data_len = 0\<rparr>"

definition default_command :: Command where
  "default_command = \<lparr>packet = default_packet, cmd_handle = 0, cmd_lidar_ip = [],
     time_out = KDefaultTimeOut, cb = None\<rparr>"

definition mk_command :: "u32 \<Rightarrow> u16 \<Rightarrow> CommandType \<Rightarrow> SendType \<Rightarrow> u8 list option \<Rightarrow> u16 \<Rightarrow> u32 \<Rightarrow>
    string \<Rightarrow> callback option \<Rightarrow> Command" where
  "mk_command sq cid ty sender d len handle ip c =
     \<lparr>packet = \<lparr>protocol = protocol_code kLidarSdk, version = kSdkVer_command, seq_num = sq,
        cmd_id = cid, cmd_type = command_type_code ty, sender_type = send_type_code sender,
        data = d, data_len = len\<rparr>,
      cmd_handle = handle, cmd_lidar_ip = ip, time_out = KDefaultTimeOut, cb = c\<rparr>"

section \<open>State\<close>

record DeviceInfo =
  di_sn :: "u8 list"
  di_lidar_ip :: string
  di_dev_type :: u8
  is_update_cfg :: bool
  is_get_loader_mode :: bool
  is_loader_mode :: bool
  is_callback :: bool

definition empty_device :: DeviceInfo where
  "empty_device = \<lparr>di_sn = [], di_lidar_ip = [], di_dev_type = 0, is_update_cfg = False,
     is_get_loader_mode = False, is_loader_mode = False, is_callback = False\<rparr>"

datatype handler_kind = Hap | Mid360

record CommandHandler =
  kind :: handler_kind
  h_custom_lidars :: "u32 \<rightharpoonup> LivoxLidarCfg"
  h_devices :: "u32 set"
  h_is_view :: bool

record ViewDevice =
  vd_dev_type :: u8
  vd_cmd_port :: u16
  vd_is_get :: bool
  vd_is_set :: bool

datatype sdk_output =
    Send u8 u32 "u8 list" string u16
  | SendLogger u8 u32 "u8 list" string u16
  | UserCall nat LivoxLidarStatus u32 "u8 list option"
  | LoggerAddDevice u32 DetectionData
  | DebugPointCloudAddDevice u32 DetectionData
  | InfoChange u32 "u8 list" string u8
  | PushInfo u32 u8 "json_call list"
  | CmdObserver u32 "u8 list"
  | ViewDataChannel ViewLidarIpInfo

text \<open>
  \<open>master_sdk\<close> is \<open>None\<close> when \<open>sdk_framework_cfg_ptr_\<close> is null, as after the initialisation for a
  viewer; \<open>fw_count\<close> is the static counter of \<open>QueryFwTypeCallback\<close>, \<open>seq\<close> the one of \<open>GetSeq\<close> and
  \<open>now\<close> the steady clock in milliseconds; \<open>stack_bytes\<close> is what an uninitialised local variable holds.
\<close>

record sdk_state =
  is_view :: bool
  detection_host_ip :: string
  has_device_manager :: bool
  has_comm_port :: bool
  master_sdk :: "bool option"
  custom_lidars_cfg_map :: "u32 \<rightharpoonup> LivoxLidarCfg"
  device_dev_type :: "u32 \<rightharpoonup> u8"
  devices :: "u32 \<rightharpoonup> DeviceInfo"
  lidars_command_handler :: "u8 \<rightharpoonup> CommandHandler"
  commands :: "(u32 \<times> (Command \<times> nat)) list"
  info_change_cb :: bool
  info_cb :: bool
  cmd_observer :: bool
  fw_count :: nat
  seq :: u32
  lidars_dev_type :: "u32 \<rightharpoonup> u16"
  view_devices :: "u32 \<rightharpoonup> ViewDevice"
  view_lidars_info :: "u32 \<rightharpoonup> ViewLidarIpInfo"
  now :: nat
  stack_bytes :: "u8 list"
  sends :: nat
  out :: "sdk_output list"

definition initial_state :: sdk_state where
  "initial_state = \<lparr>is_view = False, detection_host_ip = [], has_device_manager = False,
     has_comm_port = False, master_sdk = None, custom_lidars_cfg_map = Map.empty, device_dev_type = Map.empty,
     devices = Map.empty, lidars_command_handler = Map.empty, commands = [], info_change_cb = False,
     info_cb = False, cmd_observer = False, fw_count = 0, seq = 1, lidars_dev_type = Map.empty,
     view_devices = Map.empty, view_lidars_info = Map.empty, now = 0, stack_bytes = [], sends = 0, out = []\<rparr>"

definition emit :: "sdk_output \<Rightarrow> sdk_state \<Rightarrow> sdk_state" where
  "emit e s = s\<lparr>out := out s @ [e]\<rparr>"

text \<open>\<open>inet_ntoa\<close> of an address in network byte order.\<close>

definition inet_ntoa :: "u32 \<Rightarrow> string" where
  "inet_ntoa handle = dots (map unat (le32 handle))"

text \<open>\<open>GenerateSeq::GetSeq\<close>, assigned to a 16-bit variable.\<close>

definition next_seq :: "sdk_state \<Rightarrow> u16 \<times> sdk_state" where
  "next_seq s = (ucast (GetSeq (seq s)), s\<lparr>seq := GetSeq (seq s)\<rparr>)"

section \<open>Operations on the tables\<close>

definition AddCommand :: "Command \<Rightarrow> sdk_state \<Rightarrow> sdk_state" where
  "AddCommand c s =
     (if cmd_type (packet c) = command_type_code kCommandTypeAck then s
      else let p = packet c;
               p' = (if data p \<noteq> None then p\<lparr>data := None, data_len := 0\<rparr> else p)
           in s\<lparr>commands := map_put (seq_num p) (c\<lparr>packet := p'\<rparr>, now s + time_out c) (commands s)\<rparr>)"

definition GetLidarCommandHandler_type :: "u8 \<Rightarrow> sdk_state \<Rightarrow> CommandHandler option" where
  "GetLidarCommandHandler_type dev_type s = lidars_command_handler s dev_type"

definition GetLidarCommandHandler :: "u32 \<Rightarrow> sdk_state \<Rightarrow> (u8 \<times> CommandHandler) option" where
  "GetLidarCommandHandler handle s =
     (case device_dev_type s handle of
        None \<Rightarrow> None
      | Some t \<Rightarrow> map_option (Pair t) (GetLidarCommandHandler_type t s))"

definition AddDetectedLidar :: "(string \<Rightarrow> u32) \<Rightarrow> LivoxLidarCfg list \<Rightarrow> sdk_state \<Rightarrow> sdk_state" where
  "AddDetectedLidar inet_addr cfgs s = s\<lparr>custom_lidars_cfg_map :=
     foldl (\<lambda>m cfg. let ip = inet_addr (lidar_ipaddr (lidar_net_info cfg))
                    in if m ip = None then m(ip \<mapsto> cfg) else m) (custom_lidars_cfg_map s) cfgs\<rparr>"

definition UpdateFwType :: "u32 \<Rightarrow> u8 \<Rightarrow> sdk_state \<Rightarrow> sdk_state" where
  "UpdateFwType handle fw_type s =
     (case devices s handle of
        None \<Rightarrow> s
      | Some d \<Rightarrow> s\<lparr>devices := (devices s)(handle \<mapsto>
          d\<lparr>is_get_loader_mode := True, is_loader_mode := (fw_type = 0)\<rparr>)\<rparr>)"

text \<open>\<open>operator[]\<close> of the map: an unknown handle gets an entry of zeros and empty strings.\<close>

definition empty_cfg :: LivoxLidarCfg where
  "empty_cfg = \<lparr>device_type = 0,
     lidar_net_info = \<lparr>lidar_ipaddr = [], lidar_subnet_mask = [], lidar_gateway = [], lidar_cmd_data_port = 0,
       lidar_push_msg_port = 0, lidar_point_port_cfg = 0, lidar_imu_port_cfg = 0, lidar_log_port_cfg = 0\<rparr>,
     host_net_info = \<lparr>host_ip = [], multicast_ip = [], cmd_data_port = 0, push_msg_port = 0,
       point_data_port = 0, imu_data_port = 0, log_data_port = 0\<rparr>\<rparr>"

definition GetLidarCfg :: "u32 \<Rightarrow> sdk_state \<Rightarrow> LivoxLidarCfg \<times> sdk_state" where
  "GetLidarCfg handle s =
     (case custom_lidars_cfg_map s handle of
        Some c \<Rightarrow> (c, s)
      | None \<Rightarrow> (empty_cfg, s\<lparr>custom_lidars_cfg_map := (custom_lidars_cfg_map s)(handle \<mapsto> empty_cfg)\<rparr>))"

definition UpdateViewLidarCfgCallback :: "u32 \<Rightarrow> sdk_state \<Rightarrow> sdk_state" where
  "UpdateViewLidarCfgCallback handle s =
     (if is_view s
      then (case view_devices s handle of
          None \<Rightarrow> s
        | Some v \<Rightarrow> s\<lparr>view_devices := (view_devices s)(handle \<mapsto> v\<lparr>vd_is_set := True\<rparr>)\<rparr>)
      else s)"

text \<open>
  \<open>devices_[handle]\<close> creates the entry, so the check that follows it never fails. The serial number
  and the address are copied into arrays of 16 characters.
\<close>

definition LivoxLidarInfoChange :: "u32 \<Rightarrow> sdk_state \<Rightarrow> sdk_state option" where
  "LivoxLidarInfoChange handle s =
     (let d = (case devices s handle of None \<Rightarrow> empty_device | Some d \<Rightarrow> d);
          s = s\<lparr>devices := (devices s)(handle \<mapsto> d\<lparr>is_update_cfg := True, is_callback := True\<rparr>)\<rparr>
      in if 16 \<le> length (di_sn d) \<or> 16 \<le> length (di_lidar_ip d) then None
         else let s = (if has_device_manager s \<and> is_view s \<and> \<not> is_loader_mode d
                       then UpdateViewLidarCfgCallback handle s else s)
              in Some (if \<not> is_callback d \<and> info_change_cb s
                       then emit (InfoChange handle (di_sn d) (di_lidar_ip d) (di_dev_type d)) s else s))"

definition PushLivoxLidarInfo :: "u32 \<Rightarrow> json_call list \<Rightarrow> sdk_state \<Rightarrow> sdk_state" where
  "PushLivoxLidarInfo handle info s =
     (case device_dev_type s handle of
        None \<Rightarrow> s
      | Some t \<Rightarrow> if info_cb s then emit (PushInfo handle t info) s else s)"

definition hap_info_keys :: "ParamKeyName list" where
  "hap_info_keys = [kKeyPclDataType, kKeyPatternMode, kKeyDualEmitEn, kKeyPointSendEn, kKeyLidarIpCfg,
     kKeyLidarPointDataHostIpCfg, kKeyLidarImuHostIpCfg, kKeyLogHostIpCfg, kKeyInstallAttitude,
     kKeyBlindSpotSet, kKeyWorkMode, kKeyGlassHeat, kKeyImuDataEn, kKeyFusaEn, kKeyForceHeatEn,
     kKeySn, kKeyProductInfo, kKeyVersionApp, kKeyVersionLoader, kKeyVersionHardware, kKeyMac,
     kKeyCurWorkState, kKeyStatusCode, kKeyLidarDiagStatus, kKeyLidarFlashStatus, kKeyFwType,
     kKeyCurGlassHeatState]"

definition mid360_info_keys :: "ParamKeyName list" where
  "mid360_info_keys = [kKeyPclDataType, kKeyPatternMode, kKeyLidarIpCfg, kKeyStateInfoHostIpCfg,
     kKeyLidarPointDataHostIpCfg, kKeyLidarImuHostIpCfg, kKeyInstallAttitude, kKeyFovCfg0, kKeyFovCfg1,
     kKeyFovCfgEn, kKeyDetectMode, kKeyFuncIoCfg, kKeyWorkMode, kKeyImuDataEn, kKeySn, kKeyProductInfo,
     kKeyVersionApp, kKeyVersionLoader, kKeyVersionHardware, kKeyMac, kKeyCurWorkState, kKeyCoreTemp,
     kKeyPowerUpCnt, kKeyLocalTimeNow, kKeyLastSyncTime, kKeyTimeOffset, kKeyTimeSyncType,
     kKeyLidarDiagStatus, kKeyFwType, kKeyHmsCode]"

text \<open>The keys of a \<open>std::set\<close>, in its order.\<close>

definition GetQueryLidarInternalInfoKeys :: "u32 \<Rightarrow> sdk_state \<Rightarrow> ParamKeyName list option" where
  "GetQueryLidarInternalInfoKeys handle s =
     (case device_dev_type s handle of
        None \<Rightarrow> None
      | Some t \<Rightarrow>
          if t = dev_type_code kLivoxLidarTypeIndustrialHAP then Some (sort (remdups hap_info_keys))
          else if t = dev_type_code kLivoxLidarTypeMid360 then Some (sort (remdups mid360_info_keys))
          else None)"

section \<open>Key lists\<close>

text \<open>A query: the number of keys, two reserved bytes and the keys, in a zeroed request buffer.\<close>

fun put_keys :: "u8 list \<Rightarrow> nat \<Rightarrow> ParamKeyName list \<Rightarrow> (u8 list \<times> nat) option" where
  "put_keys buf off [] = Some (buf, off)"
| "put_keys buf off (k # ks) = do { b \<leftarrow> poke buf off (le16 (key_code k)); put_keys b (off + 2) ks }"

definition query_request :: "ParamKeyName list \<Rightarrow> (u8 list \<times> nat) option" where
  "query_request ks = do {
     (b, n) \<leftarrow> begin_request (replicate kMaxCommandBufferSize 0) 0 (of_nat (length ks));
     put_keys b n ks }"

section \<open>Lookups\<close>

lemma commands_AddCommand:
  "cmd_type (packet c) \<noteq> 1 \<Longrightarrow> map_of (commands (AddCommand c s)) =
     (map_of (commands s))(seq_num (packet c) \<mapsto>
       (c\<lparr>packet := if data (packet c) \<noteq> None then (packet c)\<lparr>data := None, data_len := 0\<rparr> else packet c\<rparr>,
        now s + time_out c))"
  by (simp add: AddCommand_def Let_def)

lemma put_keys_Some:
  "length pre = n \<Longrightarrow> 2 * length ks \<le> length suf \<Longrightarrow>
     put_keys (pre @ suf) n ks =
       Some (pre @ concat (map (\<lambda>k. le16 (key_code k)) ks) @ drop (2 * length ks) suf, n + 2 * length ks)"
proof (induction ks arbitrary: pre suf n)
  case (Cons k ks)
  have "poke (pre @ suf) n (le16 (key_code k)) = Some ((pre @ le16 (key_code k)) @ drop 2 suf)"
    using Cons.prems by (simp add: poke_at_length)
  moreover have "put_keys ((pre @ le16 (key_code k)) @ drop 2 suf) (n + 2) ks =
      Some ((pre @ le16 (key_code k)) @ concat (map (\<lambda>k. le16 (key_code k)) ks) @
        drop (2 * length ks) (drop 2 suf), n + 2 + 2 * length ks)"
    using Cons.prems by (intro Cons.IH) simp_all
  ultimately show ?case by (simp add: add.commute)
qed simp

text \<open>
  The parameter query that DeviceManager sends for up to 698 keys is the number of keys, two zero
  bytes and the key codes in order, in a zeroed buffer of 1400 bytes, and its length is 4 + 2 per
  key; with so many keys it never runs past the buffer.
\<close>
theorem query_request_layout:
  assumes "length ks \<le> 698"
  shows "\<exists>rest. query_request ks = Some (le16 (of_nat (length ks)) @ [0, 0] @
      concat (map (\<lambda>k. le16 (key_code k)) ks) @ rest, 4 + 2 * length ks) \<and>
    length rest = kMaxCommandBufferSize - 4 - 2 * length ks"
proof -
  have "put_keys (request_with (of_nat (length ks)) [] @ replicate 1396 0) 4 ks =
      Some (request_with (of_nat (length ks)) [] @ concat (map (\<lambda>k. le16 (key_code k)) ks) @
        drop (2 * length ks) (replicate 1396 0), 4 + 2 * length ks)"
    using assms by (intro put_keys_Some) simp_all
  then show ?thesis
    by (simp add: query_request_def begin_request_zero kMaxCommandBufferSize_def request_with_def)
qed

theorem query_request_layout_witness:
  "\<exists>rest. query_request [kKeyFwType] = Some (le16 1 @ [0, 0] @ le16 0x8010 @ rest, 6) \<and>
    length rest = kMaxCommandBufferSize - 4 - 2"
  using query_request_layout [of "[kKeyFwType]"] by simp

end
