(* ===== verification/Command_Handlers.thy ===== *)
theory Command_Handlers
  imports Sdk_State
begin

text \<open>
  The command path: the handlers of the device types (command_handler/hap_command_handler.cpp and
  mid360_command_handler.cpp), the general handler (general_command_handler.cpp) and the part of
  \<open>DeviceManager\<close> (device_manager.cpp) that it calls back.

  A callback can send again, so the operations that call one take the way callbacks are run as an
  argument of type \<open>runner\<close>; \<open>run_callback\<close> ties the knot.
\<close>

type_synonym runner = "callback \<Rightarrow> LivoxLidarStatus \<Rightarrow> u32 \<Rightarrow> u8 list option \<Rightarrow> sdk_state \<Rightarrow> sdk_state option"
type_synonym sent = "(LivoxLidarStatus \<times> sdk_state) option"

definition call_cb :: "runner \<Rightarrow> callback option \<Rightarrow> LivoxLidarStatus \<Rightarrow> u32 \<Rightarrow> u8 list option \<Rightarrow>
    sdk_state \<Rightarrow> sdk_state option" where
  "call_cb rn c st handle d s = (case c of None \<Rightarrow> Some s | Some f \<Rightarrow> rn f st handle d s)"

section \<open>Sending\<close>

text \<open>
  Packing a command into a buffer of \<open>kMaxCommandBufferSize + 1\<close> bytes and handing it to the device
  manager, the end all \<open>SendCommand\<close> methods share. When packing fails the size stays 0, and an empty
  datagram is sent.
\<close>

definition transmit :: "(nat \<Rightarrow> int) \<Rightarrow> bool \<Rightarrow> LivoxLidarDeviceType \<Rightarrow> runner \<Rightarrow> Command \<Rightarrow> u16 \<Rightarrow>
    sdk_state \<Rightarrow> sent" where
  "transmit env logger t rn c port s = do {
     (rc, buf, n) \<leftarrow> CommPort_Pack (replicate (kMaxCommandBufferSize + 1) 0)
       (of_nat kMaxCommandBufferSize) (packet c);
     let size = (case n of None \<Rightarrow> 0 | Some n \<Rightarrow> unat n);
     let s' = (emit ((if logger then SendLogger else Send) (dev_type_code t) (cmd_handle c)
         (take size buf) (cmd_lidar_ip c) port) s)\<lparr>sends := sends s + 1\<rparr>;
     if env (sends s) < 0
     then do {
       s'' \<leftarrow> call_cb rn (cb c) kLivoxLidarStatusSendFailed (cmd_handle c) None s';
       Some (kLivoxLidarStatusSendFailed, s'') }
     else Some (kLivoxLidarStatusSuccess, s')
   }"

definition Hap_SendCommand_port :: "(nat \<Rightarrow> int) \<Rightarrow> runner \<Rightarrow> Command \<Rightarrow> u16 \<Rightarrow> sdk_state \<Rightarrow> sent" where
  "Hap_SendCommand_port env rn c lidar_cmd_port s =
     (if cmd_type (packet c) = command_type_code kCommandTypeAck then Some (kLivoxLidarStatusFailure, s)
      else transmit env False kLivoxLidarTypeIndustrialHAP rn c lidar_cmd_port (AddCommand c s))"

definition Hap_SendCommand :: "(nat \<Rightarrow> int) \<Rightarrow> runner \<Rightarrow> Command \<Rightarrow> sdk_state \<Rightarrow> sent" where
  "Hap_SendCommand env rn c s =
     (if cmd_type (packet c) = command_type_code kCommandTypeAck then Some (kLivoxLidarStatusFailure, s)
      else transmit env False kLivoxLidarTypeIndustrialHAP rn c kHAPCmdPort (AddCommand c s))"

definition Hap_SendLoggerCommand :: "(nat \<Rightarrow> int) \<Rightarrow> runner \<Rightarrow> Command \<Rightarrow> sdk_state \<Rightarrow> sent" where
  "Hap_SendLoggerCommand env rn c s =
     (if cmd_type (packet c) = command_type_code kCommandTypeAck then Some (kLivoxLidarStatusFailure, s)
      else transmit env True kLivoxLidarTypeIndustrialHAP rn c kHAPLogPort (AddCommand c s))"

definition Mid360_SendCommand_port :: "(nat \<Rightarrow> int) \<Rightarrow> runner \<Rightarrow> Command \<Rightarrow> u16 \<Rightarrow> sdk_state \<Rightarrow> sent" where
  "Mid360_SendCommand_port env rn c lidar_cmd_port s =
     (if cmd_type (packet c) = command_type_code kCommandTypeAck then Some (kLivoxLidarStatusFailure, s)
      else transmit env False kLivoxLidarTypeMid360 rn c lidar_cmd_port (AddCommand c s))"

definition Mid360_SendCommand :: "(nat \<Rightarrow> int) \<Rightarrow> runner \<Rightarrow> Command \<Rightarrow> sdk_state \<Rightarrow> sent" where
  "Mid360_SendCommand env rn c s =
     (if cmd_type (packet c) = command_type_code kCommandTypeAck then Some (kLivoxLidarStatusFailure, s)
      else transmit env False kLivoxLidarTypeMid360 rn c kMid360LidarCmdPort s)"

definition Mid360_SendLoggerCommand :: "(nat \<Rightarrow> int) \<Rightarrow> runner \<Rightarrow> Command \<Rightarrow> sdk_state \<Rightarrow> sent" where
  "Mid360_SendLoggerCommand env rn c s =
     (if cmd_type (packet c) = command_type_code kCommandTypeAck then Some (kLivoxLidarStatusFailure, s)
      else transmit env True kLivoxLidarTypeMid360 rn c kMid360LidarLogPort s)"

text \<open>The virtual calls of \<open>CommandHandler\<close>.\<close>

definition handler_SendCommand :: "(nat \<Rightarrow> int) \<Rightarrow> runner \<Rightarrow> CommandHandler \<Rightarrow> Command \<Rightarrow> sdk_state \<Rightarrow> sent" where
  "handler_SendCommand env rn h c s =
     (case kind h of Hap \<Rightarrow> Hap_SendCommand env rn c s | Mid360 \<Rightarrow> Mid360_SendCommand env rn c s)"

definition handler_SendLoggerCommand :: "(nat \<Rightarrow> int) \<Rightarrow> runner \<Rightarrow> CommandHandler \<Rightarrow> Command \<Rightarrow> sdk_state \<Rightarrow> sent" where
  "handler_SendLoggerCommand env rn h c s =
     (case kind h of Hap \<Rightarrow> Hap_SendLoggerCommand env rn c s | Mid360 \<Rightarrow> Mid360_SendLoggerCommand env rn c s)"

definition SendCommand :: "(nat \<Rightarrow> int) \<Rightarrow> runner \<Rightarrow> u32 \<Rightarrow> LidarCommandID \<Rightarrow> u8 list option \<Rightarrow> u16 \<Rightarrow>
    callback option \<Rightarrow> sdk_state \<Rightarrow> sent" where
  "SendCommand env rn handle command_id d len c s =
     (let (sq, s) = next_seq s;
          command = mk_command (ucast sq) (command_id_code command_id) kCommandTypeCmd kHostSend d len
            handle (inet_ntoa handle) c
      in case GetLidarCommandHandler handle s of
           None \<Rightarrow> Some (kLivoxLidarStatusSendFailed, s)
         | Some (t, h) \<Rightarrow> do {
             (st, s) \<leftarrow> handler_SendCommand env rn h command s;
             Some (kLivoxLidarStatusSuccess, AddCommand command s) })"

definition SendLoggerCommand :: "(nat \<Rightarrow> int) \<Rightarrow> runner \<Rightarrow> u32 \<Rightarrow> LidarCommandID \<Rightarrow> u8 list option \<Rightarrow> u16 \<Rightarrow>
    callback option \<Rightarrow> sdk_state \<Rightarrow> sent" where
  "SendLoggerCommand env rn handle command_id d len c s =
     (let (sq, s) = next_seq s;
          command = mk_command (ucast sq) (command_id_code command_id) kCommandTypeCmd kHostSend d len
            handle (inet_ntoa handle) c
      in case GetLidarCommandHandler handle s of
           None \<Rightarrow> Some (kLivoxLidarStatusSendFailed, s)
         | Some (t, h) \<Rightarrow> do {
             (st, s) \<leftarrow> handler_SendLoggerCommand env rn h command s;
             Some (kLivoxLidarStatusSuccess, AddCommand command s) })"

section \<open>Handlers of the device types\<close>

definition new_handler :: "handler_kind \<Rightarrow> CommandHandler" where
  "new_handler k = \<lparr>kind = k, h_custom_lidars = Map.empty, h_devices = {}, h_is_view = False\<rparr>"

definition kind_type :: "handler_kind \<Rightarrow> LivoxLidarDeviceType" where
  "kind_type k = (case k of Hap \<Rightarrow> kLivoxLidarTypeIndustrialHAP | Mid360 \<Rightarrow> kLivoxLidarTypeMid360)"

definition handler_Init_view :: "bool \<Rightarrow> CommandHandler \<Rightarrow> CommandHandler" where
  "handler_Init_view v h = h\<lparr>h_is_view := v\<rparr>"

definition handler_Init :: "(u32 \<rightharpoonup> LivoxLidarCfg) \<Rightarrow> CommandHandler \<Rightarrow> CommandHandler" where
  "handler_Init cfgs h = h\<lparr>h_custom_lidars := (\<lambda>ip.
     case h_custom_lidars h ip of
       Some cfg \<Rightarrow> Some cfg
     | None \<Rightarrow> (case cfgs ip of
         Some cfg \<Rightarrow> if device_type cfg = dev_type_code (kind_type (kind h)) then Some cfg else None
       | None \<Rightarrow> None))\<rparr>"

definition Hap_SetViewLidar :: "(nat \<Rightarrow> int) \<Rightarrow> runner \<Rightarrow> ViewLidarIpInfo \<Rightarrow> sdk_state \<Rightarrow> sdk_state option" where
  "Hap_SetViewLidar env rn info s = do {
     (ok, b, n) \<leftarrow> BuildUpdateViewLidarCfgRequest info (replicate kMaxCommandBufferSize 0) 0;
     if \<not> ok then Some s
     else do {
       let (sq, s) = next_seq s;
       (st, s) \<leftarrow> Hap_SendCommand_port env rn (mk_command (ucast sq)
         (command_id_code kCommandIDLidarWorkModeControl) kCommandTypeCmd kHostSend (Some b) (of_nat n)
         (view_handle info) (inet_ntoa (view_handle info))
         (Some (UpdateLidarCallback (dev_type_code kLivoxLidarTypeIndustrialHAP)))) (view_lidar_cmd_port info) s;
       Some s } }"

definition Hap_SetCustomLidar :: "(nat \<Rightarrow> int) \<Rightarrow> runner \<Rightarrow> u32 \<Rightarrow> u16 \<Rightarrow> LivoxLidarCfg \<Rightarrow> sdk_state \<Rightarrow>
    sdk_state option" where
  "Hap_SetCustomLidar env rn handle port cfg s = do {
     (ok, b, n) \<leftarrow> BuildUpdateLidarCfgRequest cfg (replicate kMaxCommandBufferSize 0) 0;
     if \<not> ok then Some s
     else do {
       let (sq, s) = next_seq s;
       (st, s) \<leftarrow> Hap_SendCommand_port env rn (mk_command (ucast sq)
         (command_id_code kCommandIDLidarWorkModeControl) kCommandTypeCmd kHostSend (Some b) (of_nat n)
         handle (inet_ntoa handle)
         (Some (UpdateLidarCallback (dev_type_code kLivoxLidarTypeIndustrialHAP)))) port s;
       Some s } }"

definition Mid360_SetViewLidar :: "(nat \<Rightarrow> int) \<Rightarrow> runner \<Rightarrow> ViewLidarIpInfo \<Rightarrow> sdk_state \<Rightarrow> sdk_state option" where
  "Mid360_SetViewLidar env rn info s = do {
     (ok, b, n) \<leftarrow> BuildUpdateViewLidarCfgRequest info (replicate kMaxCommandBufferSize 0) 0;
     if \<not> ok then Some s
     else do {
       let (sq, s) = next_seq s;
       (st, s) \<leftarrow> Mid360_SendCommand_port env rn (mk_command (ucast sq)
         (command_id_code kCommandIDLidarWorkModeControl) kCommandTypeCmd kHostSend (Some b) (of_nat n)
         (view_handle info) (inet_ntoa (view_handle info))
         (Some (UpdateLidarCallback (dev_type_code kLivoxLidarTypeMid360)))) (view_lidar_cmd_port info) s;
       Some s } }"

definition Mid360_SetCustomLidar :: "(nat \<Rightarrow> int) \<Rightarrow> runner \<Rightarrow> u32 \<Rightarrow> u16 \<Rightarrow> LivoxLidarCfg \<Rightarrow> sdk_state \<Rightarrow>
    sdk_state option" where
  "Mid360_SetCustomLidar env rn handle port cfg s = do {
     (ok, b, n) \<leftarrow> BuildUpdateMid360LidarCfgRequest cfg (replicate kMaxCommandBufferSize 0) 0;
     if \<not> ok then Some s
     else do {
       let (sq, s) = next_seq s;
       (st, s) \<leftarrow> Mid360_SendCommand_port env rn (mk_command (ucast sq)
         (command_id_code kCommandIDLidarWorkModeControl) kCommandTypeCmd kHostSend (Some b) (of_nat n)
         handle (inet_ntoa handle)
         (Some (UpdateLidarCallback (dev_type_code kLivoxLidarTypeMid360)))) port s;
       Some s } }"

definition handler_UpdateLidarCfg_view :: "(nat \<Rightarrow> int) \<Rightarrow> runner \<Rightarrow> CommandHandler \<Rightarrow> ViewLidarIpInfo \<Rightarrow>
    sdk_state \<Rightarrow> sdk_state option" where
  "handler_UpdateLidarCfg_view env rn h info s =
     (if view_handle info \<in> h_devices h then Some s
      else case kind h of Hap \<Rightarrow> Hap_SetViewLidar env rn info s | Mid360 \<Rightarrow> Mid360_SetViewLidar env rn info s)"

definition handler_UpdateLidarCfg :: "(nat \<Rightarrow> int) \<Rightarrow> runner \<Rightarrow> CommandHandler \<Rightarrow> u32 \<Rightarrow> u16 \<Rightarrow>
    sdk_state \<Rightarrow> sdk_state option" where
  "handler_UpdateLidarCfg env rn h handle port s =
     (if handle \<in> h_devices h then Some s
      else case h_custom_lidars h handle of
          None \<Rightarrow> Some s
        | Some cfg \<Rightarrow> (case kind h of Hap \<Rightarrow> Hap_SetCustomLidar env rn handle port cfg s
                               | Mid360 \<Rightarrow> Mid360_SetCustomLidar env rn handle port cfg s))"

definition handler_AddDevice :: "u8 \<Rightarrow> u32 \<Rightarrow> sdk_state \<Rightarrow> sdk_state option" where
  "handler_AddDevice t handle s =
     (case lidars_command_handler s t of
        None \<Rightarrow> None
      | Some h \<Rightarrow> Some (s\<lparr>lidars_command_handler := (lidars_command_handler s)
          (t \<mapsto> h\<lparr>h_devices := insert handle (h_devices h)\<rparr>)\<rparr>))"

text \<open>
  \<open>Hap\<close> reports the lidar also when the device refused the configuration, \<open>Mid360\<close> does not.
\<close>

definition UpdateLidarCallback_fun :: "u8 \<Rightarrow> LivoxLidarStatus \<Rightarrow> u32 \<Rightarrow> u8 list option \<Rightarrow> sdk_state \<Rightarrow>
    sdk_state option" where
  "UpdateLidarCallback_fun t st handle response s =
     (if st \<noteq> kLivoxLidarStatusSuccess then Some s
      else case response of
          None \<Rightarrow> Some s
        | Some r \<Rightarrow> do {
            ret_code \<leftarrow> rd8 r 0;
            error_key \<leftarrow> rd16 r 1;
            if ret_code = 0 \<and> error_key = 0
            then do { s \<leftarrow> handler_AddDevice t handle s; LivoxLidarInfoChange handle s }
            else if t = dev_type_code kLivoxLidarTypeIndustrialHAP then LivoxLidarInfoChange handle s
            else Some s })"

definition handler_OnCommandAck :: "runner \<Rightarrow> u32 \<Rightarrow> Command \<Rightarrow> sdk_state \<Rightarrow> sdk_state option" where
  "handler_OnCommandAck rn handle c s =
     (case cb c of
        None \<Rightarrow> Some s
      | Some f \<Rightarrow> (if data (packet c) = None then rn f kLivoxLidarStatusTimeout handle None s
                  else rn f kLivoxLidarStatusSuccess handle (data (packet c)) s))"

definition push_msg_port_of :: "handler_kind \<Rightarrow> u16" where
  "push_msg_port_of k = (case k of Hap \<Rightarrow> kHAPPushMsgPort | Mid360 \<Rightarrow> kMid360LidarPushMsgPort)"

definition handler_OnCommandCmd :: "handler_kind \<Rightarrow> u32 \<Rightarrow> u16 \<Rightarrow> Command \<Rightarrow> sdk_state \<Rightarrow>
    sdk_state option" where
  "handler_OnCommandCmd k handle lidar_port c s =
     (if cmd_id (packet c) = command_id_code kCommandIDLidarPushMsg \<and> lidar_port = push_msg_port_of k
      then do {
        (ok, info) \<leftarrow> Parse (stack_bytes s) (packet c);
        Some (PushLivoxLidarInfo handle info s) }
      else Some s)"

definition handler_Handle :: "runner \<Rightarrow> CommandHandler \<Rightarrow> u32 \<Rightarrow> u16 \<Rightarrow> Command \<Rightarrow> sdk_state \<Rightarrow>
    sdk_state option" where
  "handler_Handle rn h handle lidar_port c s =
     (if cmd_type (packet c) = command_type_code kCommandTypeAck then handler_OnCommandAck rn handle c s
      else if cmd_type (packet c) = command_type_code kCommandTypeCmd
      then handler_OnCommandCmd (kind h) handle lidar_port c s else Some s)"

end
