(* ===== verification/General_Handler.thy ===== *)
theory General_Handler
  imports Command_Handlers
begin

text \<open>
  \<open>GeneralCommandHandler\<close> (command_handler/general_command_handler.cpp) with the callbacks of
  \<open>DeviceManager\<close> (device_manager.cpp): received packets, detection, queries of the firmware type,
  acknowledgements and timeouts.
\<close>

section \<open>The viewer's side of the device manager\<close>

definition UpdateLidarCfg_view :: "(nat \<Rightarrow> int) \<Rightarrow> runner \<Rightarrow> ViewLidarIpInfo \<Rightarrow> sdk_state \<Rightarrow>
    sdk_state option" where
  "UpdateLidarCfg_view env rn info s =
     (case GetLidarCommandHandler_type (view_dev_type info) s of
        None \<Rightarrow> Some s
      | Some h \<Rightarrow> do {
          master \<leftarrow> master_sdk s;
          if master then handler_UpdateLidarCfg_view env rn h info s else Some s })"

definition UpdateLidarCfg :: "(nat \<Rightarrow> int) \<Rightarrow> runner \<Rightarrow> u8 \<Rightarrow> u32 \<Rightarrow> u16 \<Rightarrow> sdk_state \<Rightarrow> sdk_state option" where
  "UpdateLidarCfg env rn dev_type handle lidar_cmd_port s =
     (case GetLidarCommandHandler_type dev_type s of
        None \<Rightarrow> Some s
      | Some h \<Rightarrow> do {
          master \<leftarrow> master_sdk s;
          if master then handler_UpdateLidarCfg env rn h handle lidar_cmd_port s else Some s })"

text \<open>
  The loop over the keys of a response: the counter is a byte, so it does not end for more than 255
  keys.
\<close>

fun view_ports :: "nat \<Rightarrow> u8 list \<Rightarrow> nat \<Rightarrow> ViewLidarIpInfo \<Rightarrow> ViewLidarIpInfo option" where
  "view_ports 0 d off info = Some info"
| "view_ports (Suc n) d off info = do {
     key \<leftarrow> rd16 d off;
     len \<leftarrow> rd16 d (off + 2);
     info \<leftarrow> (if key = key_code kKeyLidarPointDataHostIpCfg then do {
         hp \<leftarrow> rd16 d (off + 8); lp \<leftarrow> rd16 d (off + 10);
         Some (info\<lparr>view_host_point_port := hp, view_lidar_point_port := lp\<rparr>) }
       else if key = key_code kKeyLidarImuHostIpCfg then do {
         hp \<leftarrow> rd16 d (off + 8); lp \<leftarrow> rd16 d (off + 10);
         Some (info\<lparr>view_host_imu_data_port := hp, view_lidar_imu_data_port := lp\<rparr>) }
       else Some info);
     view_ports n d ((off + 4 + unat len) mod 65536) info }"

definition AddViewLidar :: "(nat \<Rightarrow> int) \<Rightarrow> runner \<Rightarrow> u32 \<Rightarrow> u8 list option \<Rightarrow> sdk_state \<Rightarrow>
    sdk_state option" where
  "AddViewLidar env rn handle response s =
     (case response of
        None \<Rightarrow> Some s
      | Some r \<Rightarrow> do {
          ret_code \<leftarrow> rd8 r 0;
          if ret_code \<noteq> 0 then Some s
          else case view_devices s handle of
              None \<Rightarrow> Some s
            | Some v \<Rightarrow>
                if vd_is_get v then Some s
                else do {
                  param_num \<leftarrow> rd16 r 1;
                  if 255 < param_num then None else do {
                  info \<leftarrow> view_ports (unat param_num) (drop 3 r) 0
                    \<lparr>view_handle = handle, view_dev_type = vd_dev_type v, view_host_ip = detection_host_ip s,
                     view_lidar_cmd_port = vd_cmd_port v, view_lidar_point_port = 0,
                     view_lidar_imu_data_port = 0, view_host_point_port = 0, view_host_imu_data_port = 0\<rparr>;
                  let info = (if view_dev_type info = dev_type_code kLivoxLidarTypeMid360
                    then info\<lparr>view_lidar_point_port := kMid360LidarPointCloudPort,
                              view_lidar_imu_data_port := kMid360LidarImuDataPort\<rparr> else info);
                  let s = emit (ViewDataChannel info) s;
                  UpdateLidarCfg_view env rn info
                    (s\<lparr>view_lidars_info := (view_lidars_info s)(handle \<mapsto> info),
                       view_devices := (view_devices s)(handle \<mapsto> v\<lparr>vd_is_get := True\<rparr>)\<rparr>) }
                } })"

definition GetLivoxLidarInternalInfoCallback :: "(nat \<Rightarrow> int) \<Rightarrow> runner \<Rightarrow> LivoxLidarStatus \<Rightarrow> u32 \<Rightarrow>
    u8 list option \<Rightarrow> sdk_state \<Rightarrow> sdk_state option" where
  "GetLivoxLidarInternalInfoCallback env rn st handle response s =
     (if st \<noteq> kLivoxLidarStatusSuccess then Some s else AddViewLidar env rn handle response s)"

section \<open>Callbacks and the firmware type\<close>

definition QueryFwType :: "(nat \<Rightarrow> int) \<Rightarrow> runner \<Rightarrow> u32 \<Rightarrow> sdk_state \<Rightarrow> sdk_state option" where
  "QueryFwType env rn handle s = do {
     (b, n) \<leftarrow> query_request [kKeyFwType];
     (st, s) \<leftarrow> SendCommand env rn handle kCommandIDLidarGetInternalInfo (Some b) (of_nat n)
       (Some QueryFwTypeCallback) s;
     Some s }"

text \<open>The callback with the retry \<open>again\<close>.\<close>

definition QueryFwTypeCallback_fun :: "(u32 \<Rightarrow> sdk_state \<Rightarrow> sdk_state option) \<Rightarrow> LivoxLidarStatus \<Rightarrow>
    u32 \<Rightarrow> u8 list option \<Rightarrow> sdk_state \<Rightarrow> sdk_state option" where
  "QueryFwTypeCallback_fun again st handle response s =
     (let retry = again handle (s\<lparr>fw_count := fw_count s + 1\<rparr>)
      in if 10 < fw_count s then Some ((UpdateFwType handle 1 s)\<lparr>fw_count := 0\<rparr>)
      else if st \<noteq> kLivoxLidarStatusSuccess then retry
      else case response of
          None \<Rightarrow> retry
        | Some r \<Rightarrow> do {
            ret_code \<leftarrow> rd8 r 0;
            if ret_code \<noteq> 0 then retry else do {
            key \<leftarrow> rd16 r 3;
            if key \<noteq> key_code kKeyFwType then retry else do {
            len \<leftarrow> rd16 r 5;
            if len \<noteq> 1 then retry else do {
            fw_type \<leftarrow> rd8 r 7;
            Some (UpdateFwType handle fw_type (s\<lparr>fw_count := 0\<rparr>)) }}}})"

text \<open>
  Callbacks by the depth of the sends below them: those that send nothing, then
  \<open>InternalInfoCallback\<close>, whose send has an \<open>UpdateLidarCallback\<close>, then the query of the firmware
  type, which on a failed send calls itself. Every such call increments the counter, so a depth of
  12 is enough.
\<close>

definition run_simple :: runner where
  "run_simple c st handle d s =
     (case c of
        UserCallback f \<Rightarrow> Some (case f of None \<Rightarrow> s | Some i \<Rightarrow> emit (UserCall i st handle d) s)
      | UpdateLidarCallback t \<Rightarrow> UpdateLidarCallback_fun t st handle d s
      | _ \<Rightarrow> None)"

fun run_callback :: "(nat \<Rightarrow> int) \<Rightarrow> nat \<Rightarrow> runner" where
  "run_callback env depth InternalInfoCallback st handle d s =
     GetLivoxLidarInternalInfoCallback env run_simple st handle d s"
| "run_callback env 0 QueryFwTypeCallback st handle d s = None"
| "run_callback env (Suc depth) QueryFwTypeCallback st handle d s =
     QueryFwTypeCallback_fun (QueryFwType env (run_callback env depth)) st handle d s"
| "run_callback env depth c st handle d s = run_simple c st handle d s"

definition runner_of :: "(nat \<Rightarrow> int) \<Rightarrow> runner" where
  "runner_of env = run_callback env 13"

definition GetFirmwareType :: "(nat \<Rightarrow> int) \<Rightarrow> u32 \<Rightarrow> DeviceInfo \<Rightarrow> sdk_state \<Rightarrow> sdk_state option" where
  "GetFirmwareType env handle d s =
     (if \<not> has_device_manager s then None else do {
        master \<leftarrow> master_sdk s;
        if \<not> master \<or> is_get_loader_mode d then Some s
        else QueryFwType env (runner_of env) handle s })"

section \<open>Initialisation\<close>

definition Init_view :: "string \<Rightarrow> bool \<Rightarrow> sdk_state \<Rightarrow> sdk_state" where
  "Init_view host v s = s\<lparr>is_view := v, detection_host_ip := host, has_device_manager := True,
     has_comm_port := True\<rparr>"

definition Init_cfg :: "(string \<Rightarrow> u32) \<Rightarrow> LivoxLidarCfg list \<Rightarrow> sdk_state \<Rightarrow> sdk_state" where
  "Init_cfg inet_addr cfgs s =
     (let s = (if \<not> has_comm_port s
               then s\<lparr>is_view := False, has_device_manager := True, has_comm_port := True\<rparr> else s);
          ensure = (\<lambda>k m. if m (dev_type_code (kind_type k)) = None
                         then m(dev_type_code (kind_type k) \<mapsto> new_handler k) else m)
      in AddDetectedLidar inet_addr cfgs
           (s\<lparr>lidars_command_handler := ensure Mid360 (ensure Hap (lidars_command_handler s))\<rparr>))"

text \<open>
  \<open>Destory\<close> clears local variables named like the pending commands and their lock, not the members.
\<close>

definition Destory :: "sdk_state \<Rightarrow> sdk_state" where
  "Destory s = s\<lparr>has_device_manager := False, has_comm_port := False, device_dev_type := Map.empty,
     devices := Map.empty, lidars_command_handler := Map.empty, info_change_cb := False,
     detection_host_ip := [], is_view := False\<rparr>"

text \<open>
  Without a viewer the handler must exist: for a PA no handler is ever created, and the entry that
  \<open>lidars_command_handler_[dev_type]\<close> creates is null.
\<close>

definition CreateCommandHandler :: "u8 \<Rightarrow> sdk_state \<Rightarrow> sdk_state option" where
  "CreateCommandHandler dev_type s =
     (if \<not> is_view s
      then if dev_type \<in> {dev_type_code kLivoxLidarTypeIndustrialHAP, dev_type_code kLivoxLidarTypeMid360,
                         dev_type_code kLivoxLidarTypePA}
           then do {
             h \<leftarrow> lidars_command_handler s dev_type;
             Some (s\<lparr>lidars_command_handler := (lidars_command_handler s)
               (dev_type \<mapsto> handler_Init (custom_lidars_cfg_map s) h)\<rparr>) }
           else Some s
      else if lidars_command_handler s dev_type \<noteq> None then Some s
      else if dev_type = dev_type_code kLivoxLidarTypeIndustrialHAP
      then Some (s\<lparr>lidars_command_handler := (lidars_command_handler s)
             (dev_type \<mapsto> handler_Init_view True (new_handler Hap))\<rparr>)
      else if dev_type = dev_type_code kLivoxLidarTypeMid360
      then Some (s\<lparr>lidars_command_handler := (lidars_command_handler s)
             (dev_type \<mapsto> handler_Init_view True (new_handler Mid360))\<rparr>)
      else Some s)"

section \<open>Detection\<close>

definition cstring :: "u8 list \<Rightarrow> u8 list option" where
  "cstring bs = (if 0 \<in> set bs then Some (takeWhile (\<lambda>b. b \<noteq> 0) bs) else None)"

definition detection_of :: "u8 list \<Rightarrow> DetectionData option" where
  "detection_of d = do {
     ret \<leftarrow> rd8 d 0;
     ty \<leftarrow> rd8 d 1;
     sn \<leftarrow> peek d 2 16;
     ip \<leftarrow> peek d 18 4;
     port \<leftarrow> rd16 d 22;
     Some \<lparr>det_ret_code = ret, det_dev_type = ty, det_sn = sn, det_lidar_ip = ip, det_cmd_port = port\<rparr> }"

definition VerifyNetSegment :: "DetectionData \<Rightarrow> sdk_state \<Rightarrow> bool option" where
  "VerifyNetSegment det s =
     (if \<not> is_view s then Some True
      else if detection_host_ip s = [] then Some False
      else case IpToU8 (detection_host_ip s) ''.'' of
          Inl e \<Rightarrow> None
        | Inr None \<Rightarrow> Some False
        | Inr (Some v) \<Rightarrow> Some (take 3 v = take 3 (det_lidar_ip det)))"

definition QueryLivoxLidarInternalInfo :: "(nat \<Rightarrow> int) \<Rightarrow> runner \<Rightarrow> u32 \<Rightarrow> callback \<Rightarrow> sdk_state \<Rightarrow> sent" where
  "QueryLivoxLidarInternalInfo env rn handle c s =
     (case GetQueryLidarInternalInfoKeys handle s of
        None \<Rightarrow> Some (kLivoxLidarStatusInvalidHandle, s)
      | Some keys \<Rightarrow> do {
          (b, n) \<leftarrow> query_request keys;
          SendCommand env rn handle kCommandIDLidarGetInternalInfo (Some b) (of_nat n) (Some c) s })"

text \<open>What a viewer does next with a lidar: query its configuration, or set it.\<close>

definition view_step :: "(nat \<Rightarrow> int) \<Rightarrow> u32 \<Rightarrow> ViewDevice \<Rightarrow> bool \<Rightarrow> bool \<Rightarrow> sdk_state \<Rightarrow>
    sdk_state option" where
  "view_step env handle v is_get is_load s =
     (if \<not> vd_is_get v \<and> is_get \<and> \<not> is_load
      then map_option snd (QueryLivoxLidarInternalInfo env (runner_of env) handle InternalInfoCallback s)
      else if is_get \<and> \<not> is_load \<and> \<not> vd_is_set v
      then (case view_lidars_info s handle of
          None \<Rightarrow> Some s
        | Some info \<Rightarrow> UpdateLidarCfg_view env (runner_of env) info s)
      else Some s)"

definition DeviceManager_HandleDetectionData :: "(nat \<Rightarrow> int) \<Rightarrow> u32 \<Rightarrow> DetectionData \<Rightarrow> bool \<Rightarrow> bool \<Rightarrow>
    sdk_state \<Rightarrow> sdk_state option" where
  "DeviceManager_HandleDetectionData env handle det is_get is_load s =
     (let report = (\<lambda>s. if is_get \<and> is_load then LivoxLidarInfoChange handle s else Some s)
      in if handle = 0 then Some s
      else if is_view s
      then do {
        let v = (case view_devices s handle of
            Some v \<Rightarrow> v
          | None \<Rightarrow> \<lparr>vd_dev_type = det_dev_type det, vd_cmd_port = det_cmd_port det,
                     vd_is_get = False, vd_is_set = False\<rparr>);
        s \<leftarrow> view_step env handle v is_get is_load
          (s\<lparr>view_devices := (view_devices s)(handle \<mapsto> v)\<rparr>);
        report s }
      else case lidars_dev_type s handle of
          Some t \<Rightarrow> if t \<noteq> ucast (det_dev_type det) then Some s else report s
        | None \<Rightarrow> report
            (s\<lparr>lidars_dev_type := (lidars_dev_type s)(handle \<mapsto> ucast (det_dev_type det))\<rparr>))"

text \<open>A detected lidar that is known already, and a new one.\<close>

definition detected_known :: "(nat \<Rightarrow> int) \<Rightarrow> u32 \<Rightarrow> DetectionData \<Rightarrow> DeviceInfo \<Rightarrow> sdk_state \<Rightarrow>
    sdk_state option" where
  "detected_known env handle det dev s = do {
     s \<leftarrow> (if \<not> is_update_cfg dev \<and> is_get_loader_mode dev \<and> \<not> is_loader_mode dev \<and> \<not> is_view s
          then UpdateLidarCfg env (runner_of env) (det_dev_type det) handle (det_cmd_port det) s
          else Some s);
     if has_device_manager s
     then do {
       dev \<leftarrow> devices s handle;
       DeviceManager_HandleDetectionData env handle det (is_get_loader_mode dev) (is_loader_mode dev) s }
     else Some s }"

definition detected_new :: "(nat \<Rightarrow> int) \<Rightarrow> u32 \<Rightarrow> DetectionData \<Rightarrow> u8 list \<Rightarrow> sdk_state \<Rightarrow>
    sdk_state option" where
  "detected_new env handle det sn s =
     (let s = (if device_dev_type s handle = None
               then s\<lparr>device_dev_type := (device_dev_type s)(handle \<mapsto> det_dev_type det)\<rparr> else s);
          dev = empty_device\<lparr>di_sn := sn, di_lidar_ip := dots (map unat (det_lidar_ip det)),
            di_dev_type := det_dev_type det\<rparr>
      in GetFirmwareType env handle dev (s\<lparr>devices := (devices s)(handle \<mapsto> dev)\<rparr>))"

definition detected :: "(nat \<Rightarrow> int) \<Rightarrow> u32 \<Rightarrow> DetectionData \<Rightarrow> u8 list \<Rightarrow> sdk_state \<Rightarrow>
    sdk_state option" where
  "detected env handle det sn s = do {
     same_net \<leftarrow> VerifyNetSegment det s;
     if \<not> same_net then Some s else do {
     s \<leftarrow> CreateCommandHandler (det_dev_type det) s;
     case devices s handle of
       Some dev \<Rightarrow> detected_known env handle det dev s
     | None \<Rightarrow> detected_new env handle det sn s } }"

definition HandleDetectionData :: "(nat \<Rightarrow> int) \<Rightarrow> u32 \<Rightarrow> CommPacket \<Rightarrow> sdk_state \<Rightarrow> sdk_state option" where
  "HandleDetectionData env handle p s =
     (case data p of None \<Rightarrow> Some s | Some d \<Rightarrow>
      if data_len p = 0 then Some s else do {
      ret_code \<leftarrow> rd8 d 0;
      if ret_code \<noteq> 0 then Some s else do {
      det \<leftarrow> detection_of d;
      sn \<leftarrow> cstring (drop 2 d);
      detected env handle det sn
        (emit (DebugPointCloudAddDevice handle det) (emit (LoggerAddDevice handle det) s)) }})"

section \<open>Received packets\<close>

definition is_detection :: "u16 \<Rightarrow> CommPacket \<Rightarrow> bool" where
  "is_detection lidar_port p \<longleftrightarrow>
     lidar_port = kDetectionPort \<and> cmd_id p = command_id_code kCommandIDLidarSearch"

text \<open>\<open>Handler\<close> of a packet whose device type is not known; \<open>buf\<close> is the received datagram.\<close>

definition Handler :: "(nat \<Rightarrow> int) \<Rightarrow> u32 \<Rightarrow> u16 \<Rightarrow> u8 list \<Rightarrow> u32 \<Rightarrow> sdk_state \<Rightarrow> sdk_state option" where
  "Handler env handle lidar_port buf buf_size s =
     (if buf_size = 0 then Some s
      else if \<not> has_comm_port s then None
      else do {
        parsed \<leftarrow> ParseCommStream buf buf_size;
        case parsed of None \<Rightarrow> Some s | Some p \<Rightarrow>
          if is_detection lidar_port p
          then if cmd_type p = command_type_code kCommandTypeCmd then Some s
               else HandleDetectionData env handle p s
          else if cmd_type p = command_type_code kCommandTypeAck
          then (case map_of (commands s) (seq_num p) of
              None \<Rightarrow> Some s
            | Some (c, t) \<Rightarrow>
                call_cb (runner_of env) (cb c) kLivoxLidarStatusSuccess handle (data p)
                  (s\<lparr>commands := map_del (seq_num p) (commands s)\<rparr>))
          else if cmd_id p = command_id_code kCommandIDLidarPushMsg
          then (case GetLidarCommandHandler handle s of
              None \<Rightarrow> Some s
            | Some (t, h) \<Rightarrow> handler_Handle (runner_of env) h handle lidar_port
                (default_command\<lparr>packet := p\<rparr>) s)
          else Some s })"

text \<open>\<open>Handler\<close> of a packet of a lidar of known type.\<close>

definition Handler_typed :: "(nat \<Rightarrow> int) \<Rightarrow> u8 \<Rightarrow> u32 \<Rightarrow> u16 \<Rightarrow> u8 list \<Rightarrow> u32 \<Rightarrow> sdk_state \<Rightarrow>
    sdk_state option" where
  "Handler_typed env dev_type handle lidar_port buf buf_size s =
     (if buf_size = 0 then Some s
      else let s = (if cmd_observer s then emit (CmdObserver handle buf) s else s) in
      if dev_type = dev_type_code kLivoxLidarTypePA \<and> lidar_port = kPaLidarFaultPort
      then (case GetLidarCommandHandler_type dev_type s of
          None \<Rightarrow> Some s
        | Some h \<Rightarrow> handler_Handle (runner_of env) h handle lidar_port
            (default_command\<lparr>packet := default_packet\<lparr>data := Some buf, data_len := ucast buf_size\<rparr>\<rparr>) s)
      else if \<not> has_comm_port s then None
      else do {
        parsed \<leftarrow> ParseCommStream buf buf_size;
        case parsed of None \<Rightarrow> Some s | Some p \<Rightarrow>
          if is_detection lidar_port p
          then if cmd_type p = command_type_code kCommandTypeCmd then Some s
               else HandleDetectionData env handle p s
          else case GetLidarCommandHandler_type dev_type s of
              None \<Rightarrow> Some s
            | Some h \<Rightarrow>
                if cmd_type p = command_type_code kCommandTypeAck
                then let sq = ucast (ucast (seq_num p) :: u16) in
                  (case map_of (commands s) sq of
                     None \<Rightarrow> handler_Handle (runner_of env) h handle lidar_port default_command s
                   | Some (c, t) \<Rightarrow> handler_Handle (runner_of env) h handle lidar_port (c\<lparr>packet := p\<rparr>)
                       (s\<lparr>commands := map_del sq (commands s)\<rparr>))
                else if cmd_type p = command_type_code kCommandTypeCmd
                then handler_Handle (runner_of env) h handle lidar_port
                  (default_command\<lparr>packet := p, cmd_handle := handle\<rparr>) s
                else handler_Handle (runner_of env) h handle lidar_port default_command s })"

section \<open>Timeouts\<close>

fun run_timeouts :: "(nat \<Rightarrow> int) \<Rightarrow> Command list \<Rightarrow> sdk_state \<Rightarrow> sdk_state option" where
  "run_timeouts env [] s = Some s"
| "run_timeouts env (c # cs) s = do {
     s \<leftarrow> call_cb (runner_of env) (cb c) kLivoxLidarStatusTimeout (cmd_handle c) (data (packet c)) s;
     run_timeouts env cs s }"

definition CommandsHandle :: "(nat \<Rightarrow> int) \<Rightarrow> nat \<Rightarrow> sdk_state \<Rightarrow> sdk_state option" where
  "CommandsHandle env t s =
     run_timeouts env (map (\<lambda>(k, c, d). c) (filter (\<lambda>(k, c, d). d < t) (commands s)))
       (s\<lparr>commands := filter (\<lambda>(k, c, d). \<not> d < t) (commands s)\<rparr>)"

definition LivoxLidarRequestReset :: "(nat \<Rightarrow> int) \<Rightarrow> u32 \<Rightarrow> callback \<Rightarrow> u8 list \<Rightarrow> sdk_state \<Rightarrow> sent" where
  "LivoxLidarRequestReset env handle c junk s =
     (case devices s handle of
        None \<Rightarrow> Some (kLivoxLidarStatusChannelNotExist, s)
      | Some d \<Rightarrow>
          if 16 < length (di_sn d) then Some (kLivoxLidarStatusChannelNotExist, s)
          else do {
            req \<leftarrow> poke (take 16 junk) 0 (di_sn d);
            SendCommand env (runner_of env) handle kCommandIDLidarResetDevice (Some req) 16 (Some c) s })"

end
