(* ===== verification/Handler_Invariant.thy ===== *)
theory Handler_Invariant
  imports General_Handler
begin

text \<open>
  The invariant of the command path and that every operation of the general handler keeps it, with
  callbacks run to any depth.
\<close>

section \<open>The invariant\<close>

text \<open>
  Pending commands are sorted by sequence number, each is stored under its own number, is a command
  and not an acknowledgement and keeps no pointer to its data; a handler is of its device type.
\<close>

definition pending_ok :: "u32 \<times> (Command \<times> nat) \<Rightarrow> bool" where
  "pending_ok e = (case e of (k, c, t) \<Rightarrow>
     k = seq_num (packet c) \<and> data (packet c) = None \<and> cmd_type (packet c) = 0 \<and> 0 < k \<and> k < 65536)"

definition sdk_wf :: "sdk_state \<Rightarrow> bool" where
  "sdk_wf s \<longleftrightarrow> keys_sorted (commands s) \<and> (\<forall>e \<in> set (commands s). pending_ok e) \<and>
     fw_count s \<le> 11 \<and> 1 \<le> unat (seq s) \<and> unat (seq s) \<le> 65535 \<and>
     (\<forall>t h. lidars_command_handler s t = Some h \<longrightarrow> t = dev_type_code (kind_type (kind h)))"

definition keeps :: "(sdk_state \<Rightarrow> sdk_state option) \<Rightarrow> bool" where
  "keeps f \<longleftrightarrow> (\<forall>s s'. sdk_wf s \<longrightarrow> f s = Some s' \<longrightarrow> sdk_wf s')"

definition keeps_sent :: "(sdk_state \<Rightarrow> sent) \<Rightarrow> bool" where
  "keeps_sent f \<longleftrightarrow> (\<forall>s st s'. sdk_wf s \<longrightarrow> f s = Some (st, s') \<longrightarrow> sdk_wf s')"

definition good_runner :: "runner \<Rightarrow> bool" where
  "good_runner rn \<longleftrightarrow> (\<forall>c st h d. keeps (rn c st h d))"

definition good_command :: "Command \<Rightarrow> bool" where
  "good_command c \<longleftrightarrow> cmd_type (packet c) = 0 \<and> 0 < seq_num (packet c) \<and> seq_num (packet c) < 65536"

named_theorems keeps_intros \<open>operations that keep the invariant\<close>

lemma keepsI: "(\<And>s s'. sdk_wf s \<Longrightarrow> f s = Some s' \<Longrightarrow> sdk_wf s') \<Longrightarrow> keeps f"
  by (simp add: keeps_def)

lemma keepsD: "keeps f \<Longrightarrow> sdk_wf s \<Longrightarrow> f s = Some s' \<Longrightarrow> sdk_wf s'"
  by (simp add: keeps_def)

lemma keeps_sentI: "(\<And>s st s'. sdk_wf s \<Longrightarrow> f s = Some (st, s') \<Longrightarrow> sdk_wf s') \<Longrightarrow> keeps_sent f"
  by (simp add: keeps_sent_def)

lemma keeps_sentD: "keeps_sent f \<Longrightarrow> sdk_wf s \<Longrightarrow> f s = Some (st, s') \<Longrightarrow> sdk_wf s'"
  by (simp add: keeps_sent_def)

lemma good_runnerD: "good_runner rn \<Longrightarrow> sdk_wf s \<Longrightarrow> rn c st h d s = Some s' \<Longrightarrow> sdk_wf s'"
  by (simp add: good_runner_def keeps_def)

text \<open>Fields the invariant does not read.\<close>

lemma wf_upd [simp]:
  "sdk_wf (s\<lparr>is_view := a\<rparr>) = sdk_wf s" "sdk_wf (s\<lparr>detection_host_ip := b\<rparr>) = sdk_wf s"
  "sdk_wf (s\<lparr>has_device_manager := a\<rparr>) = sdk_wf s" "sdk_wf (s\<lparr>has_comm_port := a\<rparr>) = sdk_wf s"
  "sdk_wf (s\<lparr>custom_lidars_cfg_map := d\<rparr>) = sdk_wf s" "sdk_wf (s\<lparr>device_dev_type := e\<rparr>) = sdk_wf s"
  "sdk_wf (s\<lparr>devices := f\<rparr>) = sdk_wf s" "sdk_wf (s\<lparr>info_change_cb := a\<rparr>) = sdk_wf s"
  "sdk_wf (s\<lparr>lidars_dev_type := g\<rparr>) = sdk_wf s" "sdk_wf (s\<lparr>view_devices := h\<rparr>) = sdk_wf s"
  "sdk_wf (s\<lparr>view_lidars_info := i\<rparr>) = sdk_wf s" "sdk_wf (s\<lparr>now := n\<rparr>) = sdk_wf s" "sdk_wf (s\<lparr>sends := n\<rparr>) = sdk_wf s"
  "sdk_wf (s\<lparr>out := j\<rparr>) = sdk_wf s" "sdk_wf (s\<lparr>master_sdk := m\<rparr>) = sdk_wf s" "sdk_wf (s\<lparr>info_cb := a\<rparr>) = sdk_wf s"
  "sdk_wf (s\<lparr>cmd_observer := a\<rparr>) = sdk_wf s" "sdk_wf (s\<lparr>stack_bytes := j'\<rparr>) = sdk_wf s"
  by (simp_all add: sdk_wf_def)

lemma wf_emit [simp]: "sdk_wf (emit e s) = sdk_wf s"
  by (simp add: emit_def)

lemma wf_commands_filter: "sdk_wf s \<Longrightarrow> sdk_wf (s\<lparr>commands := filter P (commands s)\<rparr>)"
  by (simp add: sdk_wf_def keys_sorted_filter)

lemma wf_commands_del: "sdk_wf s \<Longrightarrow> sdk_wf (s\<lparr>commands := map_del k (commands s)\<rparr>)"
  unfolding map_del_def by (rule wf_commands_filter)

lemma wf_fw_count: "sdk_wf s \<Longrightarrow> n \<le> 11 \<Longrightarrow> sdk_wf (s\<lparr>fw_count := n\<rparr>)"
  by (simp add: sdk_wf_def)

lemma wf_handler:
  "sdk_wf s \<Longrightarrow> t = dev_type_code (kind_type (kind h)) \<Longrightarrow>
     sdk_wf (s\<lparr>lidars_command_handler := (lidars_command_handler s)(t \<mapsto> h)\<rparr>)"
  by (simp add: sdk_wf_def)

lemma wf_AddCommand: "sdk_wf s \<Longrightarrow> good_command c \<Longrightarrow> sdk_wf (AddCommand c s)"
proof -
  assume s: "sdk_wf s" and c: "good_command c"
  let ?p = "packet c"
  let ?c = "c\<lparr>packet := if data ?p \<noteq> None then ?p\<lparr>data := None, data_len := 0\<rparr> else ?p\<rparr>"
  have e: "pending_ok (seq_num ?p, ?c, now s + time_out c)"
    using c by (auto simp: good_command_def pending_ok_def)
  have "set (map_put (seq_num ?p) (?c, now s + time_out c) (commands s)) \<subseteq>
      insert (seq_num ?p, ?c, now s + time_out c) (set (commands s))"
    by (rule map_put_set)
  with e s have "sdk_wf (s\<lparr>commands := map_put (seq_num ?p) (?c, now s + time_out c) (commands s)\<rparr>)"
    by (auto simp: sdk_wf_def keys_sorted_put)
  then show ?thesis using c by (simp add: AddCommand_def Let_def good_command_def)
qed

lemma next_seq_ok:
  assumes "sdk_wf s" "next_seq s = (sq, s')"
  shows "sdk_wf s'" "0 < (ucast sq :: u32)" "(ucast sq :: u32) < 65536"
proof -
  let ?g = "GetSeq (seq s)"
  have "unat ((GetSeq ^^ 1) (seq s)) = (unat (seq s) - 1 + 1) mod 65535 + 1"
    using assms(1) by (intro GetSeq_iterate) (simp_all add: sdk_wf_def)
  then have u: "unat ?g = unat (seq s) mod 65535 + 1" using assms(1) by (simp add: sdk_wf_def)
  then have r: "1 \<le> unat ?g" "unat ?g \<le> 65535"
    using mod_less_divisor [of 65535 "unat (seq s)"] by simp_all
  then show "sdk_wf s'" using assms by (auto simp: next_seq_def sdk_wf_def)
  have "sq = ucast ?g" using assms(2) by (simp add: next_seq_def)
  moreover have "unat (ucast ?g :: u16) = unat ?g"
    using r by (simp add: unsigned_ucast_eq take_bit_nat_eq_self)
  ultimately have "unat (ucast sq :: u32) = unat ?g" by simp
  then show "0 < (ucast sq :: u32)" "(ucast sq :: u32) < 65536"
    using r by (simp_all add: word_less_nat_alt)
qed

lemma good_mk_command:
  "0 < sq \<Longrightarrow> sq < 65536 \<Longrightarrow> good_command (mk_command sq cid kCommandTypeCmd sd d n h ip c)"
  by (simp add: good_command_def mk_command_def)

lemma wf_UpdateFwType [simp]: "sdk_wf (UpdateFwType h fw s) = sdk_wf s"
  by (simp add: UpdateFwType_def split: option.splits)

lemma wf_UpdateViewLidarCfgCallback [simp]: "sdk_wf (UpdateViewLidarCfgCallback h s) = sdk_wf s"
  by (simp add: UpdateViewLidarCfgCallback_def split: option.splits)

lemma wf_PushLivoxLidarInfo [simp]: "sdk_wf (PushLivoxLidarInfo h p s) = sdk_wf s"
  by (simp add: PushLivoxLidarInfo_def split: option.splits)

lemma keeps_LivoxLidarInfoChange [keeps_intros]: "keeps (LivoxLidarInfoChange h)"
  by (rule keepsI) (auto simp: LivoxLidarInfoChange_def Let_def split: if_splits)

lemma keeps_handler_AddDevice [keeps_intros]: "keeps (handler_AddDevice t h)"
  by (rule keepsI) (auto simp: handler_AddDevice_def sdk_wf_def split: option.splits if_splits)

lemma keeps_UpdateLidarCallback_fun [keeps_intros]: "keeps (UpdateLidarCallback_fun t st h d)"
  by (rule keepsI)
    (auto simp: UpdateLidarCallback_fun_def split: if_splits option.splits Option.bind_splits
      dest: keepsD [OF keeps_LivoxLidarInfoChange] keepsD [OF keeps_handler_AddDevice])

lemma good_run_simple: "good_runner run_simple"
  unfolding good_runner_def
  by (auto simp: run_simple_def keeps_def split: callback.splits option.splits
      dest: keepsD [OF keeps_UpdateLidarCallback_fun])

lemma keeps_call_cb: "good_runner rn \<Longrightarrow> keeps (call_cb rn c st h d)"
  by (rule keepsI) (auto simp: call_cb_def split: option.splits dest: good_runnerD)

lemma keeps_transmit: "good_runner rn \<Longrightarrow> keeps_sent (transmit env l t rn c port)"
  by (rule keeps_sentI)
    (auto simp: transmit_def Let_def split: if_splits prod.splits Option.bind_splits
      dest!: keepsD [OF keeps_call_cb, rotated -1])


lemma keeps_sent_after:
  "keeps_sent f \<Longrightarrow> sdk_wf s \<Longrightarrow> f s = Some r \<Longrightarrow> sdk_wf (snd r)"
  by (cases r) (simp add: keeps_sentD)

lemma handler_sends_keep:
  assumes "good_runner rn" "good_command c"
  shows "keeps_sent (Hap_SendCommand_port env rn c port)" "keeps_sent (Hap_SendCommand env rn c)"
    "keeps_sent (Hap_SendLoggerCommand env rn c)" "keeps_sent (Mid360_SendCommand_port env rn c port)"
    "keeps_sent (Mid360_SendCommand env rn c)" "keeps_sent (Mid360_SendLoggerCommand env rn c)"
proof -
  have t: "sdk_wf s'" if "transmit env l t rn c port s = Some (st, s')" "sdk_wf s" for l t port s st s'
    by (rule keeps_sentD [OF keeps_transmit [OF assms(1)] that(2,1)])
  have a: "sdk_wf s'" if "transmit env l t rn c port (AddCommand c s) = Some (st, s')" "sdk_wf s"
    for l t port s st s'
    by (rule t [OF that(1) wf_AddCommand [OF that(2) assms(2)]])
  have na: "cmd_type (packet c) = 0"
    using assms(2) by (simp add: good_command_def)
  show "keeps_sent (Hap_SendCommand_port env rn c port)" "keeps_sent (Hap_SendCommand env rn c)"
    "keeps_sent (Hap_SendLoggerCommand env rn c)" "keeps_sent (Mid360_SendCommand_port env rn c port)"
    "keeps_sent (Mid360_SendCommand env rn c)" "keeps_sent (Mid360_SendLoggerCommand env rn c)"
    by (rule keeps_sentI; auto simp: na Hap_SendCommand_port_def Hap_SendCommand_def
        Hap_SendLoggerCommand_def Mid360_SendCommand_port_def Mid360_SendCommand_def
        Mid360_SendLoggerCommand_def dest: a t)+
qed

lemma keeps_handler_SendCommand:
  assumes "good_runner rn" "good_command c"
  shows "keeps_sent (handler_SendCommand env rn h c)" "keeps_sent (handler_SendLoggerCommand env rn h c)"
proof -
  note k = handler_sends_keep [OF assms]
  show "keeps_sent (handler_SendCommand env rn h c)"
    by (rule keeps_sentI, cases "kind h")
      (auto simp: handler_SendCommand_def dest: keeps_sentD [OF k(2)] keeps_sentD [OF k(5)])
  show "keeps_sent (handler_SendLoggerCommand env rn h c)"
    by (rule keeps_sentI, cases "kind h")
      (auto simp: handler_SendLoggerCommand_def dest: keeps_sentD [OF k(3)] keeps_sentD [OF k(6)])
qed

lemma keeps_SendCommand:
  assumes rn: "good_runner rn"
  shows "keeps_sent (SendCommand env rn handle cid d n c)"
    "keeps_sent (SendLoggerCommand env rn handle cid d n c)"
proof -
  have *: "sdk_wf s'" if s: "sdk_wf s" and f: "\<And>h c. good_command c \<Longrightarrow> keeps_sent (f h c)"
    and r: "(let (sq, s) = next_seq s;
          command = mk_command (ucast sq) (command_id_code cid) kCommandTypeCmd kHostSend d n
            handle (inet_ntoa handle) c
      in case GetLidarCommandHandler handle s of
           None \<Rightarrow> Some (kLivoxLidarStatusSendFailed, s)
         | Some (t, h) \<Rightarrow> do {
             (st, s) \<leftarrow> f h command s;
             Some (kLivoxLidarStatusSuccess, AddCommand command s) }) = Some (st, s')"
    for s st s' and f :: "CommandHandler \<Rightarrow> Command \<Rightarrow> sdk_state \<Rightarrow> sent"
  proof -
    obtain sq s1 where n: "next_seq s = (sq, s1)" by fastforce
    note ok = next_seq_ok [OF s n]
    let ?c = "mk_command (ucast sq) (command_id_code cid) kCommandTypeCmd kHostSend d n handle (inet_ntoa handle) c"
    have g: "good_command ?c" using ok by (intro good_mk_command)
    show ?thesis
      using r ok(1) keeps_sentD [OF f [OF g] ok(1)] wf_AddCommand [OF _ g]
      by (auto simp: n Let_def split: option.splits Option.bind_splits prod.splits)
  qed
  show "keeps_sent (SendCommand env rn handle cid d n c)"
    by (rule keeps_sentI, rule * [where f = "handler_SendCommand env rn"])
      (simp_all add: SendCommand_def keeps_handler_SendCommand [OF rn])
  show "keeps_sent (SendLoggerCommand env rn handle cid d n c)"
    by (rule keeps_sentI, rule * [where f = "handler_SendLoggerCommand env rn"])
      (simp_all add: SendLoggerCommand_def keeps_handler_SendCommand [OF rn])
qed

lemma keeps_QueryFwType: "good_runner rn \<Longrightarrow> keeps (QueryFwType env rn h)"
  by (rule keepsI)
    (auto simp: QueryFwType_def split: Option.bind_splits prod.splits dest: keeps_sentD [OF keeps_SendCommand(1)])

lemma keeps_QueryFwTypeCallback:
  assumes "\<And>h. keeps (again h)"
  shows "keeps (QueryFwTypeCallback_fun again st h d)"
proof (rule keepsI)
  fix s s' assume s: "sdk_wf s" and r: "QueryFwTypeCallback_fun again st h d s = Some s'"
  have f: "sdk_wf (s\<lparr>fw_count := 0\<rparr>)" using s by (intro wf_fw_count) simp_all
  have again: "sdk_wf s'" if "again h (s\<lparr>fw_count := fw_count s + 1\<rparr>) = Some s'" "\<not> 10 < fw_count s"
    using that(2) by (intro keepsD [OF assms _ that(1)] wf_fw_count [OF s]) simp
  have "sdk_wf ((UpdateFwType h 1 s)\<lparr>fw_count := 0\<rparr>)" using s by (intro wf_fw_count) simp_all
  with r f again show "sdk_wf s'"
    by (auto simp: QueryFwTypeCallback_fun_def Let_def split: if_splits option.splits Option.bind_splits)
qed

lemma keeps_set_lidar:
  assumes "good_runner rn"
  shows "keeps (Hap_SetViewLidar env rn info)" "keeps (Hap_SetCustomLidar env rn handle port cfg)"
    "keeps (Mid360_SetViewLidar env rn info)" "keeps (Mid360_SetCustomLidar env rn handle port cfg)"
  by (rule keepsI; clarsimp simp: Hap_SetViewLidar_def Hap_SetCustomLidar_def Mid360_SetViewLidar_def
        Mid360_SetCustomLidar_def split: Option.bind_splits prod.splits if_splits;
      (assumption | erule keeps_sentD [OF handler_sends_keep(1) [OF assms], rotated -1]
        | erule keeps_sentD [OF handler_sends_keep(4) [OF assms], rotated -1]);
      (rule good_mk_command | assumption)?;
      (erule (1) next_seq_ok)?)+


lemma keeps_UpdateLidarCfg:
  assumes "good_runner rn"
  shows "keeps (UpdateLidarCfg_view env rn info)" "keeps (UpdateLidarCfg env rn t h port)"
  by (rule keepsI; auto simp: UpdateLidarCfg_view_def UpdateLidarCfg_def handler_UpdateLidarCfg_view_def
        handler_UpdateLidarCfg_def split: option.splits Option.bind_splits if_splits handler_kind.splits
      dest: keepsD [OF keeps_set_lidar(1) [OF assms]] keepsD [OF keeps_set_lidar(2) [OF assms]]
        keepsD [OF keeps_set_lidar(3) [OF assms]] keepsD [OF keeps_set_lidar(4) [OF assms]])+

lemma keeps_AddViewLidar: "good_runner rn \<Longrightarrow> keeps (AddViewLidar env rn h r)"
  by (rule keepsI)
    (auto simp: AddViewLidar_def Let_def split: option.splits Option.bind_splits if_splits
      dest!: keepsD [OF keeps_UpdateLidarCfg(1), rotated -1])

lemma keeps_run_callback_step:
  assumes q: "keeps (run_callback env d QueryFwTypeCallback st h x)"
  shows "keeps (run_callback env d c st h x)"
proof (cases c)
  case QueryFwTypeCallback
  then show ?thesis using q by simp
next
  case InternalInfoCallback
  show ?thesis
    by (rule keepsI)
      (use InternalInfoCallback keepsD [OF keeps_AddViewLidar [OF good_run_simple]] in
        \<open>auto simp: GetLivoxLidarInternalInfoCallback_def split: if_splits\<close>)
next
  case (UserCallback f)
  show ?thesis by (rule keepsI) (use UserCallback good_runnerD [OF good_run_simple] in auto)
next
  case (UpdateLidarCallback t)
  show ?thesis by (rule keepsI) (use UpdateLidarCallback good_runnerD [OF good_run_simple] in auto)
qed

lemma good_run_callback: "good_runner (run_callback env d)"
proof (induction d)
  case 0
  have "keeps (run_callback env 0 QueryFwTypeCallback st h x)" for st h x
    by (rule keepsI) simp
  then show ?case by (simp add: good_runner_def keeps_run_callback_step)
next
  case (Suc d)
  have "keeps (run_callback env (Suc d) QueryFwTypeCallback st h x)" for st h x
    by (rule keepsI) (use keepsD [OF keeps_QueryFwTypeCallback [OF keeps_QueryFwType [OF Suc]]] in auto)
  then show ?case by (simp add: good_runner_def keeps_run_callback_step)
qed

lemma good_runner_of: "good_runner (runner_of env)"
  unfolding runner_of_def by (rule good_run_callback)

lemma keeps_GetFirmwareType: "keeps (GetFirmwareType env h d)"
  by (rule keepsI) (auto simp: GetFirmwareType_def split: if_splits Option.bind_splits
      dest: keepsD [OF keeps_QueryFwType [OF good_runner_of]])

lemma wf_Init [simp]: "sdk_wf s \<Longrightarrow> sdk_wf (Init_view host v s)"
  "sdk_wf s \<Longrightarrow> sdk_wf (Init_cfg ia cfgs s)"
proof -
  assume s: "sdk_wf s"
  show "sdk_wf (Init_view host v s)" using s by (simp add: Init_view_def sdk_wf_def)
  show "sdk_wf (Init_cfg ia cfgs s)"
    using s by (auto simp: Init_cfg_def AddDetectedLidar_def Let_def sdk_wf_def new_handler_def split: if_splits)
qed

lemma wf_Destory [simp]: "sdk_wf s \<Longrightarrow> sdk_wf (Destory s)"
  by (simp add: Destory_def sdk_wf_def)

lemma kind_handler_Init [simp]: "kind (handler_Init m h) = kind h" "kind (handler_Init_view v h) = kind h"
  by (simp_all add: handler_Init_def handler_Init_view_def)

lemma keeps_CreateCommandHandler: "keeps (CreateCommandHandler t)"
proof (rule keepsI)
  fix s s' assume s: "sdk_wf s" and r: "CreateCommandHandler t s = Some s'"
  have "sdk_wf (s\<lparr>lidars_command_handler := (lidars_command_handler s)
      (t \<mapsto> handler_Init (custom_lidars_cfg_map s) h)\<rparr>)" if "lidars_command_handler s t = Some h" for h
    using s that by (intro wf_handler) (auto simp: sdk_wf_def)
  moreover have "sdk_wf (s\<lparr>lidars_command_handler := (lidars_command_handler s)
      (t \<mapsto> handler_Init_view True (new_handler k))\<rparr>)" if "t = dev_type_code (kind_type k)" for k
    using s that by (intro wf_handler) (simp_all add: new_handler_def)
  from this [of Hap] this [of Mid360] calculation show "sdk_wf s'"
    using s r by (auto simp: CreateCommandHandler_def kind_type_def split: if_splits Option.bind_splits)
qed

lemma keeps_QueryInternalInfo: "good_runner rn \<Longrightarrow> keeps_sent (QueryLivoxLidarInternalInfo env rn h c)"
  by (rule keeps_sentI)
    (auto simp: QueryLivoxLidarInternalInfo_def split: option.splits Option.bind_splits prod.splits
      dest: keeps_sentD [OF keeps_SendCommand(1)])

lemma keeps_view_step: "keeps (view_step env h v g l)"
  by (rule keepsI)
    (auto simp: view_step_def split: if_splits option.splits
      dest: keeps_sentD [OF keeps_QueryInternalInfo [OF good_runner_of]]
        keepsD [OF keeps_UpdateLidarCfg(1) [OF good_runner_of]])

lemma keeps_DeviceManager_HandleDetectionData: "keeps (DeviceManager_HandleDetectionData env h det g l)"
proof (rule keepsI)
  fix s s' assume s: "sdk_wf s" and r: "DeviceManager_HandleDetectionData env h det g l s = Some s'"
  have report: "sdk_wf s'" if "sdk_wf s1"
      "(if g \<and> l then LivoxLidarInfoChange h s1 else Some s1) = Some s'" for s1
    using that keepsD [OF keeps_LivoxLidarInfoChange] by (auto split: if_splits)
  consider "s' = s" | s1 v where "view_step env h v g l (s\<lparr>view_devices := (view_devices s)(h \<mapsto> v)\<rparr>) = Some s1"
      "(if g \<and> l then LivoxLidarInfoChange h s1 else Some s1) = Some s'"
    | s1 where "sdk_wf s1" "(if g \<and> l then LivoxLidarInfoChange h s1 else Some s1) = Some s'"
  proof (cases "h = 0 \<or> is_view s")
    case True
    show thesis
    proof (cases "h = 0")
      case True
      then show thesis using r that(1) by (simp add: DeviceManager_HandleDetectionData_def)
    next
      case False
      then show thesis
        using r True that(2)
        unfolding DeviceManager_HandleDetectionData_def Let_def by (auto simp: bind_eq_Some_conv)
    qed
  next
    case False
    show thesis
    proof (cases "lidars_dev_type s h")
      case None
      have "(if g \<and> l then LivoxLidarInfoChange h
          (s\<lparr>lidars_dev_type := (lidars_dev_type s)(h \<mapsto> ucast (det_dev_type det))\<rparr>)
          else Some (s\<lparr>lidars_dev_type := (lidars_dev_type s)(h \<mapsto> ucast (det_dev_type det))\<rparr>)) = Some s'"
        using r False None by (simp add: DeviceManager_HandleDetectionData_def Let_def)
      then show thesis by (rule that(3) [rotated]) (use s in simp)
    next
      case (Some t)
      show thesis
      proof (cases "t = ucast (det_dev_type det)")
        case True
        then have "(if g \<and> l then LivoxLidarInfoChange h s else Some s) = Some s'"
          using r False Some by (simp add: DeviceManager_HandleDetectionData_def Let_def)
        then show thesis by (rule that(3) [OF s])
      next
        case nt: False
        then show thesis
          using r False Some by (intro that(1)) (simp add: DeviceManager_HandleDetectionData_def Let_def)
      qed
    qed
  qed
  then show "sdk_wf s'"
  proof cases
    case (2 s1 v)
    have "sdk_wf (s\<lparr>view_devices := (view_devices s)(h \<mapsto> v)\<rparr>)" using s by simp
    then have "sdk_wf s1" using 2(1) keepsD [OF keeps_view_step] by blast
    then show ?thesis using 2(2) by (rule report)
  qed (use s report in blast)+
qed

lemma keeps_detected_known: "keeps (detected_known env h det dev)"
proof (rule keepsI)
  fix s s' assume s: "sdk_wf s" and r: "detected_known env h det dev s = Some s'"
  from r obtain s1 where s1: "s1 = s \<or> UpdateLidarCfg env (runner_of env) (det_dev_type det) h (det_cmd_port det) s = Some s1"
    and r1: "s' = s1 \<or> (\<exists>g l. DeviceManager_HandleDetectionData env h det g l s1 = Some s')"
    by (auto simp: detected_known_def split: if_splits Option.bind_splits)
  from s1 have "sdk_wf s1"
    using s keepsD [OF keeps_UpdateLidarCfg(2) [OF good_runner_of] s] by blast
  then show "sdk_wf s'"
    using r1 keepsD [OF keeps_DeviceManager_HandleDetectionData] by blast
qed

lemma keeps_detected_new: "keeps (detected_new env h det sn)"
  by (rule keepsI) (auto simp: detected_new_def Let_def elim!: keepsD [OF keeps_GetFirmwareType, rotated -1])

lemma keeps_detected: "keeps (detected env h det sn)"
proof (rule keepsI)
  fix s s' assume s: "sdk_wf s" and r: "detected env h det sn s = Some s'"
  then obtain ok where "VerifyNetSegment det s = Some ok"
    by (auto simp: detected_def split: Option.bind_splits)
  then consider "s' = s" | s1 where "CreateCommandHandler (det_dev_type det) s = Some s1"
      "(case devices s1 h of Some dev \<Rightarrow> detected_known env h det dev s1
        | None \<Rightarrow> detected_new env h det sn s1) = Some s'"
    using r by (cases ok; cases "CreateCommandHandler (det_dev_type det) s") (simp_all add: detected_def)
  then show "sdk_wf s'"
  proof cases
    case 2
    have "sdk_wf s1" by (rule keepsD [OF keeps_CreateCommandHandler s 2(1)])
    with 2(2) show ?thesis
      by (cases "devices s1 h") (auto dest: keepsD [OF keeps_detected_new] keepsD [OF keeps_detected_known])
  qed (use s in simp)
qed

lemma keeps_HandleDetectionData: "keeps (HandleDetectionData env h p)"
  by (rule keepsI)
    (auto simp: HandleDetectionData_def split: if_splits option.splits Option.bind_splits
      elim!: keepsD [OF keeps_detected, rotated -1])

lemma keeps_handler_Handle: "keeps (handler_Handle (runner_of env) hh h port c)"
  by (rule keepsI)
    (auto simp: handler_Handle_def handler_OnCommandAck_def handler_OnCommandCmd_def
      split: if_splits option.splits Option.bind_splits dest: good_runnerD [OF good_runner_of])

lemma keeps_Handler: "keeps (Handler env h port buf n)"
  by (rule keepsI)
    (auto simp: Handler_def wf_commands_del split: if_splits option.splits Option.bind_splits
      dest: keepsD [OF keeps_HandleDetectionData] keepsD [OF keeps_handler_Handle]
      dest!: keepsD [OF keeps_call_cb [OF good_runner_of], rotated -1])

lemma keeps_Handler_typed: "keeps (Handler_typed env t h port buf n)"
  by (rule keepsI)
    (auto simp: Handler_typed_def Let_def wf_commands_del split: if_splits option.splits Option.bind_splits
      dest!: keepsD [OF keeps_HandleDetectionData, rotated -1] keepsD [OF keeps_handler_Handle, rotated -1])

lemma keeps_run_timeouts: "keeps (run_timeouts env cs)"
  by (induction cs)
    (auto simp: keeps_def split: Option.bind_splits dest: keepsD [OF keeps_call_cb [OF good_runner_of]])

lemma keeps_CommandsHandle: "keeps (CommandsHandle env t)"
  by (rule keepsI) (auto simp: CommandsHandle_def
      dest!: keepsD [OF keeps_run_timeouts, rotated -1] intro: wf_commands_filter)

end
