(* ===== verification/Handler_Properties.thy ===== *)
theory Handler_Properties
  imports Handler_Invariant
begin

text \<open>
  The command path as an event-driven machine, and what its users rely on: every reachable state
  satisfies the invariant, what becomes of a command that is sent, acknowledged or times out, how
  often the query of the firmware type is repeated, and which detections the code cannot survive.
\<close>

section \<open>The machine\<close>

datatype sdk_event =
    EvInitView string bool
  | EvInitCfg "LivoxLidarCfg list" bool
  | EvDestory
  | EvPacket u32 u16 "u8 list" u32
  | EvTypedPacket u8 u32 u16 "u8 list" u32
  | EvTimer
  | EvClock nat
  | EvCreateHandler u8
  | EvSend u32 LidarCommandID "u8 list" callback
  | EvSendLogger u32 LidarCommandID "u8 list" callback
  | EvQueryInfo u32 callback
  | EvReset u32 callback "u8 list"
  | EvUpdateView ViewLidarIpInfo
  | EvInfoChange u32
  | EvSetCallbacks bool bool bool
  | EvStack "u8 list"

definition sdk_step :: "(nat \<Rightarrow> int) \<Rightarrow> (string \<Rightarrow> u32) \<Rightarrow> sdk_event \<Rightarrow> sdk_state \<Rightarrow> sdk_state option" where
  "sdk_step env ia e s =
     (case e of
        EvInitView host v \<Rightarrow> Some (Init_view host v s)
      | EvInitCfg cfgs master \<Rightarrow> Some (Init_cfg ia cfgs (s\<lparr>master_sdk := Some master\<rparr>))
      | EvDestory \<Rightarrow> Some (Destory s)
      | EvPacket h port buf n \<Rightarrow> Handler env h port buf n s
      | EvTypedPacket t h port buf n \<Rightarrow> Handler_typed env t h port buf n s
      | EvTimer \<Rightarrow> CommandsHandle env (now s) s
      | EvClock d \<Rightarrow> Some (s\<lparr>now := now s + d\<rparr>)
      | EvCreateHandler t \<Rightarrow> CreateCommandHandler t s
      | EvSend h cid d c \<Rightarrow>
          map_option snd (SendCommand env (runner_of env) h cid (Some d) (of_nat (length d)) (Some c) s)
      | EvSendLogger h cid d c \<Rightarrow>
          map_option snd (SendLoggerCommand env (runner_of env) h cid (Some d) (of_nat (length d)) (Some c) s)
      | EvQueryInfo h c \<Rightarrow> map_option snd (QueryLivoxLidarInternalInfo env (runner_of env) h c s)
      | EvReset h c junk \<Rightarrow> map_option snd (LivoxLidarRequestReset env h c junk s)
      | EvUpdateView info \<Rightarrow> UpdateLidarCfg_view env (runner_of env) info s
      | EvInfoChange h \<Rightarrow> LivoxLidarInfoChange h s
      | EvSetCallbacks a b c \<Rightarrow> Some (s\<lparr>info_change_cb := a, info_cb := b, cmd_observer := c\<rparr>)
      | EvStack b \<Rightarrow> Some (s\<lparr>stack_bytes := b\<rparr>))"

definition sdk_run :: "(nat \<Rightarrow> int) \<Rightarrow> (string \<Rightarrow> u32) \<Rightarrow> sdk_event list \<Rightarrow> sdk_state option" where
  "sdk_run env ia es = run (\<lambda>e so. Option.bind so (sdk_step env ia e)) es (Some initial_state)"

lemma keeps_Reset: "keeps_sent (LivoxLidarRequestReset env h c junk)"
  by (rule keeps_sentI)
    (auto simp: LivoxLidarRequestReset_def split: option.splits if_splits Option.bind_splits
      dest: keeps_sentD [OF keeps_SendCommand(1) [OF good_runner_of]])

lemma keeps_sdk_step: "keeps (sdk_step env ia e)"
proof (rule keepsI)
  fix s s' assume s: "sdk_wf s" and r: "sdk_step env ia e s = Some s'"
  note k = keepsD [OF keeps_Handler s] keepsD [OF keeps_Handler_typed s] keepsD [OF keeps_CommandsHandle s]
    keepsD [OF keeps_CreateCommandHandler s] keeps_sentD [OF keeps_SendCommand(1) [OF good_runner_of] s]
    keeps_sentD [OF keeps_SendCommand(2) [OF good_runner_of] s]
    keeps_sentD [OF keeps_QueryInternalInfo [OF good_runner_of] s] keeps_sentD [OF keeps_Reset s]
    keepsD [OF keeps_UpdateLidarCfg(1) [OF good_runner_of] s] keepsD [OF keeps_LivoxLidarInfoChange s]
  show "sdk_wf s'"
    using r s by (cases e) (auto simp: sdk_step_def dest: k)
qed

lemma wf_initial_state: "sdk_wf initial_state"
  by (simp add: sdk_wf_def initial_state_def)

interpretation sdk: machine "Some initial_state" "\<lambda>e so. Option.bind so (sdk_step env ia e)"
    "\<lambda>so. \<forall>s. so = Some s \<longrightarrow> sdk_wf s" for env ia
  by unfold_locales
    (auto simp: wf_initial_state split: Option.bind_splits dest: keepsD [OF keeps_sdk_step])

text \<open>
  C3. Every state the SDK reaches by initialisation, packets, sends, clock ticks, timers and user
  calls satisfies the invariant: the pending commands are strictly ordered by a 16-bit sequence
  number, each is stored under its own number with no data pointer left in it, every handler
  serves the device type it is registered for, and the firmware-query counter is within its bound.
\<close>
theorem reachable_wf:
  assumes "sdk_run env ia es = Some s"
  shows "sdk_wf s"
  using assms sdk.inv_run [of env ia es] by (simp add: sdk_run_def)

theorem reachable_wf_witness:
  "sdk_wf (Init_view (dots [192, 168, 1, 5]) True initial_state)"
  by (rule reachable_wf [of "\<lambda>n. 0" "\<lambda>s. 0" "[EvInitView (dots [192, 168, 1, 5]) True]"])
    (simp add: sdk_run_def sdk_step_def)

section \<open>Acknowledgements and timeouts\<close>

text \<open>A state with one HAP lidar, of handle 1, and the same state with one pending command.\<close>

definition example_state :: sdk_state where
  "example_state = initial_state\<lparr>has_device_manager := True, has_comm_port := True,
     master_sdk := Some True, device_dev_type := [1 \<mapsto> 10],
     lidars_command_handler := [10 \<mapsto> new_handler Hap]\<rparr>"

definition example_command :: Command where
  "example_command = mk_command 5 (command_id_code kCommandIDLidarRebootDevice) kCommandTypeCmd kHostSend
     None 0 1 (inet_ntoa 1) (Some (UserCallback (Some 7)))"

definition example_pending :: sdk_state where
  "example_pending = example_state\<lparr>commands := [(5, (example_command, 1000))]\<rparr>"

definition example_ack :: CommPacket where
  "example_ack = \<lparr>protocol = 0, version = 0, seq_num = 5,
     cmd_id = command_id_code kCommandIDLidarRebootDevice, cmd_type = 1, sender_type = 1,
     data = Some [0], data_len = 1\<rparr>"

lemma example_wf: "sdk_wf example_state" "sdk_wf example_pending"
  by (simp_all add: sdk_wf_def example_state_def example_pending_def initial_state_def new_handler_def
      kind_type_def pending_ok_def example_command_def mk_command_def)

lemma example_handler: "GetLidarCommandHandler 1 example_state = Some (10, new_handler Hap)"
  by (simp add: GetLidarCommandHandler_def GetLidarCommandHandler_type_def example_state_def)

lemma example_ack_parses:
  "ParseCommStream (frame_of example_ack [0, 0, 0, 0, 0, 0] [0] @ []) 25 = Some (Some example_ack)"
proof -
  have c: "CheckPreamble (frame_of example_ack [0, 0, 0, 0, 0, 0] [0] @ []) 25 = Some True"
    by (rule Check_frame) (simp_all add: example_ack_def)
  have p: "ParsePacket (frame_of example_ack [0, 0, 0, 0, 0, 0] [0] @ []) 25 = Some (Some
    \<lparr>protocol = protocol_code kLidarSdk, version = kSdkVer, seq_num = seq_num example_ack AND 0xFFFF,
     cmd_id = cmd_id example_ack, cmd_type = cmd_type example_ack, sender_type = sender_type example_ack,
     data = Some ([0] @ []), data_len = data_len example_ack\<rparr>)"
    by (rule Parse_frame) (simp_all add: example_ack_def)
  show ?thesis
    unfolding ParseCommStream_def c p by (simp add: example_ack_def kSdkVer_def)
qed

lemma parsed_data: "ParseCommStream buf n = Some (Some p) \<Longrightarrow> data p \<noteq> None"
  by (auto simp: ParseCommStream_def ParsePacket_def bind_eq_Some_conv split: if_splits)

text \<open>
  An acknowledgement of a lidar of a known type takes the way through its handler, to the same callback.
\<close>

lemma typed_ack:
  assumes "ParseCommStream buf n = Some (Some p)" "n \<noteq> 0" "has_comm_port s" "\<not> is_detection port p"
    and "cmd_type p = command_type_code kCommandTypeAck" "map_of (commands s) (seq_num p) = Some (c, t)"
    and "GetLidarCommandHandler_type dev s = Some hnd" "\<not> (dev = dev_type_code kLivoxLidarTypePA \<and> port = kPaLidarFaultPort)"
    and "unat (seq_num p) < 65536"
  shows "Handler_typed env dev h port buf n s =
    Handler env h port buf n (if cmd_observer s then emit (CmdObserver h buf) s else s)"
proof -
  let ?s = "if cmd_observer s then emit (CmdObserver h buf) s else s"
  have s: "has_comm_port ?s" "commands ?s = commands s" "GetLidarCommandHandler_type dev ?s = Some hnd"
    using assms(3,7) by (simp_all add: emit_def GetLidarCommandHandler_type_def)
  have "ucast (ucast (seq_num p) :: u16) = seq_num p"
    using assms(9) by (simp add: word_unat_eq_iff unsigned_ucast_eq take_bit_eq_mod unsigned_take_bit_eq unat_mod_distrib)
  moreover obtain d where "data p = Some d" using parsed_data [OF assms(1)] by blast
  ultimately show ?thesis using assms(1,2,4-6,8) s
    unfolding Handler_typed_def Handler_def Let_def
    by (auto simp: handler_Handle_def handler_OnCommandAck_def call_cb_def split: option.splits)
qed

lemma ack_completes:
  assumes p: "ParseCommStream buf n = Some (Some p)" "n \<noteq> 0" "has_comm_port s"
    and ack: "\<not> is_detection port p" "cmd_type p = command_type_code kCommandTypeAck"
    and pend: "map_of (commands s) (seq_num p) = Some (c, t)"
  defines "r \<equiv> s\<lparr>commands := map_del (seq_num p) (commands s)\<rparr>"
  shows "map_of (commands r) = (map_of (commands s))(seq_num p := None)"
    and "Handler env h port buf n s = (case cb c of None \<Rightarrow> Some r
       | Some f \<Rightarrow> runner_of env f kLivoxLidarStatusSuccess h (data p) r)"
    and "cb c = Some (UserCallback (Some i)) \<Longrightarrow> \<exists>s'. Handler env h port buf n s = Some s' \<and>
        out s' = out s @ [UserCall i kLivoxLidarStatusSuccess h (data p)] \<and> commands s' = commands r \<and>
        Handler env h port buf n s' = Some s'"
proof -
  have "runner_of env (UserCallback (Some i)) st h d s = Some (emit (UserCall i st h d) s)" for i st d s
    by (simp add: runner_of_def run_simple_def)
  moreover have "commands (emit e s) = commands s" "has_comm_port (emit e s) = has_comm_port s"
    "out (emit e s) = out s @ [e]" for e s
    by (simp_all add: emit_def)
  ultimately show "map_of (commands r) = (map_of (commands s))(seq_num p := None)"
    and "Handler env h port buf n s = (case cb c of None \<Rightarrow> Some r
       | Some f \<Rightarrow> runner_of env f kLivoxLidarStatusSuccess h (data p) r)"
    and "cb c = Some (UserCallback (Some i)) \<Longrightarrow> \<exists>s'. Handler env h port buf n s = Some s' \<and>
        out s' = out s @ [UserCall i kLivoxLidarStatusSuccess h (data p)] \<and> commands s' = commands r \<and>
        Handler env h port buf n s' = Some s'"
    using p ack pend unfolding r_def by (simp_all add: Handler_def call_cb_def)
qed

text \<open>
  C4. An acknowledgement (not an answer to the search) that an initialised SDK handles without a
  device type, and whose sequence number is pending, removes exactly that entry and then runs the
  callback of the command once, with success and the data of the packet, whichever callback it is:
  one of the SDK's own, which may send again, starts from the table without the entry. A callback
  of the user is all that happens, and the same packet once more changes nothing. Handled with a
  device type that has a handler (and not on the fault port of a PA), an acknowledgement with a
  number of 16 bits does the same, after the command observer, if there is one, has seen it.
\<close>
theorem ack_completes_command:
  assumes p: "ParseCommStream buf n = Some (Some p)" "n \<noteq> 0" "has_comm_port s"
    and ack: "\<not> is_detection port p" "cmd_type p = command_type_code kCommandTypeAck"
    and pend: "map_of (commands s) (seq_num p) = Some (c, t)"
  shows "\<exists>r. r = s\<lparr>commands := commands r\<rparr> \<and> map_of (commands r) = (map_of (commands s))(seq_num p := None) \<and>
     Handler env h port buf n s = (case cb c of None \<Rightarrow> Some r
       | Some f \<Rightarrow> runner_of env f kLivoxLidarStatusSuccess h (data p) r) \<and>
     (\<forall>i. cb c = Some (UserCallback (Some i)) \<longrightarrow> (\<exists>s'. Handler env h port buf n s = Some s' \<and>
        out s' = out s @ [UserCall i kLivoxLidarStatusSuccess h (data p)] \<and> commands s' = commands r \<and>
        Handler env h port buf n s' = Some s')) \<and>
     (\<forall>dev hnd. GetLidarCommandHandler_type dev s = Some hnd \<longrightarrow> unat (seq_num p) < 65536 \<longrightarrow>
        \<not> (dev = dev_type_code kLivoxLidarTypePA \<and> port = kPaLidarFaultPort) \<longrightarrow>
        Handler_typed env dev h port buf n s =
          Handler env h port buf n (if cmd_observer s then emit (CmdObserver h buf) s else s))"
  by (rule exI [of _ "s\<lparr>commands := map_del (seq_num p) (commands s)\<rparr>"], intro conjI allI impI)
    (simp, rule ack_completes(1) [OF assms], rule ack_completes(2) [OF assms], erule ack_completes(3) [OF assms],
     rule typed_ack [OF p ack pend])

theorem ack_completes_command_witness:
  "\<exists>s'. Handler (\<lambda>n. 0) 1 56000 (frame_of example_ack [0, 0, 0, 0, 0, 0] [0] @ []) 25 example_pending = Some s' \<and>
     out s' = out example_pending @ [UserCall 7 kLivoxLidarStatusSuccess 1 (data example_ack)] \<and>
     map_of (commands s') = (map_of (commands example_pending))(seq_num example_ack := None) \<and>
     Handler (\<lambda>n. 0) 1 56000 (frame_of example_ack [0, 0, 0, 0, 0, 0] [0] @ []) 25 s' = Some s'"
proof -
  have "map_of (commands example_pending) (seq_num example_ack) = Some (example_command, 1000)"
    "cb example_command = Some (UserCallback (Some 7))" "has_comm_port example_pending" "\<not> is_detection 56000 example_ack"
    "cmd_type example_ack = command_type_code kCommandTypeAck"
    by (simp_all add: example_pending_def example_state_def initial_state_def example_ack_def
      is_detection_def example_command_def mk_command_def)
  with ack_completes_command [OF example_ack_parses, of example_pending 56000 example_command 1000 "\<lambda>n. 0" 1]
  show ?thesis by auto
qed

fun timeout_calls :: "(u32 \<times> (Command \<times> nat)) list \<Rightarrow> sdk_output list" where
  "timeout_calls [] = []"
| "timeout_calls ((k, c, t) # m) = (case cb c of
     Some (UserCallback (Some i)) \<Rightarrow> [UserCall i kLivoxLidarStatusTimeout (cmd_handle c) None]
   | _ \<Rightarrow> []) @ timeout_calls m"

lemma fold_bind_None: "fold (\<lambda>x so. Option.bind so (f x)) m None = None"
  by (induction m) auto

lemma run_timeouts_fold:
  assumes "\<forall>e \<in> set m. pending_ok e"
  shows "run_timeouts env (map (\<lambda>(k, c, t). c) m) s = fold (\<lambda>(k, c, d) so. Option.bind so
    (call_cb (runner_of env) (cb c) kLivoxLidarStatusTimeout (cmd_handle c) None)) m (Some s)"
  using assms
proof (induction m arbitrary: s)
  case (Cons e m)
  obtain k c t where e: "e = (k, c, t)" by (cases e)
  have "data (packet c) = None" using Cons.prems e by (auto simp: pending_ok_def)
  then show ?case using Cons e fold_bind_None [of "\<lambda>(k, c, d). call_cb (runner_of env) (cb c) kLivoxLidarStatusTimeout (cmd_handle c) None" m]
    by (cases "call_cb (runner_of env) (cb c) kLivoxLidarStatusTimeout (cmd_handle c) None s") (simp_all add: case_prod_unfold)
qed simp

lemma fold_timeouts_user:
  assumes "\<forall>(k, c, t) \<in> set m. \<forall>f. cb c = Some f \<longrightarrow> (\<exists>i. f = UserCallback i)"
  shows "fold (\<lambda>(k, c, d) so. Option.bind so
    (call_cb (runner_of env) (cb c) kLivoxLidarStatusTimeout (cmd_handle c) None)) m (Some s) =
    Some (s\<lparr>out := out s @ timeout_calls m\<rparr>)"
  using assms
proof (induction m arbitrary: s)
  case (Cons e m)
  obtain k c t where e: "e = (k, c, t)" by (cases e)
  have cb: "call_cb (runner_of env) (cb c) kLivoxLidarStatusTimeout (cmd_handle c) None s =
      Some (s\<lparr>out := out s @ timeout_calls [e]\<rparr>)"
    using Cons.prems e
    by (cases "cb c") (auto simp: call_cb_def runner_of_def run_simple_def emit_def split: option.splits)
  have app: "timeout_calls (e # m) = timeout_calls [e] @ timeout_calls m"
    by (simp add: e)
  show ?case
    using Cons.prems Cons.IH [of "s\<lparr>out := out s @ timeout_calls [e]\<rparr>"] cb app unfolding e
    by (simp del: timeout_calls.simps)
qed simp

lemma CommandsHandle_fold:
  assumes "sdk_wf s"
  shows "CommandsHandle env t s = fold (\<lambda>(k, c, d) so. Option.bind so
      (call_cb (runner_of env) (cb c) kLivoxLidarStatusTimeout (cmd_handle c) None))
    (filter (\<lambda>(k, c, d). d < t) (commands s)) (Some (s\<lparr>commands := filter (\<lambda>(k, c, d). t \<le> d) (commands s)\<rparr>))"
  using assms by (subst run_timeouts_fold [symmetric]) (auto simp: sdk_wf_def CommandsHandle_def not_less)

lemma CommandsHandle_user:
  assumes "sdk_wf s" "\<forall>(k, c, d) \<in> set (commands s). d < t \<longrightarrow> (\<forall>f. cb c = Some f \<longrightarrow> (\<exists>i. f = UserCallback i))"
  shows "CommandsHandle env t s = Some (s\<lparr>
      commands := filter (\<lambda>(k, c, d). t \<le> d) (commands s),
      out := out s @ timeout_calls (filter (\<lambda>(k, c, d). d < t) (commands s))\<rparr>)"
proof -
  have "\<forall>(k, c, d) \<in> set (filter (\<lambda>(k, c, d). d < t) (commands s)). \<forall>f. cb c = Some f \<longrightarrow> (\<exists>i. f = UserCallback i)"
    using assms(2) by fastforce
  from fold_timeouts_user [OF this] show ?thesis unfolding CommandsHandle_fold [OF assms(1)] by simp
qed

text \<open>
  C5. In a well-formed state the timer step first takes exactly the pending commands whose
  deadline is before the current time out of the table, and then runs their callbacks, each once,
  with the timeout status and without data, in the order of the sequence numbers; a callback of
  the SDK that sends again finds the table without them. When the expired commands have callbacks
  of the user, the step is exactly these calls: the others stay in the table and nothing else
  changes.
\<close>
theorem timeouts_exactly_the_expired:
  assumes "sdk_wf s"
  shows "CommandsHandle env t s = fold (\<lambda>(k, c, d) so. Option.bind so
        (call_cb (runner_of env) (cb c) kLivoxLidarStatusTimeout (cmd_handle c) None))
      (filter (\<lambda>(k, c, d). d < t) (commands s)) (Some (s\<lparr>commands := filter (\<lambda>(k, c, d). t \<le> d) (commands s)\<rparr>)) \<and>
    sorted_wrt (<) (map fst (filter (\<lambda>(k, c, d). d < t) (commands s))) \<and>
    ((\<forall>(k, c, d) \<in> set (commands s). d < t \<longrightarrow> (\<forall>f. cb c = Some f \<longrightarrow> (\<exists>i. f = UserCallback i))) \<longrightarrow>
      CommandsHandle env t s = Some (s\<lparr>
        commands := filter (\<lambda>(k, c, d). t \<le> d) (commands s),
        out := out s @ timeout_calls (filter (\<lambda>(k, c, d). d < t) (commands s))\<rparr>))"
  using CommandsHandle_fold [OF assms] CommandsHandle_user [OF assms] assms
  by (simp add: sdk_wf_def keys_sorted_filter)

theorem timeouts_exactly_the_expired_witness:
  "CommandsHandle (\<lambda>n. 0) 1001 example_pending = Some (example_pending\<lparr>commands := [],
     out := [UserCall 7 kLivoxLidarStatusTimeout 1 None]\<rparr>)"
proof -
  have "\<forall>(k, c, d) \<in> set (commands example_pending). d < 1001 \<longrightarrow> (\<forall>f. cb c = Some f \<longrightarrow> (\<exists>i. f = UserCallback i))"
    by (simp add: example_pending_def example_command_def mk_command_def)
  with timeouts_exactly_the_expired [OF example_wf(2), of "\<lambda>n. 0" 1001]
  have "CommandsHandle (\<lambda>n. 0) 1001 example_pending = Some (example_pending\<lparr>
      commands := filter (\<lambda>(k, c, d). 1001 \<le> d) (commands example_pending),
      out := out example_pending @ timeout_calls (filter (\<lambda>(k, c, d). d < 1001) (commands example_pending))\<rparr>)" by blast
  then show ?thesis
    by (simp add: example_pending_def example_state_def initial_state_def example_command_def mk_command_def)
qed

section \<open>Sending\<close>

lemma runner_user [simp]:
  "runner_of env (UserCallback (Some i)) st h d s = Some (emit (UserCall i st h d) s)"
  by (simp add: runner_of_def run_simple_def)

lemma emit_fields [simp]:
  "out (emit e s) = out s @ [e]" "commands (emit e s) = commands s" "now (emit e s) = now s"
  "sends (emit e s) = sends s"
  by (simp_all add: emit_def)

lemma AddCommand_fields [simp]:
  "out (AddCommand c s) = out s" "now (AddCommand c s) = now s" "sends (AddCommand c s) = sends s"
  "devices (AddCommand c s) = devices s" "device_dev_type (AddCommand c s) = device_dev_type s"
  "lidars_command_handler (AddCommand c s) = lidars_command_handler s"
  "fw_count (AddCommand c s) = fw_count s" "is_view (AddCommand c s) = is_view s"
  by (simp_all add: AddCommand_def Let_def)

lemma commands_AddCommand_twice:
  "cmd_type (packet c) \<noteq> 1 \<Longrightarrow>
     map_of (commands (AddCommand c s)) (seq_num (packet c)) =
       Some (c\<lparr>packet := if data (packet c) \<noteq> None then (packet c)\<lparr>data := None, data_len := 0\<rparr>
          else packet c\<rparr>, now s + time_out c)"
  by (simp add: commands_AddCommand)

definition sent_frame :: "u32 \<Rightarrow> LidarCommandID \<Rightarrow> u8 list \<Rightarrow> u8 list" where
  "sent_frame sq cid d = frame_of \<lparr>protocol = 0, version = kSdkVer_command, seq_num = sq,
     cmd_id = command_id_code cid, cmd_type = 0, sender_type = 0, data = Some d,
     data_len = of_nat (length d)\<rparr> (replicate 6 0) d"

lemma Pack_command:
  assumes "length d \<le> 1376"
  shows "CommPort_Pack (replicate (kMaxCommandBufferSize + 1) 0) (of_nat kMaxCommandBufferSize)
      (packet (mk_command sq (command_id_code cid) kCommandTypeCmd kHostSend (Some d) (of_nat (length d)) h ip c)) =
    Some (0, sent_frame sq cid d @ replicate (1377 - length d) 0, Some (of_nat (length d) + 24))"
proof -
  let ?p = "packet (mk_command sq (command_id_code cid) kCommandTypeCmd kHostSend (Some d) (of_nat (length d)) h ip c)"
  have l: "unat (of_nat (length d) :: u16) = length d"
    using assms by (simp add: unat_of_nat)
  have "Pack (replicate 1401 0) 1400 ?p = Some (0,
      frame_of ?p (take 6 (drop 12 (replicate 1401 0))) (take (unat (data_len ?p)) d) @
      drop (24 + unat (data_len ?p)) (replicate 1401 0), Some (ucast (data_len ?p) + 24))"
    using assms l by (intro Pack_frame) (simp_all add: mk_command_def)
  moreover have "(ucast (of_nat (length d) :: u16) :: u32) = of_nat (length d)"
    using assms l by (simp add: word_unat_eq_iff unat_of_nat)
  ultimately show ?thesis
    using l by (simp add: CommPort_Pack_def kMaxCommandBufferSize_def sent_frame_def mk_command_def)
qed

lemma length_sent_frame [simp]: "length (sent_frame sq cid d) = 24 + length d"
  by (simp add: sent_frame_def)

lemma transmit_command:
  assumes "length d \<le> 1376"
  shows "transmit env l t rn
      (mk_command sq (command_id_code cid) kCommandTypeCmd kHostSend (Some d) (of_nat (length d)) h ip c) port s =
    (let s' = (emit ((if l then SendLogger else Send) (dev_type_code t) h (sent_frame sq cid d) ip port)
        s)\<lparr>sends := sends s + 1\<rparr>
     in if env (sends s) < 0
        then map_option (Pair kLivoxLidarStatusSendFailed) (call_cb rn c kLivoxLidarStatusSendFailed h None s')
        else Some (kLivoxLidarStatusSuccess, s'))"
proof -
  have l: "unat (of_nat (length d) + 24 :: u32) = length d + 24"
    using assms by (simp add: unat_word_ariths unat_of_nat)
  show ?thesis
    unfolding transmit_def Pack_command [OF assms]
    using l by (simp add: Let_def mk_command_def map_option_case split: option.split Option.bind_split)
qed

definition cmd_port_of :: "handler_kind \<Rightarrow> u16" where
  "cmd_port_of k = (case k of Hap \<Rightarrow> kHAPCmdPort | Mid360 \<Rightarrow> kMid360LidarCmdPort)"

definition pending_entry :: "u32 \<Rightarrow> LidarCommandID \<Rightarrow> u32 \<Rightarrow> callback \<Rightarrow> Command" where
  "pending_entry sq cid handle f = mk_command sq (command_id_code cid) kCommandTypeCmd kHostSend None 0
     handle (inet_ntoa handle) (Some f)"

lemma commands_mk_command:
  "map_of (commands (AddCommand (mk_command sq (command_id_code cid) kCommandTypeCmd kHostSend (Some d) n
       handle (inet_ntoa handle) (Some f)) s)) =
   (map_of (commands s))(sq \<mapsto> (pending_entry sq cid handle f, now s + KDefaultTimeOut))"
  by (simp add: commands_AddCommand mk_command_def pending_entry_def)

text \<open>Sending with any callback: what is on the socket and in the table before the callback of a refused
  command runs, and what follows.\<close>

lemma SendCommand_any:
  assumes "GetLidarCommandHandler handle s = Some (t, h)" "length d \<le> 1376"
    and sq: "sq = ucast (ucast (GetSeq (seq s)) :: u16)"
  shows "\<exists>s1 add. SendCommand env rn handle cid (Some d) (of_nat (length d)) (Some f) s =
       map_option (\<lambda>r. (kLivoxLidarStatusSuccess, add r))
         (if env (sends s) < 0 then rn f kLivoxLidarStatusSendFailed handle None s1 else Some s1) \<and>
     out s1 = out s @ [Send (dev_type_code (kind_type (kind h))) handle (sent_frame sq cid d)
         (inet_ntoa handle) (cmd_port_of (kind h))] \<and>
     map_of (commands s1) = (if kind h = Hap
       then (map_of (commands s))(sq \<mapsto> (pending_entry sq cid handle f, now s + KDefaultTimeOut))
       else map_of (commands s)) \<and>
     now s1 = now s \<and> sends s1 = Suc (sends s) \<and>
     (\<forall>r. out (add r) = out r \<and> now (add r) = now r \<and> sends (add r) = sends r \<and> map_of (commands (add r)) =
       (map_of (commands r))(sq \<mapsto> (pending_entry sq cid handle f, now r + KDefaultTimeOut)))"
proof -
  let ?c = "mk_command sq (command_id_code cid) kCommandTypeCmd kHostSend (Some d) (of_nat (length d))
    handle (inet_ntoa handle) (Some f)"
  let ?s = "(if kind h = Hap then AddCommand ?c else id) (s\<lparr>seq := GetSeq (seq s)\<rparr>)"
  let ?s1 = "(emit (Send (dev_type_code (kind_type (kind h))) handle (sent_frame sq cid d) (inet_ntoa handle)
    (cmd_port_of (kind h))) ?s)\<lparr>sends := sends s + 1\<rparr>"
  have n: "next_seq s = (ucast (GetSeq (seq s)), s\<lparr>seq := GetSeq (seq s)\<rparr>)"
    by (simp add: next_seq_def)
  have g: "GetLidarCommandHandler handle (s\<lparr>seq := GetSeq (seq s)\<rparr>) = Some (t, h)"
    using assms(1) by (simp add: GetLidarCommandHandler_def GetLidarCommandHandler_type_def split: option.splits)
  have ty: "cmd_type (packet (mk_command a b kCommandTypeCmd kHostSend x m h' ip f)) = 0" for a b x m h' ip f
    by (simp add: mk_command_def)
  have "SendCommand env rn handle cid (Some d) (of_nat (length d)) (Some f) s =
      map_option (\<lambda>r. (kLivoxLidarStatusSuccess, AddCommand ?c r))
        (if env (sends s) < 0 then rn f kLivoxLidarStatusSendFailed handle None ?s1 else Some ?s1)"
    by (cases "kind h"; cases "rn f kLivoxLidarStatusSendFailed handle None ?s1")
      (simp_all add: SendCommand_def n g Let_def handler_SendCommand_def Hap_SendCommand_def ty call_cb_def
        Mid360_SendCommand_def transmit_command [OF assms(2)] sq cmd_port_of_def kind_type_def)
  moreover have "map_of (commands ?s1) = (if kind h = Hap
      then (map_of (commands s))(sq \<mapsto> (pending_entry sq cid handle f, now s + KDefaultTimeOut))
      else map_of (commands s))"
    by (simp add: commands_mk_command)
  ultimately show ?thesis
    by (intro exI [of _ ?s1] exI [of _ "AddCommand ?c"]) (simp add: commands_mk_command)
qed

lemma SendCommand_user:
  assumes "GetLidarCommandHandler handle s = Some (t, h)" "length d \<le> 1376"
    and sq: "sq = ucast (ucast (GetSeq (seq s)) :: u16)"
  shows "\<exists>s'. SendCommand env (runner_of env) handle cid (Some d) (of_nat (length d))
        (Some (UserCallback (Some i))) s = Some (kLivoxLidarStatusSuccess, s') \<and>
     out s' = out s @ Send (dev_type_code (kind_type (kind h))) handle (sent_frame sq cid d)
         (inet_ntoa handle) (cmd_port_of (kind h)) #
       (if env (sends s) < 0 then [UserCall i kLivoxLidarStatusSendFailed handle None] else []) \<and>
     map_of (commands s') = (map_of (commands s))
       (sq \<mapsto> (pending_entry sq cid handle (UserCallback (Some i)), now s + KDefaultTimeOut)) \<and>
     now s' = now s \<and> sends s' = Suc (sends s)"
  using SendCommand_any [OF assms, of env "runner_of env" cid "UserCallback (Some i)"]
  by (cases "env (sends s) < 0"; cases "kind h") auto

text \<open>
  C6. Sending a command with a callback and at most 1376 bytes to a lidar with a handler puts one
  frame on the socket, with the next sequence number of the generator, for the lidar's address and
  the command port of its handler. If the socket refuses it, the callback of the command,
  whichever it is, runs next with the status SendFailed, and whatever it sends follows. In the end
  the command is entered in the pending table under that number, with the deadline now + 1000 and
  without its data (for a HAP lidar it was entered before the frame was sent, too), and the answer
  is success, refused or not.
\<close>
theorem send_command_effect:
  assumes "GetLidarCommandHandler handle s = Some (t, h)" "length d \<le> 1376"
  shows "\<exists>s1 sq add. sq = ucast (ucast (GetSeq (seq s)) :: u16) \<and>
     out s1 = out s @ [Send (dev_type_code (kind_type (kind h))) handle (sent_frame sq cid d)
         (inet_ntoa handle) (cmd_port_of (kind h))] \<and>
     map_of (commands s1) = (if kind h = Hap
       then (map_of (commands s))(sq \<mapsto> (pending_entry sq cid handle f, now s + KDefaultTimeOut))
       else map_of (commands s)) \<and>
     SendCommand env (runner_of env) handle cid (Some d) (of_nat (length d)) (Some f) s =
       map_option (\<lambda>r. (kLivoxLidarStatusSuccess, add r))
         (if env (sends s) < 0 then runner_of env f kLivoxLidarStatusSendFailed handle None s1 else Some s1) \<and>
     (\<forall>r. out (add r) = out r \<and> map_of (commands (add r)) =
       (map_of (commands r))(sq \<mapsto> (pending_entry sq cid handle f, now r + KDefaultTimeOut)))"
  using SendCommand_any [OF assms refl, of env "runner_of env" cid f] by blast

theorem send_command_effect_witness:
  "\<exists>s'. SendCommand (\<lambda>n. 0) (runner_of (\<lambda>n. 0)) 1 kCommandIDLidarRebootDevice (Some [100, 0])
        (of_nat (length [100 :: u8, 0])) (Some QueryFwTypeCallback) example_state = Some (kLivoxLidarStatusSuccess, s') \<and>
     length (out s') = 1 \<and> map_of (commands s') (ucast (ucast (GetSeq (seq example_state)) :: u16)) \<noteq> None"
  using send_command_effect [OF example_handler, of "[100, 0]" kCommandIDLidarRebootDevice QueryFwTypeCallback "\<lambda>n. 0"]
  by (auto simp: example_state_def initial_state_def)

lemma timeout_calls_filter:
  "filter P (timeout_calls m) = timeout_calls (filter (\<lambda>(k, c, d). case cb c of
     Some (UserCallback (Some i)) \<Rightarrow> P (UserCall i kLivoxLidarStatusTimeout (cmd_handle c) None) | _ \<Rightarrow> False) m)"
  by (induction m rule: timeout_calls.induct) (auto split: option.split callback.split)

text \<open>The entry of a key of a table is the only one.\<close>

lemma filter_one:
  assumes "keys_sorted m" "map_of m k = Some v" "\<And>k' v'. (k', v') \<in> set m \<Longrightarrow> P (k', v') \<longleftrightarrow> k' = k"
  shows "filter P m = [(k, v)]"
  using assms
proof (induction m)
  case (Cons e m)
  obtain k' v' where e: "e = (k', v')" by (cases e)
  show ?case
  proof (cases "k' = k")
    case True
    then have "\<forall>(a, b) \<in> set m. a \<noteq> k" using Cons.prems(1) e by fastforce
    then have "filter P m = []" using Cons.prems(3) by (fastforce simp: filter_empty_conv)
    then show ?thesis using True Cons.prems(2,3) e by simp
  next
    case False
    then show ?thesis using Cons e by simp
  qed
qed simp

text \<open>
  C7. When the socket refuses a command of the user with at most 1376 bytes to a lidar with a
  handler, in a well-formed state, the callback is invoked twice for that one command: once with
  SendFailed during the call, which still returns success, and again with Timeout when the timer
  finds the entry left in the pending table expired. The table may hold other commands of the
  user, as long as none of them is waiting with the same callback for the same lidar.
\<close>
theorem failed_send_calls_back_twice:
  assumes "sdk_wf s" "GetLidarCommandHandler handle s = Some (ty, h)"
    and "\<forall>(k, c, d) \<in> set (commands s). \<forall>f. cb c = Some f \<longrightarrow>
      (\<exists>j. f = UserCallback j \<and> (j = Some i \<longrightarrow> cmd_handle c \<noteq> handle))"
    and "length d \<le> 1376" "env (sends s) < 0" "now s + KDefaultTimeOut < t"
  shows "\<exists>s1 s2. SendCommand env (runner_of env) handle cid (Some d) (of_nat (length d))
        (Some (UserCallback (Some i))) s = Some (kLivoxLidarStatusSuccess, s1) \<and>
      CommandsHandle env t s1 = Some s2 \<and>
      filter (\<lambda>e. \<exists>st. e = UserCall i st handle None) (drop (length (out s)) (out s2)) =
        [UserCall i kLivoxLidarStatusSendFailed handle None, UserCall i kLivoxLidarStatusTimeout handle None]"
proof -
  let ?sq = "ucast (ucast (GetSeq (seq s)) :: u16) :: u32"
  let ?c = "pending_entry ?sq cid handle (UserCallback (Some i))"
  let ?P = "\<lambda>e. \<exists>st. e = UserCall i st handle None"
  obtain s1 where s1: "SendCommand env (runner_of env) handle cid (Some d) (of_nat (length d))
        (Some (UserCallback (Some i))) s = Some (kLivoxLidarStatusSuccess, s1)"
    and o: "out s1 = out s @ [Send (dev_type_code (kind_type (kind h))) handle (sent_frame ?sq cid d)
         (inet_ntoa handle) (cmd_port_of (kind h)), UserCall i kLivoxLidarStatusSendFailed handle None]"
    and m: "map_of (commands s1) = (map_of (commands s))(?sq \<mapsto> (?c, now s + KDefaultTimeOut))"
    using SendCommand_user [OF assms(2,4) refl, of env cid i] assms(5) by auto
  have wf1: "sdk_wf s1" by (rule keeps_sentD [OF keeps_SendCommand(1) [OF good_runner_of] assms(1) s1])
  then have sorted: "keys_sorted (commands s1)" by (simp add: sdk_wf_def)
  have other: "(k, e) \<in> set (commands s)" if "(k, e) \<in> set (commands s1)" "k \<noteq> ?sq" for k e
    using that m map_of_eq_Some_iff [OF keys_sorted_distinct [OF sorted], of k e] map_of_SomeD [of "commands s" k e] by simp
  have mine: "e = (?c, now s + KDefaultTimeOut)" if "(?sq, e) \<in> set (commands s1)" for e
    using that m map_of_eq_Some_iff [OF keys_sorted_distinct [OF sorted], of ?sq e] by simp
  have users: "\<forall>(k, c, d) \<in> set (commands s1). \<forall>f. cb c = Some f \<longrightarrow> (\<exists>j. f = UserCallback j)"
    using other mine assms(3) by (fastforce simp: pending_entry_def mk_command_def)
  have "CommandsHandle env t s1 = Some (s1\<lparr>commands := filter (\<lambda>(k, c, d). t \<le> d) (commands s1),
      out := out s1 @ timeout_calls (filter (\<lambda>(k, c, d). d < t) (commands s1))\<rparr>)"
    using users by (intro CommandsHandle_user [OF wf1]) fast
  moreover have "filter ?P (timeout_calls (filter (\<lambda>(k, c, d). d < t) (commands s1))) =
      [UserCall i kLivoxLidarStatusTimeout handle None]"
  proof -
    let ?Q = "\<lambda>(k, c, d). d < t \<and> (case cb c of
      Some (UserCallback (Some j)) \<Rightarrow> j = i \<and> cmd_handle c = handle | _ \<Rightarrow> False)"
    have "filter ?Q (commands s1) = [(?sq, ?c, now s + KDefaultTimeOut)]"
    proof (rule filter_one [OF sorted])
      fix k e assume e: "(k, e) \<in> set (commands s1)"
      show "?Q (k, e) \<longleftrightarrow> k = ?sq"
      proof (cases "k = ?sq")
        case True
        then show ?thesis using mine [of e] e assms(6) by (simp add: pending_entry_def mk_command_def)
      next
        case False
        obtain c d where "e = (c, d)" by (cases e)
        then have "\<forall>f. cb c = Some f \<longrightarrow> (\<exists>j. f = UserCallback j \<and> (j = Some i \<longrightarrow> cmd_handle c \<noteq> handle))"
          using other [OF e False] assms(3) by fast
        then show ?thesis using False \<open>e = (c, d)\<close> by (auto split: option.split callback.split)
      qed
    qed (simp add: m)
    moreover have "timeout_calls [(?sq, ?c, now s + KDefaultTimeOut)] = [UserCall i kLivoxLidarStatusTimeout handle None]"
      by (simp add: pending_entry_def mk_command_def)
    ultimately show ?thesis unfolding timeout_calls_filter filter_filter
      by (simp add: case_prod_unfold conj_commute cong: option.case_cong callback.case_cong)
  qed
  ultimately show ?thesis using s1 o by simp
qed

theorem failed_send_calls_back_twice_witness:
  "\<exists>s1 s2. SendCommand (\<lambda>n. - 1) (runner_of (\<lambda>n. - 1)) 1 kCommandIDLidarRebootDevice (Some [100, 0])
        (of_nat (length [100 :: u8, 0])) (Some (UserCallback (Some 8))) example_pending =
       Some (kLivoxLidarStatusSuccess, s1) \<and>
      CommandsHandle (\<lambda>n. - 1) 1001 s1 = Some s2 \<and>
      filter (\<lambda>e. \<exists>st. e = UserCall 8 st 1 None) (drop (length (out example_pending)) (out s2)) =
        [UserCall 8 kLivoxLidarStatusSendFailed 1 None, UserCall 8 kLivoxLidarStatusTimeout 1 None]"
proof (rule failed_send_calls_back_twice [OF example_wf(2)])
  show "GetLidarCommandHandler 1 example_pending = Some (10, new_handler Hap)"
    by (simp add: GetLidarCommandHandler_def GetLidarCommandHandler_type_def example_state_def example_pending_def)
qed (simp_all add: example_pending_def example_state_def initial_state_def KDefaultTimeOut_def example_command_def mk_command_def)

section \<open>The query of the firmware type\<close>

text \<open>A send depends on the runner only at states with the counter it started with.\<close>

definition agree :: "nat \<Rightarrow> runner \<Rightarrow> runner \<Rightarrow> bool" where
  "agree n rn rn' \<longleftrightarrow> (\<forall>c st h d s. fw_count s = n \<longrightarrow> rn c st h d s = rn' c st h d s)"

lemma agreeD: "agree n rn rn' \<Longrightarrow> fw_count s = n \<Longrightarrow> rn c st h d s = rn' c st h d s"
  by (simp add: agree_def)

lemma fw_count_emit [simp]: "fw_count (emit e s) = fw_count s"
  by (simp add: emit_def)

lemma transmit_agree:
  "agree (fw_count s) rn rn' \<Longrightarrow> transmit env l t rn c p s = transmit env l t rn' c p s"
  unfolding transmit_def call_cb_def
  by (intro arg_cong [where f = "Option.bind _"] ext) (auto simp: agree_def Let_def split: option.splits)

lemma SendCommand_agree:
  assumes "agree (fw_count s) rn rn'"
  shows "SendCommand env rn h cid d n c s = SendCommand env rn' h cid d n c s"
proof -
  obtain sq s1 where n: "next_seq s = (sq, s1)" by fastforce
  then have "fw_count s1 = fw_count s" by (auto simp: next_seq_def)
  with assms have t: "transmit env l t rn c p s1 = transmit env l t rn' c p s1"
    "transmit env l t rn c p (AddCommand c s1) = transmit env l t rn' c p (AddCommand c s1)" for l t c p
    by (simp_all add: transmit_agree)
  have "handler_SendCommand env rn hd c s1 = handler_SendCommand env rn' hd c s1" for hd c
    by (cases "kind hd") (simp_all add: handler_SendCommand_def Hap_SendCommand_def Mid360_SendCommand_def t)
  then show ?thesis
    by (cases "GetLidarCommandHandler h s1") (auto simp: SendCommand_def n Let_def)
qed

lemma run_callback_depth:
  "12 \<le> d + fw_count s \<Longrightarrow> 0 < d \<Longrightarrow> run_callback env d c st h x s = run_callback env (Suc d) c st h x s"
proof (induction d arbitrary: c st h x s)
  case (Suc d)
  show ?case
  proof (cases "c = QueryFwTypeCallback")
    case c: True
    show ?thesis
    proof (cases "10 < fw_count s")
      case True
      then show ?thesis by (simp add: c QueryFwTypeCallback_fun_def)
    next
      case False
      let ?s = "s\<lparr>fw_count := fw_count s + 1\<rparr>"
      have "agree (fw_count ?s) (run_callback env d) (run_callback env (Suc d))"
        using Suc.prems(1) False by (auto simp: agree_def intro!: Suc.IH)
      then have "QueryFwType env (run_callback env d) h ?s = QueryFwType env (run_callback env (Suc d)) h ?s"
        by (simp add: QueryFwType_def SendCommand_agree)
      then show ?thesis by (simp add: c QueryFwTypeCallback_fun_def)
    qed
  next
    case False
    then show ?thesis by (cases c) simp_all
  qed
qed simp

lemma sends_transmit:
  assumes "transmit env l t rn c p s = Some (st, s')"
    and "\<And>f s2 s3. cb c = Some f \<Longrightarrow> fw_count s2 = fw_count s \<Longrightarrow>
      rn f kLivoxLidarStatusSendFailed (cmd_handle c) None s2 = Some s3 \<Longrightarrow> sends s3 \<le> sends s2 + k"
  shows "sends s' \<le> sends s + 1 + k"
proof -
  let ?P = "\<lambda>buf n. (emit ((if l then SendLogger else Send) (dev_type_code t) (cmd_handle c)
      (take (case n of None \<Rightarrow> 0 | Some n \<Rightarrow> unat n) buf) (cmd_lidar_ip c) p) s)\<lparr>sends := sends s + 1\<rparr>"
  from assms(1) obtain r where r: "CommPort_Pack (replicate (kMaxCommandBufferSize + 1) 0)
      (of_nat kMaxCommandBufferSize) (packet c) = Some r"
    by (auto simp: transmit_def bind_eq_Some_conv)
  obtain rc buf n where "r = (rc, buf, n)" by (cases r)
  with assms(1) r have "s' = ?P buf n \<or>
      call_cb rn (cb c) kLivoxLidarStatusSendFailed (cmd_handle c) None (?P buf n) = Some s'"
    by (auto simp: transmit_def Let_def bind_eq_Some_conv split: if_splits)
  then show ?thesis
    using assms(2) [of _ "?P buf n" s'] by (auto simp: call_cb_def split: option.splits)
qed

lemma sends_QueryFwType:
  assumes r: "QueryFwType env rn h s = Some s'"
    and k: "\<And>s2 s3. fw_count s2 = fw_count s \<Longrightarrow>
      rn QueryFwTypeCallback kLivoxLidarStatusSendFailed h None s2 = Some s3 \<Longrightarrow> sends s3 \<le> sends s2 + k"
  shows "sends s' \<le> sends s + 1 + k"
proof -
  from r obtain b n st where S: "SendCommand env rn h kCommandIDLidarGetInternalInfo (Some b) (of_nat n)
      (Some QueryFwTypeCallback) s = Some (st, s')"
    by (auto simp: QueryFwType_def bind_eq_Some_conv)
  obtain sq s1 where n: "next_seq s = (sq, s1)" by fastforce
  then have s1: "fw_count s1 = fw_count s" "sends s1 = sends s" by (auto simp: next_seq_def)
  let ?c = "mk_command (ucast sq) (command_id_code kCommandIDLidarGetInternalInfo) kCommandTypeCmd
    kHostSend (Some b) (of_nat n) h (inet_ntoa h) (Some QueryFwTypeCallback)"
  have t: "sends s3 \<le> sends s + 1 + k"
    if "transmit env l t rn ?c p s2 = Some (st', s3)" "fw_count s2 = fw_count s" "sends s2 = sends s"
    for l t p s2 st' s3
    using sends_transmit [OF that(1), of k] k that(2,3) by (simp add: mk_command_def)
  show ?thesis
  proof (cases "GetLidarCommandHandler h s1")
    case None
    then show ?thesis using S s1 by (simp add: SendCommand_def n)
  next
    case (Some th)
    then obtain ty hh where th: "th = (ty, hh)" by (cases th)
    from S Some th obtain st2 s2 where "handler_SendCommand env rn hh ?c s1 = Some (st2, s2)"
      and s': "s' = AddCommand ?c s2"
      by (auto simp: SendCommand_def n Let_def bind_eq_Some_conv)
    moreover have "cmd_type (packet ?c) \<noteq> command_type_code kCommandTypeAck" by (simp add: mk_command_def)
    ultimately have "sends s2 \<le> sends s + 1 + k"
      using t [of _ _ _ s1] t [of _ _ _ "AddCommand ?c s1"] s1
      by (cases "kind hh") (auto simp: handler_SendCommand_def Hap_SendCommand_def Mid360_SendCommand_def)
    then show ?thesis by (simp add: s')
  qed
qed

lemma sends_UpdateFwType [simp]: "sends (UpdateFwType h f s) = sends s"
  by (simp add: UpdateFwType_def split: option.splits)

lemma sends_QueryFwTypeCallback:
  "run_callback env d QueryFwTypeCallback st h x s = Some s' \<Longrightarrow> fw_count s \<le> 11 \<Longrightarrow>
     sends s' \<le> sends s + (11 - fw_count s)"
proof (induction d arbitrary: st x s s')
  case (Suc d)
  let ?s = "s\<lparr>fw_count := fw_count s + 1\<rparr>"
  have retry: "sends s' \<le> sends s + (11 - fw_count s)"
    if "QueryFwType env (run_callback env d) h ?s = Some s'" "\<not> 10 < fw_count s"
    using sends_QueryFwType [OF that(1), of "11 - fw_count ?s"] Suc.IH that(2) by force
  show ?case
    using Suc.prems retry
    by (auto simp: QueryFwTypeCallback_fun_def Let_def bind_eq_Some_conv split: if_splits option.splits)
qed simp

text \<open>
  C8. The callback of the firmware-type query and the query it repeats return: no nesting of the
  two is deeper than 13 calls from a state that satisfies the invariant, so a larger depth gives
  the same result, and one callback sends at most eleven frames.
\<close>
theorem fw_type_query_bounded:
  assumes "sdk_wf s" "13 \<le> d"
  shows "run_callback env d c st h x s = runner_of env c st h x s \<and>
    pred_option (\<lambda>s'. sends s' \<le> sends s + 11) (runner_of env QueryFwTypeCallback st h x s)"
proof
  have "run_callback env (13 + k) c st h x s = run_callback env 13 c st h x s" for k
    by (induction k) (use run_callback_depth [of "13 + _" s env c st h x] in auto)
  from this [of "d - 13"] show "run_callback env d c st h x s = runner_of env c st h x s"
    using assms(2) by (simp add: runner_of_def)
  show "pred_option (\<lambda>s'. sends s' \<le> sends s + 11) (runner_of env QueryFwTypeCallback st h x s)"
    using assms(1) sends_QueryFwTypeCallback [of env 13 st h x s]
    by (cases "runner_of env QueryFwTypeCallback st h x s")
      (fastforce simp: runner_of_def sdk_wf_def simp del: run_callback.simps)+
qed

theorem fw_type_query_bounded_witness:
  "run_callback (\<lambda>n. 0) 20 QueryFwTypeCallback kLivoxLidarStatusTimeout 1 None example_state =
     runner_of (\<lambda>n. 0) QueryFwTypeCallback kLivoxLidarStatusTimeout 1 None example_state \<and>
   pred_option (\<lambda>s'. sends s' \<le> sends example_state + 11)
     (runner_of (\<lambda>n. 0) QueryFwTypeCallback kLivoxLidarStatusTimeout 1 None example_state)"
  by (rule fw_type_query_bounded [OF example_wf(1)]) simp

section \<open>Detections that end in undefined behaviour\<close>

text \<open>
  C9. Two detections of a new lidar end in undefined behaviour: in configuration mode a lidar of
  type PA, for which no handler is registered, dereferences a null pointer; in viewer mode with no
  framework configuration every new lidar of the host's network segment does.
\<close>
theorem detection_crashes:
  assumes "sdk_wf s" "devices s h = None"
  shows "(\<not> is_view s \<longrightarrow> det_dev_type det = dev_type_code kLivoxLidarTypePA \<longrightarrow>
      detected env h det sn s = None) \<and>
    (is_view s \<longrightarrow> master_sdk s = None \<longrightarrow> VerifyNetSegment det s = Some True \<longrightarrow>
      detected env h det sn s = None)"
proof (intro conjI impI)
  assume "\<not> is_view s" "det_dev_type det = dev_type_code kLivoxLidarTypePA"
  moreover have "lidars_command_handler s 16 = None"
  proof (cases "lidars_command_handler s 16")
    case (Some a)
    then have "16 = dev_type_code (kind_type (kind a))" using assms(1) by (auto simp: sdk_wf_def)
    then show ?thesis by (cases "kind a") (simp_all add: kind_type_def)
  qed
  ultimately show "detected env h det sn s = None"
    by (simp add: detected_def VerifyNetSegment_def CreateCommandHandler_def)
next
  assume v: "is_view s" "master_sdk s = None" "VerifyNetSegment det s = Some True"
  have "\<exists>s1. CreateCommandHandler (det_dev_type det) s = Some s1 \<and>
      devices s1 = devices s \<and> master_sdk s1 = None"
    using v by (simp add: CreateCommandHandler_def split: if_split)
  then obtain s1 where "CreateCommandHandler (det_dev_type det) s = Some s1"
    "devices s1 = devices s" "master_sdk s1 = None"
    by blast
  then show "detected env h det sn s = None"
    using v assms(2) by (simp add: detected_def detected_new_def Let_def GetFirmwareType_def)
qed

theorem detection_crashes_witness:
  "detected (\<lambda>n. 0) 2 \<lparr>det_ret_code = 0, det_dev_type = 16, det_sn = replicate 16 0,
     det_lidar_ip = [192, 168, 1, 6], det_cmd_port = 0\<rparr> [] example_state = None"
  using detection_crashes [OF example_wf(1), of 2 "\<lparr>det_ret_code = 0, det_dev_type = 16,
      det_sn = replicate 16 0, det_lidar_ip = [192, 168, 1, 6], det_cmd_port = 0\<rparr>" "\<lambda>n. 0" "[]"]
  by (simp add: example_state_def initial_state_def)

end
