(* ===== verification/Command_Impl.thy ===== *)
theory Command_Impl
  imports Handler_Properties
begin

text \<open>
  \<open>command_impl.cpp\<close>: the commands of the user interface. Each builds its request in a zeroed
  buffer of \<open>kMaxCommandBufferSize\<close> bytes and hands it to \<open>GeneralCommandHandler\<close>.
\<close>

section \<open>Control commands of one key\<close>

text \<open>
  The body the control commands share, for a key and the bytes of its value. The length is
  \<open>sizeof(LivoxLidarKeyValueParam)\<close>, which counts one byte of the value, less one, plus the value.
\<close>

definition send_value :: "(nat \<Rightarrow> int) \<Rightarrow> runner \<Rightarrow> u32 \<Rightarrow> ParamKeyName \<Rightarrow> u8 list \<Rightarrow> callback \<Rightarrow> sdk_state \<Rightarrow> sent" where
  "send_value env rn handle key v c s = do {
     (b, n) \<leftarrow> begin_request (replicate kMaxCommandBufferSize 0) 0 1;
     b \<leftarrow> kv_head b n key (of_nat (length v));
     b \<leftarrow> poke b (n + 4) v;
     SendCommand env rn handle kCommandIDLidarWorkModeControl (Some b) (of_nat (n + (5 - 1 + length v))) (Some c) s }"

definition SendSingleControlCommand :: "(nat \<Rightarrow> int) \<Rightarrow> runner \<Rightarrow> u32 \<Rightarrow> ParamKeyName \<Rightarrow> u8 \<Rightarrow> callback \<Rightarrow> sdk_state \<Rightarrow> sent" where
  "SendSingleControlCommand env rn handle key v c s = send_value env rn handle key [v] c s"

definition SetLivoxLidarPclDataType :: "(nat \<Rightarrow> int) \<Rightarrow> runner \<Rightarrow> u32 \<Rightarrow> LivoxLidarPointDataType \<Rightarrow> callback \<Rightarrow> sdk_state \<Rightarrow> sent" where
  "SetLivoxLidarPclDataType env rn handle x c s = send_value env rn handle kKeyPclDataType [point_data_type_code x] c s"

definition SetLivoxLidarScanPattern :: "(nat \<Rightarrow> int) \<Rightarrow> runner \<Rightarrow> u32 \<Rightarrow> LivoxLidarScanPattern \<Rightarrow> callback \<Rightarrow> sdk_state \<Rightarrow> sent" where
  "SetLivoxLidarScanPattern env rn handle x c s = send_value env rn handle kKeyPatternMode [scan_pattern_code x] c s"

definition SetLivoxLidarDualEmit :: "(nat \<Rightarrow> int) \<Rightarrow> runner \<Rightarrow> u32 \<Rightarrow> bool \<Rightarrow> callback \<Rightarrow> sdk_state \<Rightarrow> sent" where
  "SetLivoxLidarDualEmit env rn handle x c s = send_value env rn handle kKeyDualEmitEn [if x then 0x01 else 0x00] c s"

definition EnableLivoxLidarPointSend :: "(nat \<Rightarrow> int) \<Rightarrow> runner \<Rightarrow> u32 \<Rightarrow> callback \<Rightarrow> sdk_state \<Rightarrow> sent" where
  "EnableLivoxLidarPointSend env rn handle c s = send_value env rn handle kKeyPointSendEn [0x00] c s"

definition DisableLivoxLidarPointSend :: "(nat \<Rightarrow> int) \<Rightarrow> runner \<Rightarrow> u32 \<Rightarrow> callback \<Rightarrow> sdk_state \<Rightarrow> sent" where
  "DisableLivoxLidarPointSend env rn handle c s = send_value env rn handle kKeyPointSendEn [0x01] c s"

definition SetLivoxLidarInstallAttitude :: "(nat \<Rightarrow> int) \<Rightarrow> runner \<Rightarrow> u32 \<Rightarrow> LivoxLidarInstallAttitude \<Rightarrow> callback \<Rightarrow> sdk_state \<Rightarrow> sent" where
  "SetLivoxLidarInstallAttitude env rn handle x c s = send_value env rn handle kKeyInstallAttitude (install_attitude_bytes x) c s"

definition SetLivoxLidarFovCfg0 :: "(nat \<Rightarrow> int) \<Rightarrow> runner \<Rightarrow> u32 \<Rightarrow> FovCfg \<Rightarrow> callback \<Rightarrow> sdk_state \<Rightarrow> sent" where
  "SetLivoxLidarFovCfg0 env rn handle x c s = send_value env rn handle kKeyFovCfg0 (fov_cfg_bytes x) c s"

definition SetLivoxLidarFovCfg1 :: "(nat \<Rightarrow> int) \<Rightarrow> runner \<Rightarrow> u32 \<Rightarrow> FovCfg \<Rightarrow> callback \<Rightarrow> sdk_state \<Rightarrow> sent" where
  "SetLivoxLidarFovCfg1 env rn handle x c s = send_value env rn handle kKeyFovCfg1 (fov_cfg_bytes x) c s"

definition EnableLivoxLidarFov :: "(nat \<Rightarrow> int) \<Rightarrow> runner \<Rightarrow> u32 \<Rightarrow> u8 \<Rightarrow> callback \<Rightarrow> sdk_state \<Rightarrow> sent" where
  "EnableLivoxLidarFov env rn handle x c s = send_value env rn handle kKeyFovCfgEn [x] c s"

definition DisableLivoxLidarFov :: "(nat \<Rightarrow> int) \<Rightarrow> runner \<Rightarrow> u32 \<Rightarrow> callback \<Rightarrow> sdk_state \<Rightarrow> sent" where
  "DisableLivoxLidarFov env rn handle c s = send_value env rn handle kKeyFovCfgEn [0x00] c s"

definition SetLivoxLidarDetectMode :: "(nat \<Rightarrow> int) \<Rightarrow> runner \<Rightarrow> u32 \<Rightarrow> LivoxLidarDetectMode \<Rightarrow> callback \<Rightarrow> sdk_state \<Rightarrow> sent" where
  "SetLivoxLidarDetectMode env rn handle x c s = send_value env rn handle kKeyDetectMode [detect_mode_code x] c s"

definition SetLivoxLidarFuncIOCfg :: "(nat \<Rightarrow> int) \<Rightarrow> runner \<Rightarrow> u32 \<Rightarrow> FuncIOCfg \<Rightarrow> callback \<Rightarrow> sdk_state \<Rightarrow> sent" where
  "SetLivoxLidarFuncIOCfg env rn handle x c s = send_value env rn handle kKeyFuncIoCfg (func_io_cfg_bytes x) c s"

definition SetLivoxLidarBlindSpot :: "(nat \<Rightarrow> int) \<Rightarrow> runner \<Rightarrow> u32 \<Rightarrow> u32 \<Rightarrow> callback \<Rightarrow> sdk_state \<Rightarrow> sent" where
  "SetLivoxLidarBlindSpot env rn handle x c s = send_value env rn handle kKeyBlindSpotSet (le32 x) c s"

definition SetLivoxLidarWorkMode :: "(nat \<Rightarrow> int) \<Rightarrow> runner \<Rightarrow> u32 \<Rightarrow> LivoxLidarWorkMode \<Rightarrow> callback \<Rightarrow> sdk_state \<Rightarrow> sent" where
  "SetLivoxLidarWorkMode env rn handle x c s = send_value env rn handle kKeyWorkMode [work_mode_code x] c s"

definition EnableLivoxLidarGlassHeat :: "(nat \<Rightarrow> int) \<Rightarrow> runner \<Rightarrow> u32 \<Rightarrow> callback \<Rightarrow> sdk_state \<Rightarrow> sent" where
  "EnableLivoxLidarGlassHeat env rn handle c s = send_value env rn handle kKeyGlassHeat [0x01] c s"

definition DisableLivoxLidarGlassHeat :: "(nat \<Rightarrow> int) \<Rightarrow> runner \<Rightarrow> u32 \<Rightarrow> callback \<Rightarrow> sdk_state \<Rightarrow> sent" where
  "DisableLivoxLidarGlassHeat env rn handle c s = send_value env rn handle kKeyGlassHeat [0x00] c s"

definition SetLivoxLidarGlassHeat :: "(nat \<Rightarrow> int) \<Rightarrow> runner \<Rightarrow> u32 \<Rightarrow> LivoxLidarGlassHeat \<Rightarrow> callback \<Rightarrow> sdk_state \<Rightarrow> sent" where
  "SetLivoxLidarGlassHeat env rn handle x c s = send_value env rn handle kKeyGlassHeat [glass_heat_code x] c s"

definition EnableLivoxLidarImuData :: "(nat \<Rightarrow> int) \<Rightarrow> runner \<Rightarrow> u32 \<Rightarrow> callback \<Rightarrow> sdk_state \<Rightarrow> sent" where
  "EnableLivoxLidarImuData env rn handle c s = send_value env rn handle kKeyImuDataEn [0x01] c s"

definition DisableLivoxLidarImuData :: "(nat \<Rightarrow> int) \<Rightarrow> runner \<Rightarrow> u32 \<Rightarrow> callback \<Rightarrow> sdk_state \<Rightarrow> sent" where
  "DisableLivoxLidarImuData env rn handle c s = send_value env rn handle kKeyImuDataEn [0x00] c s"

definition EnableLivoxLidarFusaFunciont :: "(nat \<Rightarrow> int) \<Rightarrow> runner \<Rightarrow> u32 \<Rightarrow> callback \<Rightarrow> sdk_state \<Rightarrow> sent" where
  "EnableLivoxLidarFusaFunciont env rn handle c s = send_value env rn handle kKeyFusaEn [0x01] c s"

definition DisableLivoxLidarFusaFunciont :: "(nat \<Rightarrow> int) \<Rightarrow> runner \<Rightarrow> u32 \<Rightarrow> callback \<Rightarrow> sdk_state \<Rightarrow> sent" where
  "DisableLivoxLidarFusaFunciont env rn handle c s = send_value env rn handle kKeyFusaEn [0x00] c s"

definition SetLivoxLidarLogParam :: "(nat \<Rightarrow> int) \<Rightarrow> runner \<Rightarrow> u32 \<Rightarrow> LivoxLidarLogParam \<Rightarrow> callback \<Rightarrow> sdk_state \<Rightarrow> sent" where
  "SetLivoxLidarLogParam env rn handle x c s = send_value env rn handle kKeyLogParamSet (log_param_bytes x) c s"

definition SetLivoxLidarWorkModeAfterBoot :: "(nat \<Rightarrow> int) \<Rightarrow> runner \<Rightarrow> u32 \<Rightarrow> LivoxLidarWorkModeAfterBoot \<Rightarrow> callback \<Rightarrow> sdk_state \<Rightarrow> sent" where
  "SetLivoxLidarWorkModeAfterBoot env rn handle x c s = send_value env rn handle kKeyWorkModeAfterBoot [work_mode_after_boot_code x] c s"

definition StartForcedHeating :: "(nat \<Rightarrow> int) \<Rightarrow> runner \<Rightarrow> u32 \<Rightarrow> callback \<Rightarrow> sdk_state \<Rightarrow> sent" where
  "StartForcedHeating env rn handle c s = SendSingleControlCommand env rn handle kKeyForceHeatEn 0x01 c s"

definition StopForcedHeating :: "(nat \<Rightarrow> int) \<Rightarrow> runner \<Rightarrow> u32 \<Rightarrow> callback \<Rightarrow> sdk_state \<Rightarrow> sent" where
  "StopForcedHeating env rn handle c s = SendSingleControlCommand env rn handle kKeyForceHeatEn 0x00 c s"

section \<open>Control commands with addresses\<close>

text \<open>A request whose builder fails is not sent; the code returns -1.\<close>

definition send_built :: "(nat \<Rightarrow> int) \<Rightarrow> runner \<Rightarrow> u32 \<Rightarrow> build \<Rightarrow> callback \<Rightarrow> sdk_state \<Rightarrow> sent" where
  "send_built env rn handle request c s = do {
     (ok, b, n) \<leftarrow> request;
     if \<not> ok then Some (kLivoxLidarStatusFailure, s)
     else SendCommand env rn handle kCommandIDLidarWorkModeControl (Some b) (of_nat n) (Some c) s }"

definition SetLivoxLidarIp :: "(nat \<Rightarrow> int) \<Rightarrow> runner \<Rightarrow> u32 \<Rightarrow> LivoxLidarIpInfo \<Rightarrow> callback \<Rightarrow> sdk_state \<Rightarrow> sent" where
  "SetLivoxLidarIp env rn handle x c s =
     send_built env rn handle (BuildSetLidarIPInfoRequest x (replicate kMaxCommandBufferSize 0) 0) c s"

definition SetLivoxLidarStateInfoHostIPCfg :: "(nat \<Rightarrow> int) \<Rightarrow> runner \<Rightarrow> u32 \<Rightarrow> HostStateInfoIpInfo \<Rightarrow> callback \<Rightarrow> sdk_state \<Rightarrow> sent" where
  "SetLivoxLidarStateInfoHostIPCfg env rn handle x c s =
     send_built env rn handle (BuildSetHostStateInfoIPCfgRequest x (replicate kMaxCommandBufferSize 0) 0) c s"

definition SetLivoxLidarPointDataHostIPCfg :: "(nat \<Rightarrow> int) \<Rightarrow> runner \<Rightarrow> u32 \<Rightarrow> HostPointIPInfo \<Rightarrow> callback \<Rightarrow> sdk_state \<Rightarrow> sent" where
  "SetLivoxLidarPointDataHostIPCfg env rn handle x c s =
     send_built env rn handle (BuildSetHostPointDataIPInfoRequest x (replicate kMaxCommandBufferSize 0) 0) c s"

definition SetLivoxLidarImuDataHostIPCfg :: "(nat \<Rightarrow> int) \<Rightarrow> runner \<Rightarrow> u32 \<Rightarrow> HostImuDataIPInfo \<Rightarrow> callback \<Rightarrow> sdk_state \<Rightarrow> sent" where
  "SetLivoxLidarImuDataHostIPCfg env rn handle x c s =
     send_built env rn handle (BuildSetHostImuDataIPInfoRequest x (replicate kMaxCommandBufferSize 0) 0) c s"

section \<open>Queries\<close>

definition QueryLivoxLidarFwType :: "(nat \<Rightarrow> int) \<Rightarrow> runner \<Rightarrow> u32 \<Rightarrow> callback \<Rightarrow> sdk_state \<Rightarrow> sent" where
  "QueryLivoxLidarFwType env rn handle c s = do {
     (b, n) \<leftarrow> query_request [kKeyFwType];
     SendCommand env rn handle kCommandIDLidarGetInternalInfo (Some b) (of_nat n) (Some c) s }"

definition QueryLivoxLidarFirmwareVer :: "(nat \<Rightarrow> int) \<Rightarrow> runner \<Rightarrow> u32 \<Rightarrow> callback \<Rightarrow> sdk_state \<Rightarrow> sent" where
  "QueryLivoxLidarFirmwareVer env rn handle c s = do {
     (b, n) \<leftarrow> query_request [kKeyVersionApp];
     SendCommand env rn handle kCommandIDLidarGetInternalInfo (Some b) (of_nat n) (Some c) s }"

section \<open>Upgrade, reboot\<close>

definition LivoxLidarStartUpgrade :: "(nat \<Rightarrow> int) \<Rightarrow> runner \<Rightarrow> u32 \<Rightarrow> u8 list option \<Rightarrow> u16 \<Rightarrow> callback \<Rightarrow> sdk_state \<Rightarrow> sent" where
  "LivoxLidarStartUpgrade env rn handle d len c s =
     SendCommand env rn handle kCommandIDGeneralRequestUpgrade d len (Some c) s"

definition LivoxLidarXferFirmware :: "(nat \<Rightarrow> int) \<Rightarrow> runner \<Rightarrow> u32 \<Rightarrow> u8 list option \<Rightarrow> u16 \<Rightarrow> callback \<Rightarrow> sdk_state \<Rightarrow> sent" where
  "LivoxLidarXferFirmware env rn handle d len c s =
     SendCommand env rn handle kCommandIDGeneralXferFirmware d len (Some c) s"

definition LivoxLidarCompleteXferFirmware :: "(nat \<Rightarrow> int) \<Rightarrow> runner \<Rightarrow> u32 \<Rightarrow> u8 list option \<Rightarrow> u16 \<Rightarrow> callback \<Rightarrow> sdk_state \<Rightarrow> sent" where
  "LivoxLidarCompleteXferFirmware env rn handle d len c s =
     SendCommand env rn handle kCommandIDGeneralCompleteXferFirmware d len (Some c) s"

definition LivoxLidarGetUpgradeProgress :: "(nat \<Rightarrow> int) \<Rightarrow> runner \<Rightarrow> u32 \<Rightarrow> u8 list option \<Rightarrow> u16 \<Rightarrow> callback \<Rightarrow> sdk_state \<Rightarrow> sent" where
  "LivoxLidarGetUpgradeProgress env rn handle d len c s =
     SendCommand env rn handle kCommandIDGeneralRequestUpgradeProgress d len (Some c) s"

definition LivoxLidarRequestFirmwareInfo :: "(nat \<Rightarrow> int) \<Rightarrow> runner \<Rightarrow> u32 \<Rightarrow> callback \<Rightarrow> sdk_state \<Rightarrow> sent" where
  "LivoxLidarRequestFirmwareInfo env rn handle c s =
     SendCommand env rn handle kCommandIDGeneralRequestFirmwareInfo None 0 (Some c) s"

definition LivoxLidarRequestReboot :: "(nat \<Rightarrow> int) \<Rightarrow> runner \<Rightarrow> u32 \<Rightarrow> callback \<Rightarrow> sdk_state \<Rightarrow> sent" where
  "LivoxLidarRequestReboot env rn handle c s =
     SendCommand env rn handle kCommandIDLidarRebootDevice (Some (le16 100)) 2 (Some c) s"

section \<open>Time synchronisation\<close>

text \<open>\<open>Split\<close>: what \<open>getline\<close> reads up to each separator; nothing follows the last separator.\<close>

fun split_acc :: "string \<Rightarrow> char \<Rightarrow> string \<Rightarrow> string list" where
  "split_acc acc p [] = (if acc = [] then [] else [acc])"
| "split_acc acc p (c # cs) = (if c = p then acc # split_acc [] p cs else split_acc (acc @ [c]) p cs)"

definition Split :: "string \<Rightarrow> char \<Rightarrow> string list" where
  "Split str pattern = split_acc [] pattern str"

text \<open>
  \<open>ParseGPRMC\<close>. The conversion of a date to seconds depends on the time zone of the host: it is
  the parameter \<open>stamp\<close> (\<open>StringToTimestamp\<close>). The test of the size allows nine fields, of which
  the tenth is then read.
\<close>

definition ParseGPRMC :: "(string \<Rightarrow> int) \<Rightarrow> string \<Rightarrow> u64 option" where
  "ParseGPRMC stamp gprmc =
     (let v = Split gprmc CHR '','' in
      if length v < 9 \<or> length (v ! 1) < 6 then Some 0
      else if length v < 10 then None
      else if length (v ! 9) < 6 then Some 0
      else let year = drop 4 (v ! 9); month = take 2 (drop 2 (v ! 9)); day = take 2 (v ! 9);
               hour = take 2 (v ! 1); minute = take 2 (drop 2 (v ! 1)); second = take 2 (drop 4 (v ! 1));
               time = ''20'' @ year @ ''-'' @ month @ ''-'' @ day @ '' '' @ hour @ '':'' @ minute @ '':'' @ second;
               time_ms = (of_int (stamp time) * 1000 :: u64)
           in Some (time_ms * 1000 * 1000))"

definition SetLivoxLidarRmcSyncTime :: "(string \<Rightarrow> int) \<Rightarrow> (nat \<Rightarrow> int) \<Rightarrow> runner \<Rightarrow> u32 \<Rightarrow> string \<Rightarrow> callback \<Rightarrow> sdk_state \<Rightarrow> sent" where
  "SetLivoxLidarRmcSyncTime stamp env rn handle rmc c s = do {
     ns \<leftarrow> ParseGPRMC stamp rmc;
     SendCommand env rn handle kCommandIDLidarSetPPSSync (Some (2 # le64 ns)) 9 (Some c) s }"

section \<open>What a command puts on the wire\<close>

text \<open>A command reads only the \<open>len\<close> bytes it is given of its buffer.\<close>

lemma deref_prefix: "deref (Some (d @ rest)) (length d) = deref (Some d) (length d)"
  by (simp add: deref_def peek_def)

lemma Pack_data:
  "deref x (unat (data_len p)) = deref (data p) (unat (data_len p)) \<Longrightarrow> Pack b n (p\<lparr>data := x\<rparr>) = Pack b n p"
  by (simp add: Pack_def cong: if_cong)

lemma transmit_prefix:
  assumes "length d < 65536"
  shows "transmit env l t rn (mk_command sq cid ct st (Some (d @ rest)) (of_nat (length d)) h ip c) port s =
    transmit env l t rn (mk_command sq cid ct st (Some d) (of_nat (length d)) h ip c) port s"
proof -
  let ?c = "mk_command sq cid ct st (Some d) (of_nat (length d)) h ip c"
  have u: "unat (of_nat (length d) :: u16) = length d" using assms by (simp add: unat_of_nat)
  have "packet (mk_command sq cid ct st (Some (d @ rest)) (of_nat (length d)) h ip c) =
      (packet ?c)\<lparr>data := Some (d @ rest)\<rparr>" by (simp add: mk_command_def)
  moreover have "Pack b n ((packet ?c)\<lparr>data := Some (d @ rest)\<rparr>) = Pack b n (packet ?c)" for b n
    by (rule Pack_data) (simp add: mk_command_def u deref_prefix)
  ultimately have e: "CommPort_Pack b n (packet (mk_command sq cid ct st (Some (d @ rest)) (of_nat (length d)) h ip c)) =
      CommPort_Pack b n (packet ?c)" for b n
    by (simp add: CommPort_Pack_def)
  show ?thesis
    unfolding transmit_def e by (simp add: mk_command_def Let_def cong: if_cong)
qed

lemma AddCommand_prefix:
  "AddCommand (mk_command sq cid ct st (Some d) n h ip c) = AddCommand (mk_command sq cid ct st (Some d') n h ip c)"
  by (rule ext) (simp add: AddCommand_def mk_command_def)

lemma SendCommand_prefix:
  assumes "length d < 65536"
  shows "SendCommand env rn handle cid (Some (d @ rest)) (of_nat (length d)) c s =
    SendCommand env rn handle cid (Some d) (of_nat (length d)) c s"
proof -
  have t: "cmd_type (packet (mk_command sq a ct st x n h ip c)) = command_type_code ct" for sq a ct st x n h ip c
    by (simp add: mk_command_def)
  have "handler_SendCommand env rn h (mk_command sq a ct st (Some (d @ rest)) (of_nat (length d)) x ip c) s =
      handler_SendCommand env rn h (mk_command sq a ct st (Some d) (of_nat (length d)) x ip c) s" for h sq a ct st x ip s
    by (cases "kind h")
      (simp_all add: handler_SendCommand_def Hap_SendCommand_def Mid360_SendCommand_def t
        transmit_prefix [OF assms] AddCommand_prefix [of _ _ _ _ "d @ rest" _ _ _ _ d])
  then show ?thesis
    by (simp add: SendCommand_def Let_def AddCommand_prefix [of _ _ _ _ "d @ rest" _ _ _ _ d]
        split: prod.split option.split)
qed

lemma send_value_request:
  assumes "length v \<le> 1368"
  shows "send_value env rn handle key v c s = SendCommand env rn handle kCommandIDLidarWorkModeControl
     (Some (request_bytes [(key, v)])) (of_nat (length (request_bytes [(key, v)]))) (Some c) s"
proof -
  have "kv_head (request_with 1 [] @ replicate 1396 0) 4 key (of_nat (length v)) =
      Some ((request_with 1 [] @ le16 (key_code key) @ le16 (of_nat (length v))) @ replicate 1392 0)"
    by (simp add: kv_head_def request_with_def poke_def numeral_eq_Suc)
  moreover have "poke ((request_with 1 [] @ le16 (key_code key) @ le16 (of_nat (length v))) @ replicate 1392 0) 8 v =
      Some (request_bytes [(key, v)] @ drop (length v) (replicate 1392 0))"
    using assms poke_at_length [of 8 "request_with 1 [] @ le16 (key_code key) @ le16 (of_nat (length v))" v "replicate 1392 0"]
    by (simp add: request_bytes_def request_with_def kv_bytes_def)
  moreover have "4 + (5 - 1 + length v) = length (request_bytes [(key, v)])"
    by (simp add: request_bytes_def)
  ultimately show ?thesis
    using assms SendCommand_prefix [of "request_bytes [(key, v)]" env rn handle _ _ "Some c" s]
    by (simp add: send_value_def begin_request_zero kMaxCommandBufferSize_def request_bytes_def)
qed

text \<open>
  \<open>f\<close> is a command that, to a lidar with a handler, sends one frame with the request \<open>d\<close>, leaves
  one pending entry for its acknowledgement and reports success.
\<close>

definition sends_request :: "((nat \<Rightarrow> int) \<Rightarrow> runner \<Rightarrow> u32 \<Rightarrow> callback \<Rightarrow> sdk_state \<Rightarrow> sent) \<Rightarrow>
    LidarCommandID \<Rightarrow> u8 list \<Rightarrow> bool" where
  "sends_request f cid d \<longleftrightarrow> (\<forall>env handle s t h i. GetLidarCommandHandler handle s = Some (t, h) \<longrightarrow>
     (\<exists>s' sq. sq = ucast (ucast (GetSeq (seq s)) :: u16) \<and>
       f env (runner_of env) handle (UserCallback (Some i)) s = Some (kLivoxLidarStatusSuccess, s') \<and>
       out s' = out s @ Send (dev_type_code (kind_type (kind h))) handle (sent_frame sq cid d)
           (inet_ntoa handle) (cmd_port_of (kind h)) #
         (if env (sends s) < 0 then [UserCall i kLivoxLidarStatusSendFailed handle None] else []) \<and>
       map_of (commands s') = (map_of (commands s))
         (sq \<mapsto> (pending_entry sq cid handle (UserCallback (Some i)), now s + KDefaultTimeOut))))"

lemma sends_requestI:
  assumes "\<And>env rn handle c s. f env rn handle c s = SendCommand env rn handle cid (Some d) (of_nat (length d)) (Some c) s"
    and "length d \<le> 1376"
  shows "sends_request f cid d"
  unfolding sends_request_def assms(1) using SendCommand_user [OF _ assms(2) refl] by fast

text \<open>\<open>f\<close> is a command that sets the key \<open>k\<close> to \<open>v\<close>.\<close>

definition sets_value :: "((nat \<Rightarrow> int) \<Rightarrow> runner \<Rightarrow> u32 \<Rightarrow> callback \<Rightarrow> sdk_state \<Rightarrow> sent) \<Rightarrow>
    ParamKeyName \<Rightarrow> u8 list \<Rightarrow> bool" where
  "sets_value f k v \<longleftrightarrow> sends_request f kCommandIDLidarWorkModeControl (request_bytes [(k, v)])"

lemma sets_valueI:
  assumes "\<And>env rn handle c s. f env rn handle c s = send_value env rn handle k v c s" "length v \<le> 1368"
  shows "sets_value f k v"
  unfolding sets_value_def using assms
  by (intro sends_requestI) (simp_all add: send_value_request, simp add: request_bytes_def)

lemmas control_defs =
  SetLivoxLidarPclDataType_def SetLivoxLidarScanPattern_def SetLivoxLidarDualEmit_def
  EnableLivoxLidarPointSend_def DisableLivoxLidarPointSend_def SetLivoxLidarInstallAttitude_def
  SetLivoxLidarFovCfg0_def SetLivoxLidarFovCfg1_def EnableLivoxLidarFov_def
  DisableLivoxLidarFov_def SetLivoxLidarDetectMode_def SetLivoxLidarFuncIOCfg_def
  SetLivoxLidarBlindSpot_def SetLivoxLidarWorkMode_def EnableLivoxLidarGlassHeat_def
  DisableLivoxLidarGlassHeat_def SetLivoxLidarGlassHeat_def EnableLivoxLidarImuData_def
  DisableLivoxLidarImuData_def EnableLivoxLidarFusaFunciont_def
  DisableLivoxLidarFusaFunciont_def StartForcedHeating_def StopForcedHeating_def
  SendSingleControlCommand_def SetLivoxLidarLogParam_def SetLivoxLidarWorkModeAfterBoot_def

text \<open>
  C13. Each of the 25 control commands, to a lidar with a handler, sends exactly one frame: a
  request of one key with the key of that command and the bytes of its argument (enable and
  disable as the code has them: 0 enables the point stream and 1 disables it, for every other pair
  1 enables), leaves one pending entry and returns success.
\<close>
theorem control_commands:
  "sets_value (\<lambda>env rn h. SetLivoxLidarPclDataType env rn h dt) kKeyPclDataType [point_data_type_code dt] \<and>
   sets_value (\<lambda>env rn h. SetLivoxLidarScanPattern env rn h sp) kKeyPatternMode [scan_pattern_code sp] \<and>
   sets_value (\<lambda>env rn h. SetLivoxLidarDualEmit env rn h b) kKeyDualEmitEn [if b then 1 else 0] \<and>
   sets_value EnableLivoxLidarPointSend kKeyPointSendEn [0] \<and>
   sets_value DisableLivoxLidarPointSend kKeyPointSendEn [1] \<and>
   sets_value (\<lambda>env rn h. SetLivoxLidarInstallAttitude env rn h att) kKeyInstallAttitude (install_attitude_bytes att) \<and>
   sets_value (\<lambda>env rn h. SetLivoxLidarFovCfg0 env rn h fov) kKeyFovCfg0 (fov_cfg_bytes fov) \<and>
   sets_value (\<lambda>env rn h. SetLivoxLidarFovCfg1 env rn h fov) kKeyFovCfg1 (fov_cfg_bytes fov) \<and>
   sets_value (\<lambda>env rn h. EnableLivoxLidarFov env rn h en) kKeyFovCfgEn [en] \<and>
   sets_value DisableLivoxLidarFov kKeyFovCfgEn [0] \<and>
   sets_value (\<lambda>env rn h. SetLivoxLidarDetectMode env rn h dm) kKeyDetectMode [detect_mode_code dm] \<and>
   sets_value (\<lambda>env rn h. SetLivoxLidarFuncIOCfg env rn h io) kKeyFuncIoCfg (func_io_cfg_bytes io) \<and>
   sets_value (\<lambda>env rn h. SetLivoxLidarBlindSpot env rn h spot) kKeyBlindSpotSet (le32 spot) \<and>
   sets_value (\<lambda>env rn h. SetLivoxLidarWorkMode env rn h wm) kKeyWorkMode [work_mode_code wm] \<and>
   sets_value EnableLivoxLidarGlassHeat kKeyGlassHeat [1] \<and>
   sets_value DisableLivoxLidarGlassHeat kKeyGlassHeat [0] \<and>
   sets_value (\<lambda>env rn h. SetLivoxLidarGlassHeat env rn h gh) kKeyGlassHeat [glass_heat_code gh] \<and>
   sets_value EnableLivoxLidarImuData kKeyImuDataEn [1] \<and>
   sets_value DisableLivoxLidarImuData kKeyImuDataEn [0] \<and>
   sets_value EnableLivoxLidarFusaFunciont kKeyFusaEn [1] \<and>
   sets_value DisableLivoxLidarFusaFunciont kKeyFusaEn [0] \<and>
   sets_value StartForcedHeating kKeyForceHeatEn [1] \<and>
   sets_value StopForcedHeating kKeyForceHeatEn [0] \<and>
   sets_value (\<lambda>env rn h. SetLivoxLidarLogParam env rn h lp) kKeyLogParamSet (log_param_bytes lp) \<and>
   sets_value (\<lambda>env rn h. SetLivoxLidarWorkModeAfterBoot env rn h wb) kKeyWorkModeAfterBoot [work_mode_after_boot_code wb]"
  by (intro conjI; rule sets_valueI; simp add: control_defs)

text \<open>
  The two firmware queries and the reboot command send exactly one frame to a lidar with a
  handler: the query of the one key, or the delay of 100, with one pending entry each.
\<close>
theorem query_and_upgrade_commands:
  "sends_request QueryLivoxLidarFwType kCommandIDLidarGetInternalInfo
     (le16 1 @ [0, 0] @ le16 (key_code kKeyFwType)) \<and>
   sends_request QueryLivoxLidarFirmwareVer kCommandIDLidarGetInternalInfo
     (le16 1 @ [0, 0] @ le16 (key_code kKeyVersionApp)) \<and>
   sends_request LivoxLidarRequestReboot kCommandIDLidarRebootDevice (le16 100)"
proof (intro conjI sends_requestI)
  have q: "query_request [k] = Some ((le16 1 @ [0, 0] @ le16 (key_code k)) @ replicate 1394 0, 6)" for k
    using put_keys_Some [of "request_with 1 []" 4 "[k]" "replicate 1396 0"]
    by (simp add: query_request_def begin_request_zero kMaxCommandBufferSize_def) (simp add: request_with_def)
  fix env rn handle c s
  show "QueryLivoxLidarFwType env rn handle c s = SendCommand env rn handle kCommandIDLidarGetInternalInfo
      (Some (le16 1 @ [0, 0] @ le16 (key_code kKeyFwType))) (of_nat (length (le16 1 @ [0, 0] @ le16 (key_code kKeyFwType)))) (Some c) s"
    "QueryLivoxLidarFirmwareVer env rn handle c s = SendCommand env rn handle kCommandIDLidarGetInternalInfo
      (Some (le16 1 @ [0, 0] @ le16 (key_code kKeyVersionApp))) (of_nat (length (le16 1 @ [0, 0] @ le16 (key_code kKeyVersionApp)))) (Some c) s"
    unfolding QueryLivoxLidarFwType_def QueryLivoxLidarFirmwareVer_def q
    using SendCommand_prefix [of "le16 1 @ [0, 0] @ le16 (key_code kKeyFwType)" env rn handle
        kCommandIDLidarGetInternalInfo "replicate 1394 0" "Some c" s]
      SendCommand_prefix [of "le16 1 @ [0, 0] @ le16 (key_code kKeyVersionApp)" env rn handle
        kCommandIDLidarGetInternalInfo "replicate 1394 0" "Some c" s] by simp_all
qed (simp_all add: LivoxLidarRequestReboot_def)

section \<open>Commands with addresses\<close>

lemma host_command:
  "send_built env rn handle (do {
       (b, n) \<leftarrow> begin_request (replicate kMaxCommandBufferSize 0) 0 1;
       host_kv b n k (InitHostIpAddr a) hp (Some lp) }) c s =
   (case IpToU8 a ''.'' of Inl e \<Rightarrow> None
    | Inr None \<Rightarrow> Some (kLivoxLidarStatusFailure, s)
    | Inr (Some ip) \<Rightarrow> SendCommand env rn handle kCommandIDLidarWorkModeControl
        (Some (request_bytes [(k, host_value ip hp lp)])) 16 (Some c) s)"
proof (cases "IpToU8 a ''.''")
  case (Inl e)
  then show ?thesis
    by (simp add: send_built_def begin_request_zero kMaxCommandBufferSize_def host_kv_def kv_head_def
        poke_def InitHostIpAddr_def)
next
  case (Inr r)
  show ?thesis
  proof (cases r)
    case None
    then show ?thesis
      using Inr host_kv_bad_ip(1) [of a 4 "request_with 1 [] @ replicate 1396 0" k hp "Some lp"]
      by (auto simp: send_built_def begin_request_zero kMaxCommandBufferSize_def)
  next
    case (Some ip)
    have l: "length ip = 4" using sets_ip_host(1) [of a ip] Inr Some by (simp add: sets_ip_def)
    have "host_kv (request_with 1 [] @ replicate 1396 0) 4 k (InitHostIpAddr a) hp (Some lp) =
        Some (True, request_bytes [(k, host_value ip hp lp)] @ replicate 1384 0, 16)"
      using host_kv_request [OF sets_ip_host(1), of a ip 4 1 "[]" "replicate 1396 0" k hp lp] Inr Some
      by (simp add: request_bytes_def)
    then show ?thesis
      using Inr Some l SendCommand_prefix [of "request_bytes [(k, host_value ip hp lp)]" env rn handle _ "replicate 1384 0" "Some c" s]
      by (simp add: send_built_def begin_request_zero kMaxCommandBufferSize_def request_bytes_def)
  qed
qed

text \<open>
  The three commands that set a destination of the lidar depend on the address alone: an address
  that std::stoi refuses is an exception, one that is out of range or has not four numbers returns
  -1 and sends nothing, and any other is sent as the request of 16 bytes with the address and both
  ports.
\<close>
theorem set_host_commands:
  "SetLivoxLidarStateInfoHostIPCfg env rn handle \<lparr>host_state_ip_addr = a, host_state_info_port = hp,
       lidar_state_info_port = lp\<rparr> c s =
     (case IpToU8 a ''.'' of Inl e \<Rightarrow> None
      | Inr None \<Rightarrow> Some (kLivoxLidarStatusFailure, s)
      | Inr (Some ip) \<Rightarrow> SendCommand env rn handle kCommandIDLidarWorkModeControl
          (Some (request_bytes [(kKeyStateInfoHostIpCfg, host_value ip hp lp)])) 16 (Some c) s) \<and>
   SetLivoxLidarPointDataHostIPCfg env rn handle \<lparr>host_point_ip_addr = a, host_point_data_port = hp,
       lidar_point_data_port = lp\<rparr> c s =
     (case IpToU8 a ''.'' of Inl e \<Rightarrow> None
      | Inr None \<Rightarrow> Some (kLivoxLidarStatusFailure, s)
      | Inr (Some ip) \<Rightarrow> SendCommand env rn handle kCommandIDLidarWorkModeControl
          (Some (request_bytes [(kKeyLidarPointDataHostIpCfg, host_value ip hp lp)])) 16 (Some c) s) \<and>
   SetLivoxLidarImuDataHostIPCfg env rn handle \<lparr>host_imu_ip_addr = a, host_imu_data_port = hp,
       lidar_imu_data_port = lp\<rparr> c s =
     (case IpToU8 a ''.'' of Inl e \<Rightarrow> None
      | Inr None \<Rightarrow> Some (kLivoxLidarStatusFailure, s)
      | Inr (Some ip) \<Rightarrow> SendCommand env rn handle kCommandIDLidarWorkModeControl
          (Some (request_bytes [(kKeyLidarImuHostIpCfg, host_value ip hp lp)])) 16 (Some c) s)"
  by (simp add: SetLivoxLidarStateInfoHostIPCfg_def SetLivoxLidarPointDataHostIPCfg_def
      SetLivoxLidarImuDataHostIPCfg_def BuildSetHostStateInfoIPCfgRequest_def
      BuildSetHostPointDataIPInfoRequest_def BuildSetHostImuDataIPInfoRequest_def host_command)

section \<open>Times\<close>

fun join :: "char \<Rightarrow> string list \<Rightarrow> string" where
  "join p [] = []"
| "join p [f] = f"
| "join p (f # fs) = f @ p # join p fs"

lemma split_acc_field:
  "p \<notin> set f \<Longrightarrow> split_acc acc p (f @ p # t) = (acc @ f) # split_acc [] p t"
  "p \<notin> set f \<Longrightarrow> split_acc acc p f = (if acc @ f = [] then [] else [acc @ f])"
  by (induction f arbitrary: acc) auto

lemma Split_join:
  assumes "\<forall>f \<in> set fs. p \<notin> set f" "fs \<noteq> []" "last fs \<noteq> []"
  shows "Split (join p fs) p = fs"
  using assms unfolding Split_def
  by (induction p fs rule: join.induct) (auto simp: split_acc_field)

text \<open>
  For a sentence of at least nine comma-separated fields with a time of six characters, ParseGPRMC
  reads past its fields when there are exactly nine, returns 0 when the tenth is shorter than six,
  and otherwise returns the nanoseconds of the date and time whose digits the two fields hold.
\<close>
theorem gprmc_time:
  assumes "\<forall>f \<in> set fs. CHR '','' \<notin> set f" "last fs \<noteq> []" "9 \<le> length fs"
    and "fs ! 1 = [h1, h2, m1, m2, s1, s2] @ frac"
  shows "ParseGPRMC stamp (join CHR '','' fs) =
    (if length fs = 9 then None
     else if length (fs ! 9) < 6 then Some 0
     else Some (of_int (stamp (''20'' @ drop 4 (fs ! 9) @ ''-'' @ take 2 (drop 2 (fs ! 9)) @ ''-'' @
       take 2 (fs ! 9) @ '' '' @ [h1, h2] @ '':'' @ [m1, m2] @ '':'' @ [s1, s2])) * 10 ^ 9))"
proof -
  have "fs \<noteq> []" using assms(3) by auto
  from Split_join [OF assms(1) this assms(2)] show ?thesis
    using assms(3,4) by (simp add: ParseGPRMC_def Let_def numeral_eq_Suc)
qed

theorem gprmc_time_witness:
  "ParseGPRMC (\<lambda>t. 0) (join CHR '','' (''$GPRMC'' # ''123519'' # replicate 6 ''A'' @ [''0''])) = None"
  using gprmc_time [of "''$GPRMC'' # ''123519'' # replicate 6 ''A'' @ [''0'']" "CHR ''1''" "CHR ''2''" "CHR ''3''"
      "CHR ''5''" "CHR ''1''" "CHR ''9''" "[]" "\<lambda>t. 0"] by simp

end
