(* ===== verification/Upgrader.thy ===== *)
theory Upgrader
  imports Firmware Command_Impl
begin

text \<open>
  The firmware upgrade (upgrade/livox_lidar_upgrader.cpp): the table-driven state machine, the five
  requests, the five response handlers and the observer. A request is handed to \<open>CommandImpl\<close>; what
  becomes of it is the parameter \<open>env_issue\<close> for the n-th request: the lidar has no handler (the
  call fails and nothing is kept), the datagram leaves, or the socket refuses it. In the last case the
  response handler runs at once, inside the call, and the pending entry stays, so that it runs again
  later. \<open>in_flight\<close> holds the pending entries; \<open>deliver\<close> is the answer, or the timeout, of one of them.
  The bytes of the reserved field of a transfer request are uninitialised: \<open>env_rsvd\<close>.
\<close>

section \<open>States and events\<close>

datatype LivoxLidarFsmState =
    kLivoxLidarUpgradeIdle | kLivoxLidarUpgradeRequest | kLivoxLidarUpgradeXferFirmware
  | kLivoxLidarUpgradeCompleteXferFirmware | kLivoxLidarUpgradeGetUpgradeProgress
  | kLivoxLidarUpgradeComplete | kLivoxLidarUpgradeTimeout | kLivoxLidarUpgradeErr
  | kLivoxLidarUpgradeUndef

fun fsm_state_code :: "LivoxLidarFsmState \<Rightarrow> u32" where
  "fsm_state_code kLivoxLidarUpgradeIdle = 0"
| "fsm_state_code kLivoxLidarUpgradeRequest = 1"
| "fsm_state_code kLivoxLidarUpgradeXferFirmware = 2"
| "fsm_state_code kLivoxLidarUpgradeCompleteXferFirmware = 3"
| "fsm_state_code kLivoxLidarUpgradeGetUpgradeProgress = 4"
| "fsm_state_code kLivoxLidarUpgradeComplete = 5"
| "fsm_state_code kLivoxLidarUpgradeTimeout = 6"
| "fsm_state_code kLivoxLidarUpgradeErr = 7"
| "fsm_state_code kLivoxLidarUpgradeUndef = 8"

datatype LivoxLidarFsmEvent =
    kLivoxLidarEventRequestUpgrade | kLivoxLidarEventXferFirmware | kLivoxLidarEventCompleteXferFirmware
  | kLivoxLidarEventGetUpgradeProgress | kLivoxLidarEventComplete | kLivoxLidarEventReinit
  | kLivoxLidarEventTimeout | kLivoxLidarEventErr | kLivoxLidarEventUndef

fun fsm_event_code :: "LivoxLidarFsmEvent \<Rightarrow> u32" where
  "fsm_event_code kLivoxLidarEventRequestUpgrade = 0"
| "fsm_event_code kLivoxLidarEventXferFirmware = 1"
| "fsm_event_code kLivoxLidarEventCompleteXferFirmware = 2"
| "fsm_event_code kLivoxLidarEventGetUpgradeProgress = 3"
| "fsm_event_code kLivoxLidarEventComplete = 4"
| "fsm_event_code kLivoxLidarEventReinit = 5"
| "fsm_event_code kLivoxLidarEventTimeout = 6"
| "fsm_event_code kLivoxLidarEventErr = 7"
| "fsm_event_code kLivoxLidarEventUndef = 8"

text \<open>The member functions the table points to.\<close>

datatype fsm_handler = HStartUpgrade | HXferFirmware | HCompleteXferFirmware | HGetUpgradeProgress
  | HUpgradeComplete

definition upgrade_event_table :: "(LivoxLidarFsmState \<times> LivoxLidarFsmEvent \<times> fsm_handler option \<times>
    LivoxLidarFsmState) list" where
  "upgrade_event_table = [
    (kLivoxLidarUpgradeIdle, kLivoxLidarEventRequestUpgrade, Some HStartUpgrade, kLivoxLidarUpgradeRequest),
    (kLivoxLidarUpgradeRequest, kLivoxLidarEventRequestUpgrade, Some HStartUpgrade, kLivoxLidarUpgradeRequest),
    (kLivoxLidarUpgradeRequest, kLivoxLidarEventXferFirmware, Some HXferFirmware, kLivoxLidarUpgradeXferFirmware),
    (kLivoxLidarUpgradeXferFirmware, kLivoxLidarEventXferFirmware, Some HXferFirmware, kLivoxLidarUpgradeXferFirmware),
    (kLivoxLidarUpgradeXferFirmware, kLivoxLidarEventCompleteXferFirmware, Some HCompleteXferFirmware,
       kLivoxLidarUpgradeCompleteXferFirmware),
    (kLivoxLidarUpgradeCompleteXferFirmware, kLivoxLidarEventCompleteXferFirmware, Some HCompleteXferFirmware,
       kLivoxLidarUpgradeCompleteXferFirmware),
    (kLivoxLidarUpgradeCompleteXferFirmware, kLivoxLidarEventGetUpgradeProgress, Some HGetUpgradeProgress,
       kLivoxLidarUpgradeGetUpgradeProgress),
    (kLivoxLidarUpgradeGetUpgradeProgress, kLivoxLidarEventGetUpgradeProgress, Some HGetUpgradeProgress,
       kLivoxLidarUpgradeGetUpgradeProgress),
    (kLivoxLidarUpgradeGetUpgradeProgress, kLivoxLidarEventComplete, Some HUpgradeComplete,
       kLivoxLidarUpgradeComplete),
    (kLivoxLidarUpgradeComplete, kLivoxLidarEventComplete, Some HUpgradeComplete, kLivoxLidarUpgradeComplete),
    (kLivoxLidarUpgradeComplete, kLivoxLidarEventReinit, None, kLivoxLidarUpgradeIdle)]"

definition kGeneralTryCountLimit :: u32 where "kGeneralTryCountLimit = 10"
definition kGetProcessTryCountLimit :: u32 where "kGetProcessTryCountLimit = 30"
definition kSystemIsNotReady :: u8 where "kSystemIsNotReady = 2"
definition EraseFirmware :: u8 where "EraseFirmware = 0x34"

section \<open>Requests\<close>

datatype upgrade_request =
    StartRequest "u8 list"
  | XferRequest (xfer_offset: u32) (xfer_length: u32) (xfer_encrypt: u8) (xfer_rsvd: "u8 list") (xfer_data: "u8 list")
  | CompleteXferRequest "u8 list"
  | ProgressRequest
  | RebootRequest

fun upgrade_bytes :: "upgrade_request \<Rightarrow> u8 list" where
  "upgrade_bytes (StartRequest b) = b"
| "upgrade_bytes (XferRequest ofs n enc rs d) = le32 ofs @ le32 n @ [enc] @ rs @ d"
| "upgrade_bytes (CompleteXferRequest b) = b"
| "upgrade_bytes ProgressRequest = []"
| "upgrade_bytes RebootRequest = le16 100"

text \<open>The class, and what is outside it: the requests put on the wire, those pending, the observer's calls.\<close>

record upgrader =
  read_offset :: u32
  read_length :: u32
  u_handle :: u32
  fsm_state :: u32
  upgrade_error :: u32
  u_progress :: u8
  try_count :: u32
  observer :: bool
  issued :: nat
  wire :: "upgrade_request list"
  in_flight :: "upgrade_request list"
  seen :: "(LivoxLidarFsmEvent \<times> u8) list"
  acked :: "upgrade_request list"

datatype issue = NoHandler | Accepted | Refused

record upgrade_env =
  env_fw :: Firmware
  env_issue :: "nat \<Rightarrow> issue"
  env_rsvd :: "nat \<Rightarrow> u8 list"

definition new_upgrader :: "u32 \<Rightarrow> upgrader" where
  "new_upgrader handle = \<lparr>read_offset = 0, read_length = 1024, u_handle = handle, fsm_state = 0,
     upgrade_error = 0, u_progress = 0, try_count = 0, observer = False,
     issued = 0, wire = [], in_flight = [], seen = [], acked = []\<rparr>"

definition AddUpgradeProgressObserver :: "upgrader \<Rightarrow> upgrader" where
  "AddUpgradeProgressObserver u = u\<lparr>observer := True\<rparr>"

definition IsUpgradeComplete :: "upgrader \<Rightarrow> bool" where
  "IsUpgradeComplete u \<longleftrightarrow> fsm_state u = fsm_state_code kLivoxLidarUpgradeIdle"

definition IsUpgradeError :: "upgrader \<Rightarrow> bool" where
  "IsUpgradeError u \<longleftrightarrow> fsm_state u = fsm_state_code kLivoxLidarUpgradeTimeout \<or>
     fsm_state u = fsm_state_code kLivoxLidarUpgradeErr"

text \<open>The destructor waits, testing every 100 ms, until one of the two holds.\<close>

definition destructor_waits :: "upgrader \<Rightarrow> bool" where
  "destructor_waits u \<longleftrightarrow> \<not> IsUpgradeError u \<and> \<not> IsUpgradeComplete u"

text \<open>
  The member functions: the request handed to \<open>CommandImpl\<close>, none where they return before; \<open>None\<close>
  where a \<open>memcpy\<close> leaves its source or its buffer.
\<close>

definition StartUpgrade :: "upgrade_env \<Rightarrow> upgrader \<Rightarrow> (upgrade_request option \<times> upgrader) option" where
  "StartUpgrade e u =
     (let u = u\<lparr>read_offset := 0, upgrade_error := 0, u_progress := 0\<rparr>;
          h = header (env_fw e);
          b = [firmware_type h, encrypt_type h] @ le32 (firmware_length h) @ [fw_device_type h]
      in if FirmwarePackageVersion (env_fw e) = kEnlFileVersionV3
         then Some (Some (StartRequest (b @ le32 (firmware_version h) @ le64 (modify_time h) @
           take 32 (hw_whitelist h))), u)
         else Some (Some (StartRequest b), u))"

definition XferFirmware :: "upgrade_env \<Rightarrow> upgrader \<Rightarrow> (upgrade_request option \<times> upgrader) option" where
  "XferFirmware e u =
     (let h = header (env_fw e); fw_len = firmware_length h; n = read_length u
      in if read_offset u < fw_len
         then let n = (if fw_len - read_offset u < n then fw_len - read_offset u else n)
              in do {
                d \<leftarrow> fw_data (env_fw e);
                chunk \<leftarrow> peek d (unat (read_offset u)) (unat n);
                if 2048 < 12 + unat n then None
                else Some (Some (XferRequest (read_offset u) n (encrypt_type h) (env_rsvd e (issued u)) chunk), u) }
         else Some (None, u))"

definition CompleteXferFirmware :: "upgrade_env \<Rightarrow> upgrader \<Rightarrow> (upgrade_request option \<times> upgrader) option" where
  "CompleteXferFirmware e u =
     (let h = header (env_fw e); n = (ucast (checksum_length h) :: u8)
      in do {
        c \<leftarrow> peek (header_bytes h) 20 (unat n);
        Some (Some (CompleteXferRequest ([checksum_type h, n] @ c)), u) })"

definition GetUpgradeProgress :: "upgrade_env \<Rightarrow> upgrader \<Rightarrow> (upgrade_request option \<times> upgrader) option" where
  "GetUpgradeProgress e u = Some (Some ProgressRequest, u)"

definition UpgradeComplete :: "upgrade_env \<Rightarrow> upgrader \<Rightarrow> (upgrade_request option \<times> upgrader) option" where
  "UpgradeComplete e u = Some (Some RebootRequest, u)"

fun event_handler :: "fsm_handler \<Rightarrow> upgrade_env \<Rightarrow> upgrader \<Rightarrow> (upgrade_request option \<times> upgrader) option" where
  "event_handler HStartUpgrade = StartUpgrade"
| "event_handler HXferFirmware = XferFirmware"
| "event_handler HCompleteXferFirmware = CompleteXferFirmware"
| "event_handler HGetUpgradeProgress = GetUpgradeProgress"
| "event_handler HUpgradeComplete = UpgradeComplete"

section \<open>Response handlers\<close>

text \<open>
  Each ends in one call of \<open>FsmEventHandler\<close>, given here with its arguments. The response is a pointer
  into the acknowledgement; it is null after a timeout.
\<close>

type_synonym reaction = "(LivoxLidarFsmEvent \<times> u8 \<times> upgrader) option"

definition resp_byte :: "u8 list option \<Rightarrow> nat \<Rightarrow> u8 option" where
  "resp_byte response i = do { b \<leftarrow> response; rd8 b i }"

text \<open>The branch for a command that failed, the same in all five up to the limit and the events.\<close>

definition retry :: "u32 \<Rightarrow> LivoxLidarFsmEvent \<Rightarrow> u8 \<Rightarrow> LivoxLidarFsmEvent \<Rightarrow> upgrader \<Rightarrow> reaction" where
  "retry limit again p give_up u =
     (let u = u\<lparr>try_count := try_count u + 1\<rparr>
      in if try_count u < limit then Some (again, p, u) else Some (give_up, 100, u\<lparr>try_count := 0\<rparr>))"

definition StartUpgradeResponseHandler :: "LivoxLidarStatus \<Rightarrow> u8 list option \<Rightarrow> upgrader \<Rightarrow> reaction" where
  "StartUpgradeResponseHandler st response u =
     (if st = kLivoxLidarStatusSuccess
      then do {
        let u = u\<lparr>try_count := 0\<rparr>;
        ret \<leftarrow> resp_byte response 0;
        if ret \<noteq> 0
        then if ret = kSystemIsNotReady then Some (kLivoxLidarEventRequestUpgrade, 10, u)
             else if ret = EraseFirmware then Some (kLivoxLidarEventRequestUpgrade, 10, u)
             else Some (kLivoxLidarEventErr, 100, u)
        else Some (kLivoxLidarEventXferFirmware, 20, u) }
      else retry kGeneralTryCountLimit kLivoxLidarEventRequestUpgrade 10 kLivoxLidarEventErr u)"

definition XferFirmwareResponseHandler :: "Firmware \<Rightarrow> LivoxLidarStatus \<Rightarrow> u8 list option \<Rightarrow> upgrader \<Rightarrow> reaction" where
  "XferFirmwareResponseHandler fw st response u =
     (if st = kLivoxLidarStatusSuccess
      then do {
        let u = u\<lparr>try_count := 0\<rparr>;
        ret \<leftarrow> resp_byte response 0;
        if ret \<noteq> 0 then Some (kLivoxLidarEventErr, 100, u)
        else let u = u\<lparr>read_offset := read_offset u + read_length u\<rparr>
             in if read_offset u < firmware_length (header fw)
                then Some (kLivoxLidarEventXferFirmware, 20, u)
                else Some (kLivoxLidarEventCompleteXferFirmware, 40, u) }
      else retry kGeneralTryCountLimit kLivoxLidarEventXferFirmware 20 kLivoxLidarEventErr u)"

definition CompleteXferFirmwareResponseHandler :: "LivoxLidarStatus \<Rightarrow> u8 list option \<Rightarrow> upgrader \<Rightarrow> reaction" where
  "CompleteXferFirmwareResponseHandler st response u =
     (if st = kLivoxLidarStatusSuccess
      then do {
        let u = u\<lparr>try_count := 0\<rparr>;
        ret \<leftarrow> resp_byte response 0;
        if ret \<noteq> 0 then Some (kLivoxLidarEventErr, 100, u)
        else Some (kLivoxLidarEventGetUpgradeProgress, 50, u) }
      else retry kGeneralTryCountLimit kLivoxLidarEventCompleteXferFirmware 50 kLivoxLidarEventErr u)"

definition GetProgressResponseHandler :: "LivoxLidarStatus \<Rightarrow> u8 list option \<Rightarrow> upgrader \<Rightarrow> reaction" where
  "GetProgressResponseHandler st response u =
     (if st = kLivoxLidarStatusSuccess
      then do {
        let u = u\<lparr>try_count := 0\<rparr>;
        ret \<leftarrow> resp_byte response 0;
        if ret \<noteq> 0 then Some (kLivoxLidarEventErr, 100, u)
        else do {
          pr \<leftarrow> resp_byte response 1;
          if pr < 100 then Some (kLivoxLidarEventGetUpgradeProgress, pr div 2 + 50, u)
          else Some (kLivoxLidarEventComplete, 100, u) } }
      else retry kGetProcessTryCountLimit kLivoxLidarEventGetUpgradeProgress (u_progress u div 2 + 50)
        kLivoxLidarEventErr u)"

definition UpgradeCompleteResponseHandler :: "LivoxLidarStatus \<Rightarrow> u8 list option \<Rightarrow> upgrader \<Rightarrow> reaction" where
  "UpgradeCompleteResponseHandler st response u =
     (if st = kLivoxLidarStatusSuccess
      then do {
        let u = u\<lparr>try_count := 0\<rparr>;
        ret \<leftarrow> resp_byte response 0;
        if ret \<noteq> 0 then Some (kLivoxLidarEventErr, 100, u)
        else Some (kLivoxLidarEventReinit, 100, u) }
      else retry kGeneralTryCountLimit kLivoxLidarEventComplete 100 kLivoxLidarEventReinit u)"

text \<open>The handler that was passed with a request.\<close>

definition react :: "Firmware \<Rightarrow> upgrade_request \<Rightarrow> LivoxLidarStatus \<Rightarrow> u8 list option \<Rightarrow> upgrader \<Rightarrow> reaction" where
  "react fw r st response u =
     (case r of StartRequest b \<Rightarrow> StartUpgradeResponseHandler st response u
      | XferRequest ofs n enc rs d \<Rightarrow> XferFirmwareResponseHandler fw st response u
      | CompleteXferRequest b \<Rightarrow> CompleteXferFirmwareResponseHandler st response u
      | ProgressRequest \<Rightarrow> GetProgressResponseHandler st response u
      | RebootRequest \<Rightarrow> UpgradeCompleteResponseHandler st response u)"

section \<open>The state machine\<close>

definition LivoxLidarFsmStateChange :: "LivoxLidarFsmEvent \<Rightarrow> upgrader \<Rightarrow> upgrader" where
  "LivoxLidarFsmStateChange ev u =
     (if fsm_event_code ev < fsm_event_code kLivoxLidarEventUndef then u\<lparr>fsm_state := fsm_event_code ev\<rparr> else u)"

definition fsm_row :: "LivoxLidarFsmEvent \<Rightarrow> u32 \<Rightarrow> (fsm_handler option \<times> LivoxLidarFsmState) option" where
  "fsm_row ev st = map_option (\<lambda>(s, v, f, next). (f, next))
     (List.find (\<lambda>(s, v, f, next). st = fsm_state_code s \<and> ev = v) upgrade_event_table)"

text \<open>The first half of \<open>FsmEventHandler\<close>: the new state and the handler to call.\<close>

definition fsm_next :: "LivoxLidarFsmEvent \<Rightarrow> upgrader \<Rightarrow> fsm_handler option \<times> upgrader" where
  "fsm_next ev u =
     (let u = (if ev = kLivoxLidarEventTimeout \<or> ev = kLivoxLidarEventErr then LivoxLidarFsmStateChange ev u else u)
      in case fsm_row ev (fsm_state u) of
           None \<Rightarrow> (None, u)
         | Some (f, next) \<Rightarrow> (f, u\<lparr>fsm_state := fsm_state_code next\<rparr>))"

definition observe :: "LivoxLidarFsmEvent \<Rightarrow> u8 \<Rightarrow> upgrader \<Rightarrow> upgrader" where
  "observe ev p u = (if observer u then u\<lparr>seen := seen u @ [(ev, p)]\<rparr> else u)"

definition pend :: "upgrade_request \<Rightarrow> upgrader \<Rightarrow> upgrader" where
  "pend r u = u\<lparr>issued := issued u + 1, in_flight := in_flight u @ [r]\<rparr>"

lemma try_count_simps [simp]:
  "try_count (pend r u) = try_count u" "try_count (snd (fsm_next ev u)) = try_count u"
  by (simp_all add: pend_def fsm_next_def LivoxLidarFsmStateChange_def Let_def split: option.split)

lemma try_count_event_handler:
  "event_handler f e u = Some (r, u') \<Longrightarrow> try_count u' = try_count u"
  by (cases f) (auto simp: StartUpgrade_def XferFirmware_def CompleteXferFirmware_def GetUpgradeProgress_def
      UpgradeComplete_def Let_def bind_eq_Some_conv split: if_splits)

lemma fsm_row_handler:
  "fsm_row ev st = Some (Some f, n) \<Longrightarrow>
     ev \<notin> {kLivoxLidarEventErr, kLivoxLidarEventTimeout, kLivoxLidarEventReinit}"
  by (auto simp: fsm_row_def upgrade_event_table_def split: if_splits)

lemma fsm_next_handler:
  "fst (fsm_next ev u) = Some f \<Longrightarrow>
     ev \<notin> {kLivoxLidarEventErr, kLivoxLidarEventTimeout, kLivoxLidarEventReinit}"
  by (auto simp: fsm_next_def Let_def dest: fsm_row_handler split: option.splits)

text \<open>A refused request is retried fewer times than the limits allow, which bounds the nesting.\<close>

definition ends :: "LivoxLidarFsmEvent \<Rightarrow> bool" where
  "ends ev \<longleftrightarrow> ev \<in> {kLivoxLidarEventErr, kLivoxLidarEventTimeout, kLivoxLidarEventReinit}"

definition tries_left :: "u32 \<Rightarrow> nat" where
  "tries_left n = (if n = - 1 then 50 else 40 - unat n)"

lemma retry_decreases:
  assumes "retry limit again p give_up u = Some (ev, q, u')" "limit \<le> 30" "ends give_up"
  shows "ends ev \<or> tries_left (try_count u') < tries_left (try_count u)"
proof (cases "try_count u + 1 < limit")
  case True
  then have u': "try_count u' = try_count u + 1" using assms(1) by (auto simp: retry_def Let_def)
  show ?thesis
  proof (cases "try_count u = - 1")
    case True
    then show ?thesis by (simp add: u' tries_left_def)
  next
    case False
    have "unat (try_count u + 1) < 30"
      using True assms(2) by (simp add: word_less_nat_alt word_le_nat_alt)
    moreover have "unat (try_count u + 1) = unat (try_count u) + 1"
      using False unatSuc [of "try_count u"] by (simp add: add.commute eq_neg_iff_add_eq_0)
    moreover have "try_count u + 1 \<noteq> - 1"
    proof
      assume m: "try_count u + 1 = - 1"
      have "(- 1 :: u32) < limit" using True unfolding m .
      then show False by (simp add: not_less)
    qed
    ultimately show ?thesis using False by (simp add: u' tries_left_def) arith
  qed
next
  case False
  then show ?thesis using assms(1,3) by (auto simp: retry_def Let_def)
qed

lemma react_decreases:
  "react fw r kLivoxLidarStatusSendFailed None u = Some (ev, q, u') \<Longrightarrow>
     ends ev \<or> tries_left (try_count u') < tries_left (try_count u)"
  by (auto simp: react_def StartUpgradeResponseHandler_def XferFirmwareResponseHandler_def
      CompleteXferFirmwareResponseHandler_def GetProgressResponseHandler_def UpgradeCompleteResponseHandler_def
      kGeneralTryCountLimit_def kGetProcessTryCountLimit_def ends_def
      dest!: retry_decreases split: upgrade_request.splits)

function FsmEventHandler :: "upgrade_env \<Rightarrow> LivoxLidarFsmEvent \<Rightarrow> u8 \<Rightarrow> upgrader \<Rightarrow> upgrader option" where
  "FsmEventHandler e ev p u = do {
     u' \<leftarrow> (case fst (fsm_next ev u) of
         None \<Rightarrow> Some (snd (fsm_next ev u))
       | Some f \<Rightarrow> (case event_handler f e (snd (fsm_next ev u)) of
           None \<Rightarrow> None
         | Some (None, u1) \<Rightarrow> Some u1
         | Some (Some r, u1) \<Rightarrow> (case env_issue e (issued u1) of
             NoHandler \<Rightarrow> Some (u1\<lparr>issued := issued u1 + 1\<rparr>)
           | Accepted \<Rightarrow> Some ((pend r u1)\<lparr>wire := wire u1 @ [r]\<rparr>)
           | Refused \<Rightarrow> (case react (env_fw e) r kLivoxLidarStatusSendFailed None (pend r u1) of
               None \<Rightarrow> None
             | Some (ev', p', u2) \<Rightarrow> FsmEventHandler e ev' p' u2))));
     Some (observe ev p u') }"
  by pat_completeness auto
termination
  by (relation "measures [\<lambda>(e, ev, p, u). if ends ev then 0 else 1, \<lambda>(e, ev, p, u). tries_left (try_count u)]")
    (auto dest!: react_decreases fsm_next_handler try_count_event_handler simp: ends_def)

declare FsmEventHandler.simps [simp del]

definition StartUpgradeLivoxLidar :: "upgrade_env \<Rightarrow> upgrader \<Rightarrow> upgrader option" where
  "StartUpgradeLivoxLidar e u = FsmEventHandler e kLivoxLidarEventRequestUpgrade 10 u"

text \<open>
  The i-th pending request is answered, or times out. \<open>acked\<close> records the chunks the lidar has
  accepted.
\<close>

definition deliver :: "upgrade_env \<Rightarrow> nat \<times> LivoxLidarStatus \<times> u8 list option \<Rightarrow> upgrader \<Rightarrow> upgrader option" where
  "deliver e x u = (case x of (i, st, response) \<Rightarrow>
     if i < length (in_flight u)
     then let r = in_flight u ! i;
              u = u\<lparr>in_flight := take i (in_flight u) @ drop (i + 1) (in_flight u)\<rparr>;
              u = (if st = kLivoxLidarStatusSuccess \<and> resp_byte response 0 = Some 0 \<and> is_XferRequest r
                   then u\<lparr>acked := acked u @ [r]\<rparr> else u)
          in do { (ev, p, u) \<leftarrow> react (env_fw e) r st response u; FsmEventHandler e ev p u }
     else Some u)"

fun deliver_all :: "upgrade_env \<Rightarrow> (nat \<times> LivoxLidarStatus \<times> u8 list option) list \<Rightarrow> upgrader \<Rightarrow> upgrader option" where
  "deliver_all e [] u = Some u"
| "deliver_all e (x # xs) u = do { u \<leftarrow> deliver e x u; deliver_all e xs u }"

section \<open>The chunks of a firmware\<close>

definition chunk_count :: "u8 list \<Rightarrow> nat" where
  "chunk_count d = (length d + 1023) div 1024"

text \<open>What the lidar is to write, and where.\<close>

definition firmware_chunk :: "u8 list \<Rightarrow> nat \<Rightarrow> u32 \<times> u8 list" where
  "firmware_chunk d k = (of_nat (1024 * k), take 1024 (drop (1024 * k) d))"

definition chunks_of :: "upgrade_request list \<Rightarrow> (u32 \<times> u8 list) list" where
  "chunks_of rs = map (\<lambda>r. (xfer_offset r, xfer_data r)) rs"

lemma concat_chunks: "concat (map (\<lambda>k. snd (firmware_chunk d k)) [0..<k]) = take (1024 * k) d"
  by (induction k) (simp_all add: firmware_chunk_def take_add [symmetric] add.commute)

lemma less_chunk_count: "1024 * k < length d \<longleftrightarrow> k < chunk_count d"
  using less_eq_div_iff_mult_less_eq [of 1024 "Suc k" "length d + 1023"]
  by (simp add: chunk_count_def Suc_le_eq mult.commute less_iff_Suc_add)

lemma chunk_count_covers: "length d \<le> 1024 * chunk_count d"
  using less_chunk_count [of "chunk_count d" d] by simp

lemma all_chunks: "concat (map snd (map (firmware_chunk d) [0..<chunk_count d])) = d"
  using concat_chunks [of d "chunk_count d"] chunk_count_covers [of d] by (simp add: comp_def)

definition chunk_request :: "upgrade_env \<Rightarrow> u8 list \<Rightarrow> nat \<Rightarrow> nat \<Rightarrow> upgrade_request" where
  "chunk_request e d k i = XferRequest (of_nat (1024 * k)) (of_nat (min 1024 (length d - 1024 * k)))
     (encrypt_type (header (env_fw e))) (env_rsvd e i) (take 1024 (drop (1024 * k) d))"

text \<open>A firmware as \<open>Open\<close> leaves it, of a length that the offset can pass without wrapping.\<close>

definition firmware_ok :: "Firmware \<Rightarrow> u8 list \<Rightarrow> bool" where
  "firmware_ok fw d \<longleftrightarrow> fw_data fw = Some d \<and> firmware_length (header fw) = of_nat (length d) \<and>
     d \<noteq> [] \<and> length d \<le> 2 ^ 32 - 1024 \<and> header_ok (header fw)"

definition upgrade_ok :: "upgrade_env \<Rightarrow> u8 list \<Rightarrow> bool" where
  "upgrade_ok e d \<longleftrightarrow> firmware_ok (env_fw e) d \<and> (\<forall>n. env_issue e n = Accepted)"

lemma upgrade_okD: "upgrade_ok e d \<Longrightarrow> firmware_ok (env_fw e) d"
  by (simp add: upgrade_ok_def)

lemma of_nat_less_u32: "a < 2 ^ 32 \<Longrightarrow> b < 2 ^ 32 \<Longrightarrow> (of_nat a :: u32) < of_nat b \<longleftrightarrow> a < b"
  by (simp add: word_less_nat_alt unat_of_nat_eq)

lemma XferFirmware_chunk:
  assumes "firmware_ok (env_fw e) d" "read_length u = 1024" "read_offset u = of_nat (1024 * k)" "1024 * k < length d"
  shows "XferFirmware e u = Some (Some (chunk_request e d k (issued u)), u)"
proof -
  let ?n = "length d - 1024 * k"
  have b: "1024 * k < 2 ^ 32" "length d < 2 ^ 32" using assms(1,4) by (simp_all add: firmware_ok_def)
  have off: "unat (read_offset u) = 1024 * k" unfolding assms(3) using b(1) by (rule unat_of_nat_eq)
  have less: "read_offset u < of_nat (length d)" using b assms(3,4) by (simp add: of_nat_less_u32 del: of_nat_mult)
  have fl: "firmware_length (header (env_fw e)) = of_nat (length d)" using assms(1) by (simp add: firmware_ok_def)
  have left: "of_nat (length d) - read_offset u = of_nat ?n" using assms(3,4) by (simp add: of_nat_diff)
  have "(of_nat ?n :: u32) < of_nat 1024 \<longleftrightarrow> ?n < 1024" using b by (intro of_nat_less_u32) simp_all
  then have n: "(if of_nat ?n < (1024 :: u32) then of_nat ?n else 1024) = (of_nat (min 1024 ?n) :: u32)" by simp
  have m: "unat (of_nat (min 1024 ?n) :: u32) = min 1024 ?n" by (simp add: unat_of_nat_eq min_def)
  have "peek d (1024 * k) (min 1024 ?n) = Some (take 1024 (drop (1024 * k) d))"
    using assms(4) by (auto simp: peek_def min_def)
  moreover have "(if firmware_length (header (env_fw e)) - read_offset u < read_length u
      then firmware_length (header (env_fw e)) - read_offset u else read_length u) = of_nat (min 1024 ?n)"
    unfolding fl left assms(2) by (rule n)
  ultimately show ?thesis
    using assms(1,3) less off unfolding XferFirmware_def Let_def
    by (simp add: firmware_ok_def m chunk_request_def)
qed

lemma next_offset:
  assumes "firmware_ok (env_fw e) d" "1024 * k < length d"
  shows "(of_nat (1024 * k) + 1024 :: u32) = of_nat (1024 * Suc k)"
    "(of_nat (1024 * Suc k) :: u32) < firmware_length (header (env_fw e)) \<longleftrightarrow> 1024 * Suc k < length d"
proof -
  show "(of_nat (1024 * k) + 1024 :: u32) = of_nat (1024 * Suc k)" by simp
  have "1024 * Suc k < 2 ^ 32 \<or> 1024 * Suc k = 2 ^ 32 \<and> False" "length d < 2 ^ 32"
    using assms by (auto simp: firmware_ok_def)
  then show "(of_nat (1024 * Suc k) :: u32) < firmware_length (header (env_fw e)) \<longleftrightarrow> 1024 * Suc k < length d"
    using assms(1) by (simp add: firmware_ok_def of_nat_less_u32 del: of_nat_mult of_nat_Suc mult_Suc_right)
qed

section \<open>One request at a time\<close>

text \<open>With a socket that accepts, an event is one transition and at most one request.\<close>

definition sent :: "upgrade_request \<Rightarrow> upgrader \<Rightarrow> upgrader" where
  "sent r u = (pend r u)\<lparr>wire := wire u @ [r]\<rparr>"

lemma FsmEventHandler_accepted:
  assumes "\<forall>n. env_issue e n = Accepted"
  shows "FsmEventHandler e ev p u = (case fst (fsm_next ev u) of
      None \<Rightarrow> Some (observe ev p (snd (fsm_next ev u)))
    | Some f \<Rightarrow> (case event_handler f e (snd (fsm_next ev u)) of
        None \<Rightarrow> None
      | Some (None, u1) \<Rightarrow> Some (observe ev p u1)
      | Some (Some r, u1) \<Rightarrow> Some (observe ev p (sent r u1))))"
  using assms by (subst FsmEventHandler.simps) (auto simp: sent_def split: option.splits)

text \<open>The table, state by state.\<close>

lemma fsm_rows:
  "fsm_row kLivoxLidarEventRequestUpgrade 0 = Some (Some HStartUpgrade, kLivoxLidarUpgradeRequest)"
  "fsm_row kLivoxLidarEventRequestUpgrade 1 = Some (Some HStartUpgrade, kLivoxLidarUpgradeRequest)"
  "fsm_row kLivoxLidarEventXferFirmware 1 = Some (Some HXferFirmware, kLivoxLidarUpgradeXferFirmware)"
  "fsm_row kLivoxLidarEventXferFirmware 2 = Some (Some HXferFirmware, kLivoxLidarUpgradeXferFirmware)"
  "fsm_row kLivoxLidarEventCompleteXferFirmware 2 =
     Some (Some HCompleteXferFirmware, kLivoxLidarUpgradeCompleteXferFirmware)"
  "fsm_row kLivoxLidarEventCompleteXferFirmware 3 =
     Some (Some HCompleteXferFirmware, kLivoxLidarUpgradeCompleteXferFirmware)"
  "fsm_row kLivoxLidarEventGetUpgradeProgress 3 =
     Some (Some HGetUpgradeProgress, kLivoxLidarUpgradeGetUpgradeProgress)"
  "fsm_row kLivoxLidarEventGetUpgradeProgress 4 =
     Some (Some HGetUpgradeProgress, kLivoxLidarUpgradeGetUpgradeProgress)"
  "fsm_row kLivoxLidarEventComplete 4 = Some (Some HUpgradeComplete, kLivoxLidarUpgradeComplete)"
  "fsm_row kLivoxLidarEventComplete 5 = Some (Some HUpgradeComplete, kLivoxLidarUpgradeComplete)"
  "fsm_row kLivoxLidarEventReinit 5 = Some (None, kLivoxLidarUpgradeIdle)"
  "fsm_row kLivoxLidarEventErr 7 = None"
  by (simp_all add: fsm_row_def upgrade_event_table_def)

text \<open>What follows from an event, as one equation per event.\<close>

lemma transitions:
  assumes "\<forall>n. env_issue e n = Accepted"
  shows "fsm_state u \<in> {0, 1} \<Longrightarrow> FsmEventHandler e kLivoxLidarEventRequestUpgrade p u =
      (case StartUpgrade e (u\<lparr>fsm_state := 1\<rparr>) of Some (Some r, u1) \<Rightarrow>
         Some (observe kLivoxLidarEventRequestUpgrade p (sent r u1)) | _ \<Rightarrow> None)"
    and "fsm_state u \<in> {1, 2} \<Longrightarrow> XferFirmware e (u\<lparr>fsm_state := 2\<rparr>) = Some (Some r, u1) \<Longrightarrow>
      FsmEventHandler e kLivoxLidarEventXferFirmware p u = Some (observe kLivoxLidarEventXferFirmware p (sent r u1))"
    and "fsm_state u \<in> {2, 3} \<Longrightarrow> CompleteXferFirmware e (u\<lparr>fsm_state := 3\<rparr>) = Some (Some r, u1) \<Longrightarrow>
      FsmEventHandler e kLivoxLidarEventCompleteXferFirmware p u =
        Some (observe kLivoxLidarEventCompleteXferFirmware p (sent r u1))"
    and "fsm_state u \<in> {3, 4} \<Longrightarrow> FsmEventHandler e kLivoxLidarEventGetUpgradeProgress p u =
      Some (observe kLivoxLidarEventGetUpgradeProgress p (sent ProgressRequest (u\<lparr>fsm_state := 4\<rparr>)))"
    and "fsm_state u \<in> {4, 5} \<Longrightarrow> FsmEventHandler e kLivoxLidarEventComplete p u =
      Some (observe kLivoxLidarEventComplete p (sent RebootRequest (u\<lparr>fsm_state := 5\<rparr>)))"
    and "fsm_state u = 5 \<Longrightarrow> FsmEventHandler e kLivoxLidarEventReinit p u =
      Some (observe kLivoxLidarEventReinit p (u\<lparr>fsm_state := 0\<rparr>))"
    and "FsmEventHandler e kLivoxLidarEventErr p u = Some (observe kLivoxLidarEventErr p (u\<lparr>fsm_state := 7\<rparr>))"
  by (auto simp: FsmEventHandler_accepted [OF assms] fsm_next_def fsm_rows Let_def GetUpgradeProgress_def
      UpgradeComplete_def LivoxLidarFsmStateChange_def StartUpgrade_def)

definition complete_request :: "upgrade_env \<Rightarrow> upgrade_request" where
  "complete_request e = (let h = header (env_fw e) in CompleteXferRequest
     ([checksum_type h, ucast (checksum_length h)] @
      take (unat (ucast (checksum_length h) :: u8)) (drop 20 (header_bytes h))))"

lemma CompleteXferFirmware_ok:
  "firmware_ok (env_fw e) d \<Longrightarrow> CompleteXferFirmware e u = Some (Some (complete_request e), u)"
  using unat_u8 [of "ucast (checksum_length (header (env_fw e)))"]
  by (auto simp: CompleteXferFirmware_def complete_request_def Let_def peek_def firmware_ok_def
      length_header_bytes header_size_def simp del: unat_u8)

definition start_request :: "upgrade_env \<Rightarrow> upgrade_request" where
  "start_request e = (let h = header (env_fw e);
       b = [firmware_type h, encrypt_type h] @ le32 (firmware_length h) @ [fw_device_type h]
     in StartRequest (if file_version h = kEnlFileVersionV3
        then b @ le32 (firmware_version h) @ le64 (modify_time h) @ take 32 (hw_whitelist h) else b))"

lemma StartUpgrade_eq:
  "StartUpgrade e u = Some (Some (start_request e), u\<lparr>read_offset := 0, upgrade_error := 0, u_progress := 0\<rparr>)"
  by (simp add: StartUpgrade_def start_request_def FirmwarePackageVersion_def Let_def)

section \<open>The invariant of an upgrade\<close>

text \<open>The request in flight, and how far the upgrade is: k chunks are accepted.\<close>

fun stage :: "u8 list \<Rightarrow> nat \<Rightarrow> upgrade_request \<Rightarrow> upgrader \<Rightarrow> bool" where
  "stage d k (StartRequest b) u \<longleftrightarrow> fsm_state u = 1 \<and> k = 0 \<and> read_offset u = 0 \<and> try_count u < 10"
| "stage d k (XferRequest ofs n enc rs c) u \<longleftrightarrow> fsm_state u = 2 \<and> read_offset u = of_nat (1024 * k) \<and>
     1024 * k < length d \<and> (ofs, c) = firmware_chunk d k \<and> try_count u < 10"
| "stage d k (CompleteXferRequest b) u \<longleftrightarrow> fsm_state u = 3 \<and> k = chunk_count d \<and> try_count u < 10"
| "stage d k ProgressRequest u \<longleftrightarrow> fsm_state u = 4 \<and> k = chunk_count d \<and> try_count u < 30"
| "stage d k RebootRequest u \<longleftrightarrow> fsm_state u = 5 \<and> k = chunk_count d \<and> try_count u < 10"

definition upgrade_at :: "u8 list \<Rightarrow> nat \<Rightarrow> upgrader \<Rightarrow> bool" where
  "upgrade_at d k u \<longleftrightarrow> read_length u = 1024 \<and>
     chunks_of (acked u) = map (firmware_chunk d) [0..<k] \<and>
     (k = chunk_count d \<or> (\<forall>b. CompleteXferRequest b \<notin> set (wire u))) \<and>
     (case in_flight u of [] \<Rightarrow> \<not> destructor_waits u | [r] \<Rightarrow> stage d k r u | _ \<Rightarrow> False)"

definition upgrade_inv :: "u8 list \<Rightarrow> upgrader \<Rightarrow> bool" where
  "upgrade_inv d u \<longleftrightarrow> (\<exists>k. upgrade_at d k u)"

lemmas class_simps = sent_def pend_def observe_def IsUpgradeError_def IsUpgradeComplete_def
  destructor_waits_def upgrade_at_def

lemma stage_seen [simp]: "stage d k r (u\<lparr>seen := x\<rparr>) = stage d k r u"
  by (cases r) simp_all

lemma upgrade_at_observe [simp]: "upgrade_at d k (observe ev p u) = upgrade_at d k u"
  by (simp add: class_simps split: list.split)

lemma stage_sent [simp]: "stage d k r' (sent r u) = stage d k r' u"
  by (cases r') (simp_all add: class_simps)

text \<open>Where one request goes out of a state in which none is pending.\<close>

definition ready :: "u8 list \<Rightarrow> nat \<Rightarrow> upgrader \<Rightarrow> bool" where
  "ready d k u \<longleftrightarrow> read_length u = 1024 \<and> chunks_of (acked u) = map (firmware_chunk d) [0..<k] \<and>
     (k = chunk_count d \<or> (\<forall>b. CompleteXferRequest b \<notin> set (wire u))) \<and> in_flight u = []"

lemma ready_sent: "ready d k u \<Longrightarrow> stage d k r u \<Longrightarrow> upgrade_at d k (sent r u)"
  by (cases r) (auto simp: class_simps ready_def)

lemma ready_simps [simp]:
  "ready d k (u\<lparr>try_count := t\<rparr>) = ready d k u" "ready d k (u\<lparr>fsm_state := st\<rparr>) = ready d k u"
  "ready d k (u\<lparr>read_offset := ofs\<rparr>) = ready d k u" "ready d k (u\<lparr>upgrade_error := x\<rparr>) = ready d k u"
  "ready d k (u\<lparr>u_progress := p\<rparr>) = ready d k u"
  by (simp_all add: ready_def)

lemma ready_ends: "ready d k u \<Longrightarrow> fsm_state u \<in> {0, 7} \<Longrightarrow> upgrade_at d k u"
  by (auto simp: class_simps ready_def)

text \<open>The events, from the states they come in.\<close>

definition at_some :: "u8 list \<Rightarrow> upgrader option \<Rightarrow> bool" where
  "at_some d res \<longleftrightarrow> (\<exists>u k. res = Some u \<and> upgrade_at d k u)"

lemma at_someI: "upgrade_at d k u \<Longrightarrow> at_some d (Some u)"
  by (auto simp: at_some_def)

lemma at_some_sent: "ready d k u \<Longrightarrow> stage d k r u \<Longrightarrow> at_some d (Some (observe ev p (sent r u)))"
  by (rule at_someI [of d k]) (simp add: ready_sent)

lemma at_some_ends: "ready d k u \<Longrightarrow> fsm_state u \<in> {0, 7} \<Longrightarrow> at_some d (Some (observe ev p u))"
  by (rule at_someI [of d k]) (simp add: ready_ends)

lemma step_start:
  assumes "upgrade_ok e d" "ready d 0 u" "fsm_state u \<in> {0, 1}" "try_count u < 10"
  shows "at_some d (FsmEventHandler e kLivoxLidarEventRequestUpgrade p u)"
  using assms transitions(1) [of e u p]
  by (auto simp: upgrade_ok_def StartUpgrade_eq start_request_def Let_def intro!: at_some_sent)

lemma step_chunk:
  assumes "upgrade_ok e d" "ready d k u" "fsm_state u \<in> {1, 2}" "try_count u < 10"
    "read_offset u = of_nat (1024 * k)" "1024 * k < length d"
  shows "at_some d (FsmEventHandler e kLivoxLidarEventXferFirmware p u)"
proof -
  have "XferFirmware e (u\<lparr>fsm_state := 2\<rparr>) = Some (Some (chunk_request e d k (issued u)), u\<lparr>fsm_state := 2\<rparr>)"
    using XferFirmware_chunk [OF upgrade_okD [OF assms(1)], of "u\<lparr>fsm_state := 2\<rparr>" k] assms by (simp add: ready_def)
  then have "FsmEventHandler e kLivoxLidarEventXferFirmware p u =
      Some (observe kLivoxLidarEventXferFirmware p (sent (chunk_request e d k (issued u)) (u\<lparr>fsm_state := 2\<rparr>)))"
    using assms(1,3) by (intro transitions(2)) (simp_all add: upgrade_ok_def)
  then show ?thesis
    using assms by (auto simp: chunk_request_def firmware_chunk_def intro!: at_some_sent)
qed

lemma step_complete_xfer:
  assumes "upgrade_ok e d" "ready d (chunk_count d) u" "fsm_state u \<in> {2, 3}" "try_count u < 10"
  shows "at_some d (FsmEventHandler e kLivoxLidarEventCompleteXferFirmware p u)"
  using assms transitions(3) [OF _ assms(3) CompleteXferFirmware_ok [OF upgrade_okD [OF assms(1)]], of p]
  by (auto simp: upgrade_ok_def complete_request_def Let_def intro!: at_some_sent)

lemma step_progress:
  assumes "upgrade_ok e d" "ready d (chunk_count d) u" "fsm_state u \<in> {3, 4}" "try_count u < 30"
  shows "at_some d (FsmEventHandler e kLivoxLidarEventGetUpgradeProgress p u)"
  using assms transitions(4) [of e u p] by (auto simp: upgrade_ok_def intro!: at_some_sent)

lemma step_reboot:
  assumes "upgrade_ok e d" "ready d (chunk_count d) u" "fsm_state u \<in> {4, 5}" "try_count u < 10"
  shows "at_some d (FsmEventHandler e kLivoxLidarEventComplete p u)"
  using assms transitions(5) [of e u p] by (auto simp: upgrade_ok_def intro!: at_some_sent)

lemma step_reinit:
  assumes "upgrade_ok e d" "ready d k u" "fsm_state u = 5"
  shows "at_some d (FsmEventHandler e kLivoxLidarEventReinit p u)"
  using assms transitions(6) [of e u p] by (auto simp: upgrade_ok_def intro!: at_some_ends)

lemma step_err:
  assumes "upgrade_ok e d" "ready d k u"
  shows "at_some d (FsmEventHandler e kLivoxLidarEventErr p u)"
  using assms transitions(7) [of e p u] by (auto simp: upgrade_ok_def intro!: at_some_ends)

text \<open>A response in each stage; \<open>None\<close> is an acknowledgement too short to be read.\<close>

lemma react_stage:
  assumes e: "upgrade_ok e d" and u: "ready d k' u" "stage d k r u"
    and k': "k' = (if st = kLivoxLidarStatusSuccess \<and> resp_byte response 0 = Some 0 \<and> is_XferRequest r then k + 1 else k)"
    and r: "react (env_fw e) r st response u = Some (ev, p, u1)"
  shows "at_some d (FsmEventHandler e ev p u1)"
proof -
  note err = step_err [OF e]
  note defs = react_def retry_def kGeneralTryCountLimit_def kGetProcessTryCountLimit_def
  show ?thesis
  proof (cases r)
    case (StartRequest b)
    have z: "(0 :: u32) = of_nat (1024 * 0)" by simp
    have d: "1024 * 0 < length d" using e by (simp add: upgrade_ok_def firmware_ok_def)
    show ?thesis
      using r u k' StartRequest step_start [OF e, of u1 p] step_chunk [OF e, of 0 u1 p] err [of 0 u1 p] z d
      by (auto simp: defs StartUpgradeResponseHandler_def Let_def bind_eq_Some_conv split: if_splits)
  next
    case (XferRequest ofs n enc rs c)
    then have k: "1024 * k < length d" "read_offset u = of_nat (1024 * k)" "fsm_state u = 2" "try_count u < 10"
      using u(2) by simp_all
    have len: "read_length u = 1024" using u(1) by (simp add: ready_def)
    note nx = next_offset [OF upgrade_okD [OF e] k(1)]
    show ?thesis
    proof (cases "st = kLivoxLidarStatusSuccess \<and> resp_byte response 0 = Some 0")
      case True
      let ?u = "u\<lparr>try_count := 0, read_offset := of_nat (1024 * Suc k)\<rparr>"
      have ev: "(ev, p, u1) = (if 1024 * Suc k < length d then (kLivoxLidarEventXferFirmware, 20, ?u)
          else (kLivoxLidarEventCompleteXferFirmware, 40, ?u))"
        using r True nx k(2) len XferRequest
        by (auto simp: defs XferFirmwareResponseHandler_def Let_def add.commute split: if_splits)
      have ready: "ready d (Suc k) ?u" using u(1) k' True XferRequest by simp
      show ?thesis
      proof (cases "1024 * Suc k < length d")
        case True
        then show ?thesis using ev ready step_chunk [OF e ready, of p] k(3) by auto
      next
        case False
        then have "Suc k = chunk_count d"
          using k(1) less_chunk_count [of k d] less_chunk_count [of "Suc k" d] by simp
        then show ?thesis using False ev ready step_complete_xfer [OF e, of ?u p] k(3) by auto
      qed
    next
      case False
      then have "ready d k u" using u(1) k' by (simp only: if_False) auto
      then show ?thesis
        using r k len XferRequest False step_chunk [OF e, of k u1 p] err [of k u1 p]
        by (auto simp: defs XferFirmwareResponseHandler_def Let_def bind_eq_Some_conv split: if_splits)
    qed
  next
    case (CompleteXferRequest b)
    show ?thesis
      using r u k' CompleteXferRequest step_complete_xfer [OF e, of u1 p] step_progress [OF e, of u1 p]
        err [of "chunk_count d" u1 p]
      by (auto simp: defs CompleteXferFirmwareResponseHandler_def Let_def bind_eq_Some_conv split: if_splits)
  next
    case ProgressRequest
    show ?thesis
      using r u k' ProgressRequest step_progress [OF e, of u1 p] step_reboot [OF e, of u1 p]
        err [of "chunk_count d" u1 p]
      by (auto simp: defs GetProgressResponseHandler_def Let_def bind_eq_Some_conv split: if_splits)
  next
    case RebootRequest
    show ?thesis
      using r u k' RebootRequest step_reboot [OF e, of u1 p] step_reinit [OF e, of "chunk_count d" u1 p]
        err [of "chunk_count d" u1 p]
      by (auto simp: defs UpgradeCompleteResponseHandler_def Let_def bind_eq_Some_conv split: if_splits)
  qed
qed

lemma deliver_inv:
  assumes e: "upgrade_ok e d" and u: "upgrade_inv d u" and u': "deliver e x u = Some u'"
  shows "upgrade_inv d u'"
proof -
  obtain k where k: "upgrade_at d k u" using u by (auto simp: upgrade_inv_def)
  obtain i st response where x: "x = (i, st, response)" by (cases x)
  show ?thesis
  proof (cases "i < length (in_flight u)")
    case False
    then show ?thesis using u u' x by (simp add: deliver_def)
  next
    case True
    then obtain r where r: "in_flight u = [r]" "i = 0" "stage d k r u"
      using k by (auto simp: upgrade_at_def split: list.splits)
    let ?a = "st = kLivoxLidarStatusSuccess \<and> resp_byte response 0 = Some 0 \<and> is_XferRequest r"
    let ?u = "if ?a then u\<lparr>in_flight := [], acked := acked u @ [r]\<rparr> else u\<lparr>in_flight := []\<rparr>"
    obtain ev p u1 where re: "react (env_fw e) r st response ?u = Some (ev, p, u1)"
      and F: "FsmEventHandler e ev p u1 = Some u'"
      using u' x r True by (auto simp: deliver_def Let_def bind_eq_Some_conv split: if_splits)
    have st: "stage d k r ?u" using r(3) by (cases r) auto
    have "ready d (if ?a then k + 1 else k) ?u"
    proof (cases ?a)
      case True
      then obtain ofs n enc rs c where X: "r = XferRequest ofs n enc rs c" by (cases r) simp_all
      then have "k \<noteq> chunk_count d" using r(3) less_chunk_count [of k d] by simp
      then show ?thesis
        using k r(3) True X by (auto simp: upgrade_at_def ready_def chunks_of_def)
    next
      case False
      then show ?thesis using k by (simp only: if_False) (simp add: upgrade_at_def ready_def)
    qed
    then have "at_some d (FsmEventHandler e ev p u1)" by (rule react_stage [OF e _ st refl re])
    then show ?thesis using F by (auto simp: at_some_def upgrade_inv_def)
  qed
qed

lemma start_inv:
  assumes "upgrade_ok e d" "StartUpgradeLivoxLidar e (AddUpgradeProgressObserver (new_upgrader handle)) = Some u"
  shows "upgrade_inv d u"
proof -
  let ?u = "AddUpgradeProgressObserver (new_upgrader handle)"
  have "at_some d (FsmEventHandler e kLivoxLidarEventRequestUpgrade 10 ?u)"
    by (rule step_start [OF assms(1)])
      (simp_all add: ready_def AddUpgradeProgressObserver_def new_upgrader_def chunks_of_def)
  then show ?thesis using assms(2) by (auto simp: at_some_def upgrade_inv_def StartUpgradeLivoxLidar_def)
qed

definition upgrade_reaches :: "upgrade_env \<Rightarrow> u32 \<Rightarrow> upgrader \<Rightarrow> bool" where
  "upgrade_reaches e handle u \<longleftrightarrow> (\<exists>u0 xs.
     StartUpgradeLivoxLidar e (AddUpgradeProgressObserver (new_upgrader handle)) = Some u0 \<and>
     deliver_all e xs u0 = Some u)"

lemma deliver_all_inv:
  "upgrade_ok e d \<Longrightarrow> upgrade_inv d u \<Longrightarrow> deliver_all e xs u = Some u' \<Longrightarrow> upgrade_inv d u'"
  by (induction xs arbitrary: u) (auto simp: bind_eq_Some_conv dest: deliver_inv)

lemma reaches_inv: "upgrade_ok e d \<Longrightarrow> upgrade_reaches e handle u \<Longrightarrow> upgrade_inv d u"
  by (auto simp: upgrade_reaches_def dest: start_inv deliver_all_inv)

section \<open>Timeouts\<close>

definition timeout_event :: "nat \<times> LivoxLidarStatus \<times> u8 list option" where
  "timeout_event = (0, kLivoxLidarStatusTimeout, None)"

fun limit_of :: "upgrade_request \<Rightarrow> nat" where
  "limit_of ProgressRequest = 30"
| "limit_of r = 10"

lemma tries_plus1:
  assumes "n < (30 :: u32)" "l \<le> 30"
  shows "n + 1 < l \<longleftrightarrow> unat n + 1 < unat l" "unat (n + 1) = unat n + 1"
proof -
  have "unat n < 30" using assms(1) by (simp add: word_less_nat_alt)
  moreover have "1 + n \<noteq> 0"
  proof
    assume "1 + n = 0"
    then have "n = - 1" by (simp add: eq_neg_iff_add_eq_0 add.commute)
    with assms(1) have "(- 1 :: u32) < 30" by simp
    then show False by (simp add: not_less)
  qed
  ultimately show s: "unat (n + 1) = unat n + 1" using unatSuc [of n] by (simp add: add.commute)
  show "n + 1 < l \<longleftrightarrow> unat n + 1 < unat l" by (simp only: word_less_nat_alt s)
qed

definition gave_up :: "upgrader \<Rightarrow> bool" where
  "gave_up u \<longleftrightarrow> in_flight u = [] \<and> \<not> destructor_waits u"

text \<open>One timeout: the same request again with one more try, or the end.\<close>

definition timeout_result :: "u8 list \<Rightarrow> nat \<Rightarrow> upgrade_request \<Rightarrow> nat \<Rightarrow> upgrader option \<Rightarrow> bool" where
  "timeout_result d k r n res \<longleftrightarrow> (\<exists>u'. res = Some u' \<and> upgrade_at d k u' \<and>
     (if n + 1 < limit_of r
      then \<exists>r'. in_flight u' = [r'] \<and> limit_of r' = limit_of r \<and> unat (try_count u') = n + 1
      else gave_up u'))"

lemma timeout_resultI:
  assumes u: "try_count u < 30" "limit \<le> 30" "unat limit = limit_of r"
    and again: "try_count u + 1 < limit \<Longrightarrow>
      FsmEventHandler e again p (u\<lparr>try_count := try_count u + 1\<rparr>) = Some (observe again p (sent r' v)) \<and>
      ready d k v \<and> stage d k r' v \<and> limit_of r' = limit_of r \<and> try_count v = try_count u + 1"
    and up: "FsmEventHandler e give_up 100 (u\<lparr>try_count := 0\<rparr>) = Some (observe give_up 100 w)"
      "ready d k w" "fsm_state w \<in> {0, 7}"
  shows "timeout_result d k r (unat (try_count u))
    (do { (ev, q, u1) \<leftarrow> retry limit again p give_up u; FsmEventHandler e ev q u1 })"
proof (cases "try_count u + 1 < limit")
  case True
  have c: "in_flight (observe again p (sent r' v)) = in_flight v @ [r']"
    "try_count (observe again p (sent r' v)) = try_count v"
    by (simp_all add: sent_def pend_def observe_def)
  have "upgrade_at d k (observe again p (sent r' v))" using again [OF True] by (simp add: ready_sent)
  then show ?thesis
    using True again [OF True] tries_plus1 [OF u(1,2)] u(3)
    by (simp add: retry_def timeout_result_def c ready_def)
next
  case False
  have "upgrade_at d k (observe give_up 100 w)" using up by (simp add: ready_ends)
  moreover have "gave_up (observe give_up 100 w)"
    using up(2,3) by (auto simp: gave_up_def ready_def class_simps)
  ultimately show ?thesis
    using False up tries_plus1 [OF u(1,2)] u(3) by (simp add: retry_def timeout_result_def)
qed

lemma timeout_step:
  assumes e: "upgrade_ok e d" and u: "upgrade_at d k u" and r: "in_flight u = [r]"
  shows "timeout_result d k r (unat (try_count u)) (deliver e timeout_event u)"
proof -
  have acc: "\<forall>n. env_issue e n = Accepted" using e by (simp add: upgrade_ok_def)
  have st: "stage d k r u" using u r by (simp add: upgrade_at_def)
  have t: "try_count u < 30" using st by (cases r) (auto intro: order.strict_trans)
  let ?v = "u\<lparr>in_flight := []\<rparr>"
  have ready: "ready d k ?v" using u r by (simp add: ready_def upgrade_at_def)
  have deliver: "deliver e timeout_event u = do { (ev, p, u1) \<leftarrow> react (env_fw e) r kLivoxLidarStatusTimeout None ?v;
      FsmEventHandler e ev p u1 }"
    using r by (simp add: deliver_def timeout_event_def)
  note defs = react_def kGeneralTryCountLimit_def kGetProcessTryCountLimit_def
  have tv: "try_count ?v = try_count u" by simp
  show ?thesis
  proof (cases r)
    case (StartRequest b)
    have "timeout_result d k r (unat (try_count ?v)) (do { (ev, q, u1) \<leftarrow>
        retry 10 kLivoxLidarEventRequestUpgrade 10 kLivoxLidarEventErr ?v; FsmEventHandler e ev q u1 })"
      by (rule timeout_resultI [where r' = "start_request e" and
            v = "?v\<lparr>try_count := try_count u + 1, fsm_state := 1, read_offset := 0, upgrade_error := 0, u_progress := 0\<rparr>"
            and w = "?v\<lparr>try_count := 0, fsm_state := 7\<rparr>"])
        (use t st StartRequest ready transitions(1) [OF acc] transitions(7) [OF acc] in
          \<open>simp_all add: StartUpgrade_eq start_request_def Let_def\<close>)
    then show ?thesis
      using StartRequest by (simp add: deliver defs StartUpgradeResponseHandler_def)
  next
    case (XferRequest ofs n enc rs c)
    have x: "XferFirmware e (?v\<lparr>try_count := try_count u + 1, fsm_state := 2\<rparr>) =
        Some (Some (chunk_request e d k (issued u)), ?v\<lparr>try_count := try_count u + 1, fsm_state := 2\<rparr>)"
      using XferFirmware_chunk [OF upgrade_okD [OF e], of "?v\<lparr>try_count := try_count u + 1, fsm_state := 2\<rparr>" k] st XferRequest u
      by (simp add: upgrade_at_def)
    have "timeout_result d k r (unat (try_count ?v)) (do { (ev, q, u1) \<leftarrow>
        retry 10 kLivoxLidarEventXferFirmware 20 kLivoxLidarEventErr ?v; FsmEventHandler e ev q u1 })"
      by (rule timeout_resultI [where r' = "chunk_request e d k (issued u)" and
            v = "?v\<lparr>try_count := try_count u + 1, fsm_state := 2\<rparr>"
            and w = "?v\<lparr>try_count := 0, fsm_state := 7\<rparr>"])
        (use t st XferRequest ready transitions(2) [OF acc _ x] transitions(7) [OF acc] x in
          \<open>simp_all add: chunk_request_def firmware_chunk_def\<close>)
    then show ?thesis
      using XferRequest by (simp add: deliver defs XferFirmwareResponseHandler_def)
  next
    case (CompleteXferRequest b)
    have "timeout_result d k r (unat (try_count ?v)) (do { (ev, q, u1) \<leftarrow>
        retry 10 kLivoxLidarEventCompleteXferFirmware 50 kLivoxLidarEventErr ?v; FsmEventHandler e ev q u1 })"
      by (rule timeout_resultI [where r' = "complete_request e" and
            v = "?v\<lparr>try_count := try_count u + 1, fsm_state := 3\<rparr>"
            and w = "?v\<lparr>try_count := 0, fsm_state := 7\<rparr>"])
        (use t st CompleteXferRequest ready transitions(3) [OF acc _ CompleteXferFirmware_ok [OF upgrade_okD [OF e]]]
            transitions(7) [OF acc] in \<open>simp_all add: complete_request_def Let_def\<close>)
    then show ?thesis
      using CompleteXferRequest by (simp add: deliver defs CompleteXferFirmwareResponseHandler_def)
  next
    case ProgressRequest
    have "timeout_result d k r (unat (try_count ?v)) (do { (ev, q, u1) \<leftarrow>
        retry 30 kLivoxLidarEventGetUpgradeProgress (u_progress u div 2 + 50) kLivoxLidarEventErr ?v;
        FsmEventHandler e ev q u1 })"
      by (rule timeout_resultI [where r' = ProgressRequest and
            v = "?v\<lparr>try_count := try_count u + 1, fsm_state := 4\<rparr>"
            and w = "?v\<lparr>try_count := 0, fsm_state := 7\<rparr>"])
        (use t st ProgressRequest ready transitions(4) [OF acc] transitions(7) [OF acc] in simp_all)
    then show ?thesis
      using ProgressRequest by (simp add: deliver defs GetProgressResponseHandler_def)
  next
    case RebootRequest
    have "timeout_result d k r (unat (try_count ?v)) (do { (ev, q, u1) \<leftarrow>
        retry 10 kLivoxLidarEventComplete 100 kLivoxLidarEventReinit ?v; FsmEventHandler e ev q u1 })"
      by (rule timeout_resultI [where r' = RebootRequest and
            v = "?v\<lparr>try_count := try_count u + 1, fsm_state := 5\<rparr>"
            and w = "?v\<lparr>try_count := 0, fsm_state := 0\<rparr>"])
        (use t st RebootRequest ready transitions(5) [OF acc] transitions(6) [OF acc] in simp_all)
    then show ?thesis
      using RebootRequest by (simp add: deliver defs UpgradeCompleteResponseHandler_def)
  qed
qed

lemma deliver_timeouts:
  assumes "upgrade_ok e d" "upgrade_at d k u" "in_flight u = [r]" "unat (try_count u) < limit_of r"
  shows "\<exists>m u'. m \<le> limit_of r - unat (try_count u) \<and>
    deliver_all e (replicate m timeout_event) u = Some u' \<and> gave_up u'"
  using assms(2-4)
proof (induction "limit_of r - unat (try_count u)" arbitrary: u r)
  case (Suc n)
  obtain u1 where u1: "deliver e timeout_event u = Some u1" "upgrade_at d k u1"
    and c: "if unat (try_count u) + 1 < limit_of r
      then \<exists>r'. in_flight u1 = [r'] \<and> limit_of r' = limit_of r \<and> unat (try_count u1) = unat (try_count u) + 1
      else gave_up u1"
    using timeout_step [OF assms(1) Suc.prems(1,2)] by (auto simp: timeout_result_def)
  show ?case
  proof (cases "unat (try_count u) + 1 < limit_of r")
    case True
    then obtain r' where r': "in_flight u1 = [r']" "limit_of r' = limit_of r"
      "unat (try_count u1) = unat (try_count u) + 1" using c by auto
    have n: "n = limit_of r' - unat (try_count u1)" "unat (try_count u1) < limit_of r'"
      using Suc.hyps(2) True r' by auto
    obtain m u' where "m \<le> limit_of r' - unat (try_count u1)" "gave_up u'"
      "deliver_all e (replicate m timeout_event) u1 = Some u'"
      using Suc.hyps(1) [OF n(1) u1(2) r'(1) n(2)] by blast
    then show ?thesis using u1(1) r' Suc.hyps(2) by (intro exI [of _ "Suc m"] exI [of _ u']) auto
  next
    case False
    then show ?thesis using u1(1) c Suc.hyps(2) by (intro exI [of _ 1] exI [of _ u1]) auto
  qed
qed simp

section \<open>A lidar that accepts everything\<close>

definition ack :: "u8 list \<Rightarrow> nat \<times> LivoxLidarStatus \<times> u8 list option" where
  "ack b = (0, kLivoxLidarStatusSuccess, Some b)"

text \<open>One request in flight, and what has been sent.\<close>

definition waiting :: "nat \<Rightarrow> u32 \<Rightarrow> upgrade_request \<Rightarrow> upgrade_request list \<Rightarrow> upgrader \<Rightarrow> bool" where
  "waiting k st r w u \<longleftrightarrow> fsm_state u = st \<and> read_offset u = of_nat (1024 * k) \<and> read_length u = 1024 \<and>
     in_flight u = [r] \<and> wire u = w"

lemma waiting_sent:
  "fsm_state u = st \<Longrightarrow> read_offset u = of_nat (1024 * k) \<Longrightarrow> read_length u = 1024 \<Longrightarrow> in_flight u = [] \<Longrightarrow>
     waiting k st r (wire u @ [r]) (observe ev p (sent r u))"
  by (simp add: waiting_def sent_def pend_def observe_def)

lemma deliver_ack:
  assumes "waiting k st r w u"
  obtains v where "fsm_state v = st" "read_offset v = of_nat (1024 * k)" "read_length v = 1024" "in_flight v = []"
    "wire v = w" "deliver e (ack b) u = do { (ev, p, u1) \<leftarrow> react (env_fw e) r kLivoxLidarStatusSuccess (Some b) v;
      FsmEventHandler e ev p u1 }"
proof -
  let ?v = "if rd8 b 0 = Some 0 \<and> is_XferRequest r then u\<lparr>in_flight := [], acked := acked u @ [r]\<rparr>
    else u\<lparr>in_flight := []\<rparr>"
  have c: "in_flight u = [r]" using assms by (simp add: waiting_def)
  then have "deliver e (ack b) u = do { (ev, p, u1) \<leftarrow> react (env_fw e) r kLivoxLidarStatusSuccess (Some b) ?v;
      FsmEventHandler e ev p u1 }"
    by (simp add: deliver_def ack_def resp_byte_def Let_def)
  then show ?thesis
    using assms by (intro that [of ?v]) (simp_all add: waiting_def)
qed

lemma rd8_hd [simp]: "rd8 (x # xs) 0 = Some x"
  by (simp add: rd8_nth)

lemma rd8_second [simp]: "rd8 [x, y] (Suc 0) = Some y"
  by (simp add: rd8_nth)

text \<open>Each acceptance sends the next request.\<close>

lemma accepted:
  assumes e: "upgrade_ok e d" and w: "waiting k st r w u"
  shows "st = 1 \<Longrightarrow> r = start_request e \<Longrightarrow> k = 0 \<Longrightarrow>
      \<exists>u' i. deliver e (ack [0]) u = Some u' \<and> waiting 0 2 (chunk_request e d 0 i) (w @ [chunk_request e d 0 i]) u'"
    and "st = 2 \<Longrightarrow> is_XferRequest r \<Longrightarrow> 1024 * Suc k < length d \<Longrightarrow> \<exists>u' i. deliver e (ack [0]) u = Some u' \<and>
      waiting (Suc k) 2 (chunk_request e d (Suc k) i) (w @ [chunk_request e d (Suc k) i]) u'"
    and "st = 2 \<Longrightarrow> is_XferRequest r \<Longrightarrow> Suc k = chunk_count d \<Longrightarrow> \<exists>u'. deliver e (ack [0]) u = Some u' \<and>
      waiting (chunk_count d) 3 (complete_request e) (w @ [complete_request e]) u'"
    and "st = 3 \<Longrightarrow> r = complete_request e \<Longrightarrow> \<exists>u'. deliver e (ack [0]) u = Some u' \<and>
      waiting k 4 ProgressRequest (w @ [ProgressRequest]) u'"
    and "st = 4 \<Longrightarrow> r = ProgressRequest \<Longrightarrow> q < 100 \<Longrightarrow> \<exists>u'. deliver e (ack [0, q]) u = Some u' \<and>
      waiting k 4 ProgressRequest (w @ [ProgressRequest]) u'"
    and "st = 4 \<Longrightarrow> r = ProgressRequest \<Longrightarrow> 100 \<le> q \<Longrightarrow> \<exists>u'. deliver e (ack [0, q]) u = Some u' \<and>
      waiting k 5 RebootRequest (w @ [RebootRequest]) u'"
    and "st = 5 \<Longrightarrow> r = RebootRequest \<Longrightarrow> \<exists>u'. deliver e (ack [0]) u = Some u' \<and>
      in_flight u' = [] \<and> IsUpgradeComplete u' \<and> wire u' = w"
proof -
  have acc: "\<forall>n. env_issue e n = Accepted" using e by (simp add: upgrade_ok_def)
  have d: "d \<noteq> []" using e by (simp add: upgrade_ok_def firmware_ok_def)
  obtain v0 where v0: "fsm_state v0 = st" "read_offset v0 = of_nat (1024 * k)" "read_length v0 = 1024"
    "in_flight v0 = []" "wire v0 = w"
    and D0: "deliver e (ack [0]) u = do { (ev, p, u1) \<leftarrow> react (env_fw e) r kLivoxLidarStatusSuccess (Some [0]) v0;
      FsmEventHandler e ev p u1 }" by (rule deliver_ack [OF w])
  obtain v1 where v1: "fsm_state v1 = st" "read_offset v1 = of_nat (1024 * k)" "read_length v1 = 1024"
    "in_flight v1 = []" "wire v1 = w"
    and D1: "deliver e (ack [0, q]) u = do { (ev, p, u1) \<leftarrow> react (env_fw e) r kLivoxLidarStatusSuccess (Some [0, q]) v1;
      FsmEventHandler e ev p u1 }" by (rule deliver_ack [OF w])
  note defs = react_def resp_byte_def
  { assume "st = 1" "r = start_request e" "k = 0"
    moreover have "XferFirmware e (v0\<lparr>try_count := 0, fsm_state := 2\<rparr>) =
        Some (Some (chunk_request e d 0 (issued v0)), v0\<lparr>try_count := 0, fsm_state := 2\<rparr>)"
      using XferFirmware_chunk [OF upgrade_okD [OF e], of "v0\<lparr>try_count := 0, fsm_state := 2\<rparr>" 0] v0 d calculation by simp
    ultimately show "\<exists>u' i. deliver e (ack [0]) u = Some u' \<and>
        waiting 0 2 (chunk_request e d 0 i) (w @ [chunk_request e d 0 i]) u'"
      using v0 transitions(2) [OF acc, of "v0\<lparr>try_count := 0\<rparr>"]
        waiting_sent [of "v0\<lparr>try_count := 0, fsm_state := 2\<rparr>" 2 0]
      by (auto simp: D0 defs start_request_def Let_def StartUpgradeResponseHandler_def intro!: exI [of _ "issued v0"]) }
  { assume a: "st = 2" "is_XferRequest r" "1024 * Suc k < length d"
    let ?v = "v0\<lparr>try_count := 0, read_offset := of_nat (1024 * Suc k)\<rparr>"
    have "react (env_fw e) r kLivoxLidarStatusSuccess (Some [0]) v0 = Some (kLivoxLidarEventXferFirmware, 20, ?v)"
      using a v0 next_offset [OF upgrade_okD [OF e], of k] by (cases r) (auto simp: defs XferFirmwareResponseHandler_def Let_def add.commute)
    moreover have "XferFirmware e (?v\<lparr>fsm_state := 2\<rparr>) =
        Some (Some (chunk_request e d (Suc k) (issued v0)), ?v\<lparr>fsm_state := 2\<rparr>)"
      using XferFirmware_chunk [OF upgrade_okD [OF e], of "?v\<lparr>fsm_state := 2\<rparr>" "Suc k"] v0 a by simp
    ultimately show "\<exists>u' i. deliver e (ack [0]) u = Some u' \<and>
        waiting (Suc k) 2 (chunk_request e d (Suc k) i) (w @ [chunk_request e d (Suc k) i]) u'"
      using a v0 transitions(2) [OF acc, of ?v] waiting_sent [of "?v\<lparr>fsm_state := 2\<rparr>" 2 "Suc k"]
      by (auto simp: D0 intro!: exI [of _ "issued v0"]) }
  { assume a: "st = 2" "is_XferRequest r" "Suc k = chunk_count d"
    let ?v = "v0\<lparr>try_count := 0, read_offset := of_nat (1024 * Suc k)\<rparr>"
    have "1024 * k < length d" "\<not> 1024 * Suc k < length d"
      using a(3) less_chunk_count [of k d] less_chunk_count [of "Suc k" d] by simp_all
    then have "react (env_fw e) r kLivoxLidarStatusSuccess (Some [0]) v0 =
        Some (kLivoxLidarEventCompleteXferFirmware, 40, ?v)"
      using a v0 next_offset [OF upgrade_okD [OF e], of k] by (cases r) (auto simp: defs XferFirmwareResponseHandler_def Let_def add.commute)
    then show "\<exists>u'. deliver e (ack [0]) u = Some u' \<and>
        waiting (chunk_count d) 3 (complete_request e) (w @ [complete_request e]) u'"
      using a v0 transitions(3) [OF acc _ CompleteXferFirmware_ok [OF upgrade_okD [OF e]], of ?v]
        waiting_sent [of "?v\<lparr>fsm_state := 3\<rparr>" 3 "Suc k"] by (auto simp: D0) }
  { assume "st = 3" "r = complete_request e"
    then show "\<exists>u'. deliver e (ack [0]) u = Some u' \<and> waiting k 4 ProgressRequest (w @ [ProgressRequest]) u'"
      using v0 transitions(4) [OF acc, of "v0\<lparr>try_count := 0\<rparr>"]
        waiting_sent [of "v0\<lparr>try_count := 0, fsm_state := 4\<rparr>" 4 k]
      by (auto simp: D0 defs complete_request_def Let_def CompleteXferFirmwareResponseHandler_def) }
  { assume "st = 4" "r = ProgressRequest" "q < 100"
    then show "\<exists>u'. deliver e (ack [0, q]) u = Some u' \<and> waiting k 4 ProgressRequest (w @ [ProgressRequest]) u'"
      using v1 transitions(4) [OF acc, of "v1\<lparr>try_count := 0\<rparr>"]
        waiting_sent [of "v1\<lparr>try_count := 0, fsm_state := 4\<rparr>" 4 k]
      by (auto simp: D1 defs Let_def GetProgressResponseHandler_def) }
  { assume "st = 4" "r = ProgressRequest" "100 \<le> q"
    then show "\<exists>u'. deliver e (ack [0, q]) u = Some u' \<and> waiting k 5 RebootRequest (w @ [RebootRequest]) u'"
      using v1 transitions(5) [OF acc, of "v1\<lparr>try_count := 0\<rparr>"]
        waiting_sent [of "v1\<lparr>try_count := 0, fsm_state := 5\<rparr>" 5 k]
      by (auto simp: D1 defs Let_def GetProgressResponseHandler_def) }
  { assume "st = 5" "r = RebootRequest"
    then show "\<exists>u'. deliver e (ack [0]) u = Some u' \<and> in_flight u' = [] \<and> IsUpgradeComplete u' \<and> wire u' = w"
      using v0 transitions(6) [OF acc, of "v0\<lparr>try_count := 0\<rparr>"]
      by (auto simp: D0 defs Let_def UpgradeCompleteResponseHandler_def IsUpgradeComplete_def observe_def) }
qed

lemma deliver_all_append:
  "deliver_all e (xs @ ys) u = do { u \<leftarrow> deliver_all e xs u; deliver_all e ys u }"
proof (induction xs arbitrary: u)
  case (Cons x xs)
  then show ?case by (cases "deliver e x u") simp_all
qed simp

lemma chunks_accepted:
  assumes e: "upgrade_ok e d"
  shows "waiting k 2 (chunk_request e d k i) w u \<Longrightarrow> k < chunk_count d \<Longrightarrow>
    \<exists>u' rs. deliver_all e (replicate (chunk_count d - k) (ack [0])) u = Some u' \<and>
      waiting (chunk_count d) 3 (complete_request e) (w @ rs @ [complete_request e]) u' \<and>
      chunks_of rs = map (firmware_chunk d) [Suc k..<chunk_count d]"
proof (induction "chunk_count d - k" arbitrary: k i w u)
  case (Suc n)
  have x: "is_XferRequest (chunk_request e d k i)" by (simp add: chunk_request_def)
  show ?case
  proof (cases "Suc k = chunk_count d")
    case True
    then have "chunk_count d - k = 1" by simp
    then show ?thesis
      using accepted(3) [OF e Suc.prems(1) refl x True] True
      by (auto intro!: exI [of _ "[]"] simp: chunks_of_def)
  next
    case False
    then have k: "Suc k < chunk_count d" using Suc.prems(2) by simp
    then have "1024 * Suc k < length d" by (simp only: less_chunk_count)
    then obtain u1 j where u1: "deliver e (ack [0]) u = Some u1"
      "waiting (Suc k) 2 (chunk_request e d (Suc k) j) (w @ [chunk_request e d (Suc k) j]) u1"
      using accepted(2) [OF e Suc.prems(1) refl x] by blast
    have n: "n = chunk_count d - Suc k" using Suc.hyps(2) by simp
    obtain u' rs where r: "deliver_all e (replicate n (ack [0])) u1 = Some u'"
      "waiting (chunk_count d) 3 (complete_request e)
         ((w @ [chunk_request e d (Suc k) j]) @ rs @ [complete_request e]) u'"
      "chunks_of rs = map (firmware_chunk d) [Suc (Suc k)..<chunk_count d]"
      using Suc.hyps(1) [OF n u1(2) k] n by auto
    have "chunks_of (chunk_request e d (Suc k) j # rs) = map (firmware_chunk d) [Suc k..<chunk_count d]"
      using r(3) k by (simp add: chunks_of_def chunk_request_def firmware_chunk_def upt_conv_Cons)
    moreover have "deliver_all e (replicate (chunk_count d - k) (ack [0])) u = Some u'"
      using u1(1) r(1) by (simp flip: Suc.hyps(2))
    ultimately show ?thesis
      using r(2) by (intro exI [of _ u'] exI [of _ "chunk_request e d (Suc k) j # rs"]) simp
  qed
qed simp

lemma progress_accepted:
  assumes e: "upgrade_ok e d"
  shows "waiting k 4 ProgressRequest w u \<Longrightarrow> \<forall>q \<in> set qs. q < 100 \<Longrightarrow>
    \<exists>u'. deliver_all e (map (\<lambda>q. ack [0, q]) qs) u = Some u' \<and>
      waiting k 4 ProgressRequest (w @ replicate (length qs) ProgressRequest) u'"
proof (induction qs arbitrary: w u)
  case (Cons q qs)
  then obtain u1 where "deliver e (ack [0, q]) u = Some u1"
    "waiting k 4 ProgressRequest (w @ [ProgressRequest]) u1"
    using accepted(5) [OF e Cons.prems(1) refl refl, of q] by auto
  then show ?case using Cons.IH [of "w @ [ProgressRequest]" u1] Cons.prems(2) by auto
qed simp

lemma start_waiting:
  assumes "\<And>n. env_issue e n = Accepted"
  shows "\<exists>u. StartUpgradeLivoxLidar e (AddUpgradeProgressObserver (new_upgrader handle)) = Some u \<and>
    waiting 0 1 (start_request e) [start_request e] u"
proof -
  let ?u = "AddUpgradeProgressObserver (new_upgrader handle)"
  have "\<forall>n. env_issue e n = Accepted" using assms by simp
  then show ?thesis
    using transitions(1) [of e ?u 10]
      waiting_sent [of "?u\<lparr>fsm_state := 1, read_offset := 0, upgrade_error := 0, u_progress := 0\<rparr>" 1 0]
    by (auto simp: StartUpgradeLivoxLidar_def StartUpgrade_eq AddUpgradeProgressObserver_def new_upgrader_def)
qed

lemma upgrade_run:
  assumes "upgrade_ok e d" "\<forall>q \<in> set qs. q < 100" "100 \<le> p"
  shows "\<exists>u u' xs. StartUpgradeLivoxLidar e (AddUpgradeProgressObserver (new_upgrader handle)) = Some u \<and>
    deliver_all e (replicate (chunk_count d + 2) (ack [0]) @ map (\<lambda>q. ack [0, q]) (qs @ [p]) @ [ack [0]]) u = Some u' \<and>
    in_flight u' = [] \<and> IsUpgradeComplete u' \<and>
    wire u' = [start_request e] @ xs @ [complete_request e] @ replicate (length qs + 1) ProgressRequest @ [RebootRequest] \<and>
    chunks_of xs = map (firmware_chunk d) [0..<chunk_count d]"
proof -
  note e = assms(1)
  have acc: "\<forall>n. env_issue e n = Accepted" using e by (simp add: upgrade_ok_def)
  let ?u = "AddUpgradeProgressObserver (new_upgrader handle)"
  have n: "0 < chunk_count d" using less_chunk_count [of 0 d] e by (simp add: upgrade_ok_def firmware_ok_def)
  obtain u where u: "StartUpgradeLivoxLidar e ?u = Some u" "waiting 0 1 (start_request e) [start_request e] u"
    using start_waiting [of e handle] acc by auto
  obtain u1 i where u1: "deliver e (ack [0]) u = Some u1"
    "waiting 0 2 (chunk_request e d 0 i) ([start_request e] @ [chunk_request e d 0 i]) u1"
    using accepted(1) [OF e u(2) refl refl refl] by blast
  obtain u2 rs where u2: "deliver_all e (replicate (chunk_count d) (ack [0])) u1 = Some u2"
    "waiting (chunk_count d) 3 (complete_request e)
       (([start_request e] @ [chunk_request e d 0 i]) @ rs @ [complete_request e]) u2"
    "chunks_of rs = map (firmware_chunk d) [Suc 0..<chunk_count d]"
    using chunks_accepted [OF e u1(2) n] by auto
  obtain u3 where u3: "deliver e (ack [0]) u2 = Some u3" "waiting (chunk_count d) 4 ProgressRequest
       ((([start_request e] @ [chunk_request e d 0 i]) @ rs @ [complete_request e]) @ [ProgressRequest]) u3"
    using accepted(4) [OF e u2(2) refl refl] by blast
  obtain u4 where u4: "deliver_all e (map (\<lambda>q. ack [0, q]) qs) u3 = Some u4"
    "waiting (chunk_count d) 4 ProgressRequest (((([start_request e] @ [chunk_request e d 0 i]) @ rs @
       [complete_request e]) @ [ProgressRequest]) @ replicate (length qs) ProgressRequest) u4"
    using progress_accepted [OF e u3(2) assms(2)] by blast
  obtain u5 where u5: "deliver e (ack [0, p]) u4 = Some u5" "waiting (chunk_count d) 5 RebootRequest
       ((((([start_request e] @ [chunk_request e d 0 i]) @ rs @ [complete_request e]) @ [ProgressRequest]) @
         replicate (length qs) ProgressRequest) @ [RebootRequest]) u5"
    using accepted(6) [OF e u4(2) refl refl assms(3)] by blast
  obtain u6 where u6: "deliver e (ack [0]) u5 = Some u6" "in_flight u6 = []" "IsUpgradeComplete u6"
    "wire u6 = ((((([start_request e] @ [chunk_request e d 0 i]) @ rs @ [complete_request e]) @ [ProgressRequest]) @
         replicate (length qs) ProgressRequest) @ [RebootRequest])"
    using accepted(7) [OF e u5(2) refl refl] by blast
  have "replicate (chunk_count d + 2) (ack [0]) = ack [0] # replicate (chunk_count d) (ack [0]) @ [ack [0]]"
    by (simp add: replicate_append_same)
  then have "deliver_all e (replicate (chunk_count d + 2) (ack [0]) @ map (\<lambda>q. ack [0, q]) (qs @ [p]) @ [ack [0]]) u =
      Some u6"
    using u1(1) u2(1) u3(1) u4(1) u5(1) u6(1) by (simp add: deliver_all_append)
  moreover have "chunks_of (chunk_request e d 0 i # rs) = map (firmware_chunk d) [0..<chunk_count d]"
    using u2(3) n by (simp add: chunks_of_def chunk_request_def firmware_chunk_def upt_conv_Cons)
  ultimately show ?thesis
    using u(1) u6 by (intro exI [of _ u] exI [of _ u6] exI [of _ "chunk_request e d 0 i # rs"]) simp
qed

section \<open>The properties\<close>

text \<open>A firmware of two bytes and a lidar that is there, for the witnesses.\<close>

definition demo_env :: upgrade_env where
  "demo_env = \<lparr>env_fw = \<lparr>header = demo_header, fw_data = Some [7, 8], fw_tail = replicate 16 5, file_size = 304\<rparr>,
     env_issue = (\<lambda>n. Accepted), env_rsvd = (\<lambda>n. [0, 0, 0])\<rparr>"

lemma demo_env_ok: "upgrade_ok demo_env [7, 8]"
  using demo_header by (simp add: upgrade_ok_def firmware_ok_def demo_env_def)

lemma demo_run: "\<exists>u b. upgrade_reaches demo_env 5 u \<and> CompleteXferRequest b \<in> set (wire u)"
proof -
  obtain u u' xs where "StartUpgradeLivoxLidar demo_env (AddUpgradeProgressObserver (new_upgrader 5)) = Some u"
    and "deliver_all demo_env (replicate (chunk_count [7, 8] + 2) (ack [0]) @
      map (\<lambda>q. ack [0, q]) ([] @ [100]) @ [ack [0]]) u = Some u'"
    and w: "wire u' = [start_request demo_env] @ xs @ [complete_request demo_env] @
      replicate (length [] + 1) ProgressRequest @ [RebootRequest]"
    using upgrade_run [OF demo_env_ok, of "[]" 100 5] by auto
  then have "upgrade_reaches demo_env 5 u'" unfolding upgrade_reaches_def by blast
  moreover have "\<exists>b. complete_request demo_env = CompleteXferRequest b" by (simp add: complete_request_def Let_def)
  ultimately show ?thesis using w by (intro exI [of _ u']) auto
qed

lemma complete_firmware:
  assumes "upgrade_ok e d" "upgrade_reaches e handle u" "CompleteXferRequest b \<in> set (wire u)"
  shows "chunks_of (acked u) = map (firmware_chunk d) [0..<chunk_count d] \<and>
    concat (map xfer_data (acked u)) = d"
proof -
  obtain k where "upgrade_at d k u" using reaches_inv [OF assms(1,2)] by (auto simp: upgrade_inv_def)
  then have a: "chunks_of (acked u) = map (firmware_chunk d) [0..<chunk_count d]"
    using assms(3) by (auto simp: upgrade_at_def)
  have "concat (map xfer_data (acked u)) = concat (map snd (chunks_of (acked u)))"
    by (simp add: chunks_of_def comp_def)
  then show ?thesis using a all_chunks [of d] by simp
qed

text \<open>
  C17. Whatever answers, refusals and timeouts arrive and in whatever order, as long as the socket
  takes every datagram: when the upgrader asks the lidar to complete the transfer, the lidar has
  accepted exactly the chunks of the firmware, in order and each once, and together they are the
  data of the file.
\<close>
theorem upgrade_complete_firmware:
  assumes "upgrade_ok e d" "upgrade_reaches e handle u" "CompleteXferRequest b \<in> set (wire u)"
  shows "chunks_of (acked u) = map (firmware_chunk d) [0..<chunk_count d] \<and>
    concat (map xfer_data (acked u)) = d"
  using assms by (rule complete_firmware)

theorem upgrade_complete_firmware_witness:
  "\<exists>u b. upgrade_reaches demo_env 5 u \<and> CompleteXferRequest b \<in> set (wire u) \<and>
     concat (map xfer_data (acked u)) = [7, 8]"
  using demo_run upgrade_complete_firmware [OF demo_env_ok] by blast

text \<open>
  C19. When the firmware is well-formed and the socket takes every request: from every state the
  upgrade can then reach, if no more answers come, at most 30 timeouts end it: nothing is pending
  and the destructor stops waiting.
\<close>
theorem upgrade_times_out:
  assumes "upgrade_ok e d" "upgrade_reaches e handle u"
  shows "\<exists>m u'. m \<le> 30 \<and> deliver_all e (replicate m timeout_event) u = Some u' \<and>
    in_flight u' = [] \<and> \<not> destructor_waits u'"
proof -
  obtain k where k: "upgrade_at d k u" using reaches_inv [OF assms] by (auto simp: upgrade_inv_def)
  show ?thesis
  proof (cases "in_flight u")
    case Nil
    then show ?thesis using k by (intro exI [of _ 0] exI [of _ u]) (simp add: upgrade_at_def)
  next
    case (Cons r rs)
    then have r: "in_flight u = [r]" "stage d k r u" using k by (auto simp: upgrade_at_def split: list.splits)
    have l: "unat (try_count u) < limit_of r" using r(2) by (cases r) (auto simp: word_less_nat_alt)
    obtain m u' where "m \<le> limit_of r - unat (try_count u)" "gave_up u'"
      "deliver_all e (replicate m timeout_event) u = Some u'" using deliver_timeouts [OF assms(1) k r(1) l] by blast
    moreover have "limit_of r \<le> 30" by (cases r) simp_all
    ultimately show ?thesis by (intro exI [of _ m] exI [of _ u']) (auto simp: gave_up_def)
  qed
qed

theorem upgrade_times_out_witness:
  "\<exists>u m u'. upgrade_reaches demo_env 5 u \<and> m \<le> 30 \<and>
     deliver_all demo_env (replicate m timeout_event) u = Some u' \<and> in_flight u' = [] \<and> \<not> destructor_waits u'"
  using demo_run upgrade_times_out [OF demo_env_ok] by blast

text \<open>
  C18. A lidar that accepts every request leads the upgrade to its end: one start request, every
  chunk in order, the completion, one progress request per answer below 100 and one more, the
  reboot; then nothing is pending and the upgrade counts as complete.
\<close>
theorem upgrade_succeeds:
  assumes "upgrade_ok e d" "\<forall>q \<in> set qs. q < 100" "100 \<le> p"
  shows "\<exists>u u' xs. StartUpgradeLivoxLidar e (AddUpgradeProgressObserver (new_upgrader handle)) = Some u \<and>
    deliver_all e (replicate (chunk_count d + 2) (ack [0]) @ map (\<lambda>q. ack [0, q]) (qs @ [p]) @ [ack [0]]) u = Some u' \<and>
    in_flight u' = [] \<and> IsUpgradeComplete u' \<and>
    wire u' = [start_request e] @ xs @ [complete_request e] @ replicate (length qs + 1) ProgressRequest @ [RebootRequest] \<and>
    chunks_of xs = map (firmware_chunk d) [0..<chunk_count d]"
  using assms by (rule upgrade_run)

theorem upgrade_succeeds_witness:
  "\<exists>u u'. StartUpgradeLivoxLidar demo_env (AddUpgradeProgressObserver (new_upgrader 5)) = Some u \<and>
     deliver_all demo_env (replicate (chunk_count [7, 8] + 2) (ack [0]) @
       map (\<lambda>q. ack [0, q]) ([50] @ [100]) @ [ack [0]]) u = Some u' \<and> IsUpgradeComplete u'"
  using upgrade_succeeds [OF demo_env_ok, of "[50]" 100 5] by auto

end
