(* ===== verification/Upgrade_Manager.thy ===== *)
theory Upgrade_Manager
  imports Upgrader
begin

text \<open>
  \<open>UpgradeManager\<close> (upgrade\_manager.cpp), the requests of the upgrade as commands of \<open>CommandImpl\<close>,
  and what happens to an upgrade when the socket refuses a datagram or the lidar has no handler.
\<close>

section \<open>Requests as commands\<close>

text \<open>The call each member function of \<open>LivoxLidarUpgrader\<close> ends in.\<close>

definition perform :: "(nat \<Rightarrow> int) \<Rightarrow> runner \<Rightarrow> u32 \<Rightarrow> upgrade_request \<Rightarrow> callback \<Rightarrow> sdk_state \<Rightarrow> sent" where
  "perform env rn handle r c s =
     (let d = upgrade_bytes r; n = of_nat (length d) in
      case r of
        StartRequest b \<Rightarrow> LivoxLidarStartUpgrade env rn handle (Some d) n c s
      | XferRequest ofs k enc rs x \<Rightarrow> LivoxLidarXferFirmware env rn handle (Some d) n c s
      | CompleteXferRequest b \<Rightarrow> LivoxLidarCompleteXferFirmware env rn handle (Some d) n c s
      | ProgressRequest \<Rightarrow> LivoxLidarGetUpgradeProgress env rn handle None 0 c s
      | RebootRequest \<Rightarrow> LivoxLidarRequestReboot env rn handle c s)"

fun command_of :: "upgrade_request \<Rightarrow> LidarCommandID" where
  "command_of (StartRequest b) = kCommandIDGeneralRequestUpgrade"
| "command_of (XferRequest ofs n enc rs d) = kCommandIDGeneralXferFirmware"
| "command_of (CompleteXferRequest b) = kCommandIDGeneralCompleteXferFirmware"
| "command_of ProgressRequest = kCommandIDGeneralRequestUpgradeProgress"
| "command_of RebootRequest = kCommandIDLidarRebootDevice"

section \<open>The manager\<close>

record UpgradeManager =
  livox_lidar_firmware :: Firmware
  livox_lidar_info_cb :: bool

definition new_UpgradeManager :: UpgradeManager where
  "new_UpgradeManager = \<lparr>livox_lidar_firmware = new_Firmware, livox_lidar_info_cb = False\<rparr>"

definition SetLivoxLidarUpgradeFirmwarePath :: "(string \<Rightarrow> u8 list option) \<Rightarrow> (nat \<Rightarrow> u8) \<Rightarrow> string option \<Rightarrow>
    UpgradeManager \<Rightarrow> (bool \<times> UpgradeManager) option" where
  "SetLivoxLidarUpgradeFirmwarePath files junk path m = do {
     (ok, fw) \<leftarrow> Open files junk path (livox_lidar_firmware m);
     Some (ok, m\<lparr>livox_lidar_firmware := fw\<rparr>) }"

definition SetLivoxLidarUpgradeProgressCallback :: "bool \<Rightarrow> UpgradeManager \<Rightarrow> UpgradeManager" where
  "SetLivoxLidarUpgradeProgressCallback has_cb m = m\<lparr>livox_lidar_info_cb := has_cb\<rparr>"

text \<open>
  The upgraders are built with their observer, then started one after the other; \<open>issue\<close> and \<open>rsvd\<close>
  are the environments of the lidars. What an upgrader reports goes to the user if there is a
  callback.
\<close>

definition upgrader_env :: "UpgradeManager \<Rightarrow> (u32 \<Rightarrow> nat \<Rightarrow> issue) \<Rightarrow> (u32 \<Rightarrow> nat \<Rightarrow> u8 list) \<Rightarrow> u32 \<Rightarrow> upgrade_env" where
  "upgrader_env m issue rsvd handle =
     \<lparr>env_fw = livox_lidar_firmware m, env_issue = issue handle, env_rsvd = rsvd handle\<rparr>"

fun start_all :: "UpgradeManager \<Rightarrow> (u32 \<Rightarrow> nat \<Rightarrow> issue) \<Rightarrow> (u32 \<Rightarrow> nat \<Rightarrow> u8 list) \<Rightarrow> upgrader list \<Rightarrow> upgrader list option" where
  "start_all m issue rsvd [] = Some []"
| "start_all m issue rsvd (u # us) = do {
     u \<leftarrow> StartUpgradeLivoxLidar (upgrader_env m issue rsvd (u_handle u)) u;
     us \<leftarrow> start_all m issue rsvd us;
     Some (u # us) }"

definition UpgradeLivoxLidars :: "UpgradeManager \<Rightarrow> (u32 \<Rightarrow> nat \<Rightarrow> issue) \<Rightarrow> (u32 \<Rightarrow> nat \<Rightarrow> u8 list) \<Rightarrow>
    u32 list \<Rightarrow> u8 \<Rightarrow> upgrader list option" where
  "UpgradeLivoxLidars m issue rsvd handle lidar_num =
     start_all m issue rsvd
       (map (\<lambda>h. AddUpgradeProgressObserver (new_upgrader h)) (take (unat lidar_num) handle))"

definition user_progress :: "UpgradeManager \<Rightarrow> upgrader \<Rightarrow> (u32 \<times> LivoxLidarFsmEvent \<times> u8) list" where
  "user_progress m u = (if livox_lidar_info_cb m then map (Pair (u_handle u)) (seen u) else [])"

section \<open>The frames of an upgrade\<close>

text \<open>A request without data is a request with none.\<close>

lemma SendCommand_no_data:
  "SendCommand env rn handle cid None 0 c s = SendCommand env rn handle cid (Some []) 0 c s"
proof -
  let ?c = "\<lambda>d sq a. mk_command sq a kCommandTypeCmd kHostSend d 0 handle (inet_ntoa handle) c"
  have p: "packet (?c None sq a) = (packet (?c (Some []) sq a))\<lparr>data := None\<rparr>" for sq a
    by (simp add: mk_command_def)
  have "Pack b n (packet (?c None sq a)) = Pack b n (packet (?c (Some []) sq a))" for b n sq a
    unfolding p by (rule Pack_data) (simp add: mk_command_def deref_def peek_def)
  then have e: "CommPort_Pack b n (packet (?c None sq a)) = CommPort_Pack b n (packet (?c (Some []) sq a))" for b n sq a
    by (simp add: CommPort_Pack_def)
  have t: "transmit env l t rn (?c None sq a) port s = transmit env l t rn (?c (Some []) sq a) port s" for l t sq a port s
    unfolding transmit_def e by (simp add: mk_command_def Let_def cong: if_cong)
  have add: "AddCommand (?c None sq a) = AddCommand (?c (Some []) sq a)" for sq a
    by (rule ext) (simp add: AddCommand_def mk_command_def)
  have ty: "cmd_type (packet (mk_command sq a ct st x n h ip c)) = command_type_code ct" for sq a ct st x n h ip c
    by (simp add: mk_command_def)
  have "handler_SendCommand env rn h (?c None sq a) s = handler_SendCommand env rn h (?c (Some []) sq a) s" for h sq a s
    by (cases "kind h") (simp_all add: handler_SendCommand_def Hap_SendCommand_def Mid360_SendCommand_def ty t add)
  then show ?thesis by (simp add: SendCommand_def Let_def add split: prod.split option.split)
qed

text \<open>
  Every request of an upgrade of at most 1376 bytes, to a lidar with a handler, is exactly one
  frame with the command of that request and its bytes, and leaves one pending entry.
\<close>
theorem upgrade_frames:
  assumes "length (upgrade_bytes r) \<le> 1376"
  shows "sends_request (\<lambda>env rn h. perform env rn h r) (command_of r) (upgrade_bytes r)"
  using assms
  by (intro sends_requestI)
    (auto simp: perform_def Let_def LivoxLidarStartUpgrade_def LivoxLidarXferFirmware_def le16_def
      LivoxLidarCompleteXferFirmware_def LivoxLidarRequestReboot_def LivoxLidarGetUpgradeProgress_def
      SendCommand_no_data split: upgrade_request.split)

theorem upgrade_frames_witness:
  "sends_request (\<lambda>env rn h. perform env rn h ProgressRequest) kCommandIDGeneralRequestUpgradeProgress []"
  using upgrade_frames [of ProgressRequest] by simp

section \<open>A lidar without a handler\<close>

lemma deliver_all_none: "in_flight u = [] \<Longrightarrow> deliver_all e xs u = Some u"
  by (induction xs) (auto simp: deliver_def)

lemma FsmEventHandler_no_handler:
  assumes "env_issue e 0 = NoHandler"
  shows "StartUpgradeLivoxLidar e (AddUpgradeProgressObserver (new_upgrader h)) =
    Some (observe kLivoxLidarEventRequestUpgrade 10
      ((new_upgrader h)\<lparr>observer := True, fsm_state := 1, issued := 1\<rparr>))"
  using assms
  by (simp add: StartUpgradeLivoxLidar_def FsmEventHandler.simps AddUpgradeProgressObserver_def new_upgrader_def
      fsm_next_def Let_def fsm_rows StartUpgrade_eq)

text \<open>
  For a lidar without a handler every request fails, sends nothing and leaves nothing pending; the
  upgrade stays in its first state whatever arrives, and its destructor waits for ever.
\<close>
theorem upgrade_unknown_lidar:
  assumes "GetLidarCommandHandler handle s = None" "env_issue e 0 = NoHandler"
  shows "(\<exists>s'. perform env rn handle r c s = Some (kLivoxLidarStatusSendFailed, s') \<and>
      out s' = out s \<and> commands s' = commands s) \<and>
    (\<exists>u. StartUpgradeLivoxLidar e (AddUpgradeProgressObserver (new_upgrader handle)) = Some u \<and>
      wire u = [] \<and> destructor_waits u \<and> (\<forall>xs. deliver_all e xs u = Some u))"
proof
  have g: "GetLidarCommandHandler handle (s\<lparr>seq := x\<rparr>) = None" for x
    using assms(1) by (simp add: GetLidarCommandHandler_def GetLidarCommandHandler_type_def cong: option.case_cong)
  have "\<exists>s'. SendCommand env rn handle cid d n c s = Some (kLivoxLidarStatusSendFailed, s') \<and>
      out s' = out s \<and> commands s' = commands s" for cid d n c
    by (simp add: SendCommand_def next_seq_def g Let_def)
  then show "\<exists>s'. perform env rn handle r c s = Some (kLivoxLidarStatusSendFailed, s') \<and>
      out s' = out s \<and> commands s' = commands s"
    by (cases r) (simp_all add: perform_def Let_def LivoxLidarStartUpgrade_def LivoxLidarXferFirmware_def
      LivoxLidarCompleteXferFirmware_def LivoxLidarRequestReboot_def LivoxLidarGetUpgradeProgress_def)
  let ?u = "observe kLivoxLidarEventRequestUpgrade 10
      ((new_upgrader handle)\<lparr>observer := True, fsm_state := 1, issued := 1\<rparr>)"
  have "deliver_all e xs ?u = Some ?u" for xs
    by (rule deliver_all_none) (simp add: observe_def new_upgrader_def)
  moreover have "destructor_waits ?u" "wire ?u = []" by (simp_all add: class_simps new_upgrader_def)
  ultimately show "\<exists>u. StartUpgradeLivoxLidar e (AddUpgradeProgressObserver (new_upgrader handle)) = Some u \<and>
      wire u = [] \<and> destructor_waits u \<and> (\<forall>xs. deliver_all e xs u = Some u)"
    using FsmEventHandler_no_handler [OF assms(2)] by blast
qed

theorem upgrade_unknown_lidar_witness:
  "(\<exists>s'. perform (\<lambda>n. 0) (runner_of (\<lambda>n. 0)) 9 RebootRequest QueryFwTypeCallback initial_state =
      Some (kLivoxLidarStatusSendFailed, s') \<and> out s' = []) \<and>
    (\<exists>u. StartUpgradeLivoxLidar (demo_env\<lparr>env_issue := \<lambda>n. NoHandler\<rparr>) (AddUpgradeProgressObserver (new_upgrader 9)) =
      Some u \<and> destructor_waits u)"
proof -
  have "GetLidarCommandHandler 9 initial_state = None" by (simp add: GetLidarCommandHandler_def initial_state_def)
  moreover have "env_issue (demo_env\<lparr>env_issue := \<lambda>n. NoHandler\<rparr>) 0 = NoHandler" by simp
  moreover have "out initial_state = []" by (simp add: initial_state_def)
  ultimately show ?thesis
    using upgrade_unknown_lidar [of 9 initial_state "demo_env\<lparr>env_issue := \<lambda>n. NoHandler\<rparr>"
      "\<lambda>n. 0" "runner_of (\<lambda>n. 0)" RebootRequest QueryFwTypeCallback] by auto
qed

section \<open>A datagram the socket refuses\<close>

text \<open>The transfer event, whatever becomes of the request.\<close>

lemma xfer_event:
  assumes "firmware_ok (env_fw e) d" "read_length u = 1024" "read_offset u = of_nat (1024 * k)" "1024 * k < length d"
    "fsm_state u = 1 \<or> fsm_state u = 2"
  shows "env_issue e (issued u) = Accepted \<Longrightarrow> FsmEventHandler e kLivoxLidarEventXferFirmware p u =
      Some (observe kLivoxLidarEventXferFirmware p (sent (chunk_request e d k (issued u)) (u\<lparr>fsm_state := 2\<rparr>)))"
    and "env_issue e (issued u) = Refused \<Longrightarrow> FsmEventHandler e kLivoxLidarEventXferFirmware p u =
      do { u' \<leftarrow> do {
             (ev, q, u2) \<leftarrow> XferFirmwareResponseHandler (env_fw e) kLivoxLidarStatusSendFailed None
               (pend (chunk_request e d k (issued u)) (u\<lparr>fsm_state := 2\<rparr>));
             FsmEventHandler e ev q u2 };
           Some (observe kLivoxLidarEventXferFirmware p u') }"
proof -
  have x: "XferFirmware e (u\<lparr>fsm_state := 2\<rparr>) = Some (Some (chunk_request e d k (issued u)), u\<lparr>fsm_state := 2\<rparr>)"
    using XferFirmware_chunk [OF assms(1), of "u\<lparr>fsm_state := 2\<rparr>" k] assms by simp
  have n: "fsm_next kLivoxLidarEventXferFirmware u = (Some HXferFirmware, u\<lparr>fsm_state := 2\<rparr>)"
    using assms(5) by (auto simp: fsm_next_def fsm_rows Let_def)
  have r: "react fw (chunk_request e d k i) = XferFirmwareResponseHandler fw" for fw i
    by (rule ext)+ (simp add: react_def chunk_request_def)
  show "env_issue e (issued u) = Accepted \<Longrightarrow> FsmEventHandler e kLivoxLidarEventXferFirmware p u =
      Some (observe kLivoxLidarEventXferFirmware p (sent (chunk_request e d k (issued u)) (u\<lparr>fsm_state := 2\<rparr>)))"
    by (subst FsmEventHandler.simps) (simp add: n x sent_def)
  show "env_issue e (issued u) = Refused \<Longrightarrow> FsmEventHandler e kLivoxLidarEventXferFirmware p u =
      do { u' \<leftarrow> do {
             (ev, q, u2) \<leftarrow> XferFirmwareResponseHandler (env_fw e) kLivoxLidarStatusSendFailed None
               (pend (chunk_request e d k (issued u)) (u\<lparr>fsm_state := 2\<rparr>));
             FsmEventHandler e ev q u2 };
           Some (observe kLivoxLidarEventXferFirmware p u') }"
    by (subst FsmEventHandler.simps) (auto simp: n x r split: option.split)
qed

text \<open>
  Where an upgrade with several pending transfers is: the offset counts k chunks, \<open>fl\<close> is pending and
  the offsets \<open>ofs\<close> are accepted.
\<close>

definition flight :: "nat \<Rightarrow> u32 \<Rightarrow> upgrade_request list \<Rightarrow> u32 list \<Rightarrow> upgrade_request \<Rightarrow> nat \<Rightarrow> u32 \<Rightarrow> upgrader \<Rightarrow> bool" where
  "flight k st fl ofs r n t u \<longleftrightarrow> fsm_state u = st \<and> read_offset u = of_nat (1024 * k) \<and> read_length u = 1024 \<and>
     in_flight u = fl \<and> map xfer_offset (acked u) = ofs \<and> wire u \<noteq> [] \<and> last (wire u) = r \<and> issued u = n \<and>
     try_count u = t"

lemma flight_sent:
  "fsm_state u = st \<Longrightarrow> read_offset u = of_nat (1024 * k) \<Longrightarrow> read_length u = 1024 \<Longrightarrow> in_flight u = fl \<Longrightarrow>
     map xfer_offset (acked u) = ofs \<Longrightarrow> issued u = n \<Longrightarrow> try_count u = t \<Longrightarrow>
     flight k st (fl @ [r]) ofs r (n + 1) t (observe ev p (sent r u))"
  by (simp add: flight_def sent_def pend_def observe_def)

lemma flight_timeout:
  assumes fw: "firmware_ok (env_fw e) d" and u: "flight k 2 (r # fl) ofs r' n t u" "is_XferRequest r"
    and k: "1024 * k < length d" and n: "env_issue e n = Accepted" and t: "t + 1 < 10"
  shows "\<exists>u'. deliver e timeout_event u = Some u' \<and>
    flight k 2 (fl @ [chunk_request e d k n]) ofs (chunk_request e d k n) (n + 1) (t + 1) u'"
proof -
  let ?v = "u\<lparr>in_flight := fl, try_count := t + 1\<rparr>"
  have "deliver e timeout_event u = FsmEventHandler e kLivoxLidarEventXferFirmware 20 ?v"
    using u t by (cases r) (simp_all add: deliver_def timeout_event_def flight_def Let_def react_def
      XferFirmwareResponseHandler_def retry_def kGeneralTryCountLimit_def)
  moreover have "FsmEventHandler e kLivoxLidarEventXferFirmware 20 ?v =
      Some (observe kLivoxLidarEventXferFirmware 20 (sent (chunk_request e d k n) (?v\<lparr>fsm_state := 2\<rparr>)))"
    using u(1) n xfer_event(1) [OF fw, of ?v k 20] k by (simp add: flight_def)
  moreover have "flight k 2 (fl @ [chunk_request e d k n]) ofs (chunk_request e d k n) (n + 1) (t + 1)
      (observe kLivoxLidarEventXferFirmware 20 (sent (chunk_request e d k n) (?v\<lparr>fsm_state := 2\<rparr>)))"
    using u(1) by (intro flight_sent) (simp_all add: flight_def)
  ultimately show ?thesis by simp
qed

text \<open>An acceptance of the i-th of two pending transfers.\<close>

lemma flight_ack:
  assumes fw: "firmware_ok (env_fw e) d" and u: "flight k 2 fl ofs r' n t u" "i < length fl" "is_XferRequest (fl ! i)"
    and k: "1024 * k < length d" and n: "env_issue e n = Accepted"
  shows "1024 * Suc k < length d \<Longrightarrow> \<exists>u'. deliver e (i, kLivoxLidarStatusSuccess, Some [0]) u = Some u' \<and>
      flight (Suc k) 2 (take i fl @ drop (i + 1) fl @ [chunk_request e d (Suc k) n]) (ofs @ [xfer_offset (fl ! i)])
        (chunk_request e d (Suc k) n) (n + 1) 0 u'"
    and "\<not> 1024 * Suc k < length d \<Longrightarrow> \<exists>u'. deliver e (i, kLivoxLidarStatusSuccess, Some [0]) u = Some u' \<and>
      flight (Suc k) 3 (take i fl @ drop (i + 1) fl @ [complete_request e]) (ofs @ [xfer_offset (fl ! i)])
        (complete_request e) (n + 1) 0 u'"
proof -
  let ?v = "u\<lparr>in_flight := take i fl @ drop (i + 1) fl, acked := acked u @ [fl ! i], try_count := 0,
    read_offset := of_nat (1024 * Suc k)\<rparr>"
  have d: "deliver e (i, kLivoxLidarStatusSuccess, Some [0]) u =
      (if 1024 * Suc k < length d then FsmEventHandler e kLivoxLidarEventXferFirmware 20 ?v
       else FsmEventHandler e kLivoxLidarEventCompleteXferFirmware 40 ?v)"
    using u next_offset [OF fw k]
    by (cases "fl ! i") (auto simp: deliver_def flight_def Let_def react_def XferFirmwareResponseHandler_def
      resp_byte_def add.commute)
  show "1024 * Suc k < length d \<Longrightarrow> \<exists>u'. deliver e (i, kLivoxLidarStatusSuccess, Some [0]) u = Some u' \<and>
      flight (Suc k) 2 (take i fl @ drop (i + 1) fl @ [chunk_request e d (Suc k) n]) (ofs @ [xfer_offset (fl ! i)])
        (chunk_request e d (Suc k) n) (n + 1) 0 u'"
  proof -
    assume s: "1024 * Suc k < length d"
    have "FsmEventHandler e kLivoxLidarEventXferFirmware 20 ?v =
        Some (observe kLivoxLidarEventXferFirmware 20 (sent (chunk_request e d (Suc k) n) (?v\<lparr>fsm_state := 2\<rparr>)))"
      using u(1) n s xfer_event(1) [OF fw, of ?v "Suc k" 20] by (simp add: flight_def)
    moreover have "flight (Suc k) 2 ((take i fl @ drop (i + 1) fl) @ [chunk_request e d (Suc k) n])
        (ofs @ [xfer_offset (fl ! i)]) (chunk_request e d (Suc k) n) (n + 1) 0
        (observe kLivoxLidarEventXferFirmware 20 (sent (chunk_request e d (Suc k) n) (?v\<lparr>fsm_state := 2\<rparr>)))"
      using u(1) by (intro flight_sent) (simp_all add: flight_def)
    ultimately show ?thesis using s by (simp add: d)
  qed
  have c: "FsmEventHandler e kLivoxLidarEventCompleteXferFirmware p ?v =
      Some (observe kLivoxLidarEventCompleteXferFirmware p (sent (complete_request e) (?v\<lparr>fsm_state := 3\<rparr>)))" for p
    using u(1) n CompleteXferFirmware_ok [OF fw]
    by (subst FsmEventHandler.simps) (simp add: flight_def fsm_next_def fsm_rows Let_def sent_def)
  show "\<not> 1024 * Suc k < length d \<Longrightarrow> \<exists>u'. deliver e (i, kLivoxLidarStatusSuccess, Some [0]) u = Some u' \<and>
      flight (Suc k) 3 (take i fl @ drop (i + 1) fl @ [complete_request e]) (ofs @ [xfer_offset (fl ! i)])
        (complete_request e) (n + 1) 0 u'"
  proof -
    assume s: "\<not> 1024 * Suc k < length d"
    have "flight (Suc k) 3 ((take i fl @ drop (i + 1) fl) @ [complete_request e])
        (ofs @ [xfer_offset (fl ! i)]) (complete_request e) (n + 1) 0
        (observe kLivoxLidarEventCompleteXferFirmware 40 (sent (complete_request e) (?v\<lparr>fsm_state := 3\<rparr>)))"
      using u(1) by (intro flight_sent) (simp_all add: flight_def)
    then show ?thesis unfolding d using s c [of 40] by simp
  qed
qed

lemma start_flight:
  assumes "env_issue e 0 = Accepted"
  shows "\<exists>u. StartUpgradeLivoxLidar e (AddUpgradeProgressObserver (new_upgrader handle)) = Some u \<and>
    flight 0 1 [start_request e] [] (start_request e) 1 0 u"
proof -
  let ?v = "(AddUpgradeProgressObserver (new_upgrader handle))\<lparr>fsm_state := 1, read_offset := 0, upgrade_error := 0,
    u_progress := 0\<rparr>"
  have "StartUpgradeLivoxLidar e (AddUpgradeProgressObserver (new_upgrader handle)) =
      Some (observe kLivoxLidarEventRequestUpgrade 10 (sent (start_request e) ?v))"
    using assms by (simp add: StartUpgradeLivoxLidar_def FsmEventHandler.simps fsm_next_def fsm_rows Let_def
      StartUpgrade_eq AddUpgradeProgressObserver_def new_upgrader_def sent_def)
  moreover have "flight 0 1 ([] @ [start_request e]) [] (start_request e) (0 + 1) 0
      (observe kLivoxLidarEventRequestUpgrade 10 (sent (start_request e) ?v))"
    by (intro flight_sent) (simp_all add: AddUpgradeProgressObserver_def new_upgrader_def)
  ultimately show ?thesis by simp
qed

text \<open>The first transfer is refused by the socket: it is repeated at once, and both stay pending.\<close>

lemma flight_refused:
  assumes fw: "firmware_ok (env_fw e) d" and u: "flight 0 1 [start_request e] [] r' n t u"
    and n: "env_issue e n = Refused" "env_issue e (n + 1) = Accepted"
  shows "\<exists>u'. deliver e (ack [0]) u = Some u' \<and> flight 0 2 [chunk_request e d 0 n, chunk_request e d 0 (n + 1)] []
    (chunk_request e d 0 (n + 1)) (n + 2) 1 u'"
proof -
  let ?v = "u\<lparr>in_flight := [], try_count := 0\<rparr>"
  let ?w = "(pend (chunk_request e d 0 n) (?v\<lparr>fsm_state := 2\<rparr>))\<lparr>try_count := 1\<rparr>"
  have k: "1024 * 0 < length d" using fw by (simp add: firmware_ok_def)
  have "deliver e (ack [0]) u = FsmEventHandler e kLivoxLidarEventXferFirmware 20 ?v"
    using u by (simp add: deliver_def ack_def flight_def Let_def react_def start_request_def
      StartUpgradeResponseHandler_def resp_byte_def)
  moreover have "FsmEventHandler e kLivoxLidarEventXferFirmware 20 ?v =
      do { u' \<leftarrow> FsmEventHandler e kLivoxLidarEventXferFirmware 20 ?w;
        Some (observe kLivoxLidarEventXferFirmware 20 u') }"
    using u n(1) xfer_event(2) [OF fw, of ?v 0 20] k
    by (simp add: flight_def XferFirmwareResponseHandler_def retry_def kGeneralTryCountLimit_def Let_def)
  moreover have "FsmEventHandler e kLivoxLidarEventXferFirmware 20 ?w =
      Some (observe kLivoxLidarEventXferFirmware 20 (sent (chunk_request e d 0 (n + 1)) (?w\<lparr>fsm_state := 2\<rparr>)))"
    using u n(2) xfer_event(1) [OF fw, of ?w 0 20] k by (simp add: flight_def pend_def)
  moreover have "flight 0 2 ([chunk_request e d 0 n] @ [chunk_request e d 0 (n + 1)]) []
      (chunk_request e d 0 (n + 1)) ((n + 1) + 1) 1
      (observe kLivoxLidarEventXferFirmware 20 (sent (chunk_request e d 0 (n + 1)) (?w\<lparr>fsm_state := 2\<rparr>)))"
    using u by (intro flight_sent) (simp_all add: flight_def pend_def)
  moreover have "flight k st fl ofs r m x u \<Longrightarrow> flight k st fl ofs r m x (observe ev p u)" for k st fl ofs r m x u ev p
    by (simp add: flight_def observe_def)
  ultimately show ?thesis by simp
qed

text \<open>A transfer that times out after the transfer is complete is dropped.\<close>

lemma flight_late:
  assumes "flight k 3 (r # fl) ofs r' n t u" "is_XferRequest r" "t + 1 < 10"
  shows "\<exists>u'. deliver e timeout_event u = Some u' \<and> flight k 3 fl ofs r' n (t + 1) u'"
  using assms
  by (cases r) (auto simp: deliver_def timeout_event_def flight_def Let_def react_def
      XferFirmwareResponseHandler_def retry_def kGeneralTryCountLimit_def FsmEventHandler.simps fsm_next_def
      fsm_row_def upgrade_event_table_def observe_def)

text \<open>
  A datagram the socket refuses breaks the transfer: its entry stays pending beside the
  repetition, the chunk is sent twice, both acceptances move the offset, and the upgrade of a
  firmware of three chunks asks for completion with the second chunk never accepted.
\<close>
theorem upgrade_skips_chunk:
  assumes "firmware_ok (env_fw e) d" "length d = 3000" "env_issue e = (\<lambda>n. if n = 1 then Refused else Accepted)"
  shows "\<exists>u u'. StartUpgradeLivoxLidar e (AddUpgradeProgressObserver (new_upgrader handle)) = Some u \<and>
    deliver_all e [ack [0], timeout_event, ack [0], ack [0], (1, kLivoxLidarStatusSuccess, Some [0]), timeout_event] u =
      Some u' \<and>
    map xfer_offset (acked u') = [0, 0, 2048] \<and> wire u' \<noteq> [] \<and> last (wire u') = complete_request e \<and>
    in_flight u' = [complete_request e]"
proof -
  note fw = assms(1)
  have acc: "env_issue e n = (if n = 1 then Refused else Accepted)" for n by (simp add: assms(3))
  have k: "1024 * 0 < length d" "1024 * Suc 0 < length d" "1024 * Suc (Suc 0) < length d"
    "\<not> 1024 * Suc (Suc (Suc 0)) < length d" using assms(2) by simp_all
  have x: "is_XferRequest (chunk_request e d j i)" "xfer_offset (chunk_request e d j i) = of_nat (1024 * j)" for i j
    by (simp_all add: chunk_request_def)
  obtain u0 where u0: "StartUpgradeLivoxLidar e (AddUpgradeProgressObserver (new_upgrader handle)) = Some u0"
    "flight 0 1 [start_request e] [] (start_request e) 1 0 u0" using start_flight [of e handle] acc by auto
  obtain u1 where u1: "deliver e (ack [0]) u0 = Some u1"
    "flight 0 2 [chunk_request e d 0 1, chunk_request e d 0 2] [] (chunk_request e d 0 2) 3 1 u1"
    using flight_refused [OF fw u0(2)] acc by (auto simp: numeral_eq_Suc)
  obtain u2 where u2: "deliver e timeout_event u1 = Some u2"
    "flight 0 2 [chunk_request e d 0 2, chunk_request e d 0 3] [] (chunk_request e d 0 3) 4 2 u2"
    using flight_timeout [OF fw u1(2) x(1) k(1)] acc by auto
  obtain u3 where u3: "deliver e (ack [0]) u2 = Some u3"
    "flight 1 2 [chunk_request e d 0 3, chunk_request e d 1 4] [0] (chunk_request e d 1 4) 5 0 u3"
    using flight_ack(1) [OF fw u2(2), of 0] k acc x by (auto simp: ack_def)
  obtain u4 where u4: "deliver e (ack [0]) u3 = Some u4"
    "flight 2 2 [chunk_request e d 1 4, chunk_request e d 2 5] [0, 0] (chunk_request e d 2 5) 6 0 u4"
    using flight_ack(1) [OF fw u3(2), of 0] k acc x by (auto simp: ack_def numeral_2_eq_2)
  obtain u5 where u5: "deliver e (1, kLivoxLidarStatusSuccess, Some [0]) u4 = Some u5"
    "flight 3 3 [chunk_request e d 1 4, complete_request e] [0, 0, 2048] (complete_request e) 7 0 u5"
    using flight_ack(2) [OF fw u4(2), of 1] k acc x by (auto simp: numeral_3_eq_3 numeral_2_eq_2)
  obtain u6 where "deliver e timeout_event u5 = Some u6"
    "flight 3 3 [complete_request e] [0, 0, 2048] (complete_request e) 7 1 u6"
    using flight_late [OF u5(2) x(1)] by auto
  then show ?thesis using u0(1) u1(1) u2(1) u3(1) u4(1) u5(1) by (auto simp: flight_def)
qed

theorem upgrade_skips_chunk_witness:
  "\<exists>e u u'. StartUpgradeLivoxLidar e (AddUpgradeProgressObserver (new_upgrader 9)) = Some u \<and>
    deliver_all e [ack [0], timeout_event, ack [0], ack [0], (1, kLivoxLidarStatusSuccess, Some [0]), timeout_event] u =
      Some u' \<and> map xfer_offset (acked u') = [0, 0, 2048] \<and> last (wire u') = complete_request e"
proof -
  let ?fw = "\<lparr>header = zero_header\<lparr>firmware_length := 3000\<rparr>, fw_data = Some (replicate 3000 1), fw_tail = [],
    file_size = 3303\<rparr>"
  let ?e = "\<lparr>env_fw = ?fw, env_issue = (\<lambda>n. if n = 1 then Refused else Accepted), env_rsvd = (\<lambda>n. [0, 0, 0])\<rparr>"
  have "firmware_ok (env_fw ?e) (replicate 3000 1)"
    by (simp add: firmware_ok_def header_ok_def zero_header_def)
  then show ?thesis using upgrade_skips_chunk [of ?e "replicate 3000 1" 9] by fastforce
qed

section \<open>From the file to the lidars\<close>

lemma start_all_Some:
  assumes "\<And>h n. issue h n = Accepted"
  shows "\<exists>us. start_all m issue rsvd (map (\<lambda>h. AddUpgradeProgressObserver (new_upgrader h)) hs) = Some us \<and>
    list_all2 (\<lambda>h u. upgrade_reaches (upgrader_env m issue rsvd h) h u) hs us"
proof (induction hs)
  case (Cons h hs)
  let ?e = "upgrader_env m issue rsvd h"
  have acc: "env_issue ?e n = Accepted" for n by (simp add: upgrader_env_def assms)
  have hd: "u_handle (AddUpgradeProgressObserver (new_upgrader h)) = h"
    by (simp add: AddUpgradeProgressObserver_def new_upgrader_def)
  obtain u where u: "StartUpgradeLivoxLidar ?e (AddUpgradeProgressObserver (new_upgrader h)) = Some u"
    "waiting 0 1 (start_request ?e) [start_request ?e] u" using start_waiting [of ?e h] acc by blast
  have "upgrade_reaches ?e h u" using u(1) deliver_all.simps(1) [of ?e u] unfolding upgrade_reaches_def by blast
  then show ?case using Cons u by (auto simp: hd waiting_def)
qed simp

text \<open>
  C20. From the file to the lidars, when the socket takes every request to every lidar: a firmware
  file with the right header checksum, data (of 1 to 2^32 - 1024 bytes) of the length the header
  declares and a signature is opened, one upgrade is started for each of the first lidar_num
  handles, and any of them that asks for the completion of its transfer has had exactly the data
  of the file accepted.
\<close>
theorem upgrade_from_file:
  assumes "header_ok h" "header_checksum h = mcrf4xx_bits (header_body h)" "firmware_length h = of_nat (length d)"
    "d \<noteq> []" "length d \<le> 2 ^ 32 - 1024" "length t = kMd5SignatureLength"
    "files path = Some (header_bytes h @ d @ t)" "\<And>h n. issue h n = Accepted"
  shows "\<exists>m us. SetLivoxLidarUpgradeFirmwarePath files junk (Some path) new_UpgradeManager = Some (True, m) \<and>
    UpgradeLivoxLidars m issue rsvd handles lidar_num = Some us \<and>
    list_all2 (\<lambda>h u. upgrade_reaches (upgrader_env m issue rsvd h) h u) (take (unat lidar_num) handles) us \<and>
    (\<forall>h u b. upgrade_reaches (upgrader_env m issue rsvd h) h u \<longrightarrow> CompleteXferRequest b \<in> set (wire u) \<longrightarrow>
      concat (map xfer_data (acked u)) = d)"
proof -
  let ?fw = "\<lparr>header = h, fw_data = Some d, fw_tail = t, file_size = length (header_bytes h @ d @ t)\<rparr>"
  let ?m = "new_UpgradeManager\<lparr>livox_lidar_firmware := ?fw\<rparr>"
  have "Open files junk (Some path) new_Firmware = Some (True, ?fw)"
    using assms new_Firmware_ok by (intro Open_file) simp_all
  then have "SetLivoxLidarUpgradeFirmwarePath files junk (Some path) new_UpgradeManager = Some (True, ?m)"
    by (simp add: SetLivoxLidarUpgradeFirmwarePath_def new_UpgradeManager_def del: length_append)
  moreover have "upgrade_ok (upgrader_env ?m issue rsvd x) d" for x
    using assms by (simp add: upgrade_ok_def firmware_ok_def upgrader_env_def)
  then have "\<forall>x u b. upgrade_reaches (upgrader_env ?m issue rsvd x) x u \<longrightarrow> CompleteXferRequest b \<in> set (wire u) \<longrightarrow>
      concat (map xfer_data (acked u)) = d" using complete_firmware by blast
  moreover obtain us where "UpgradeLivoxLidars ?m issue rsvd handles lidar_num = Some us"
    "list_all2 (\<lambda>h u. upgrade_reaches (upgrader_env ?m issue rsvd h) h u) (take (unat lidar_num) handles) us"
    using start_all_Some [of issue ?m rsvd "take (unat lidar_num) handles"] assms(8)
    unfolding UpgradeLivoxLidars_def by blast
  ultimately show ?thesis by blast
qed

theorem upgrade_from_file_witness:
  "\<exists>m us. SetLivoxLidarUpgradeFirmwarePath (\<lambda>p. Some demo_file) (\<lambda>i. 0) (Some ''fw.bin'') new_UpgradeManager =
      Some (True, m) \<and> UpgradeLivoxLidars m (\<lambda>h n. Accepted) (\<lambda>h n. [0, 0, 0]) [9, 10] 2 = Some us"
proof -
  have "firmware_length demo_header = of_nat (length [7 :: u8, 8])" using demo_header(3) by simp
  from upgrade_from_file [where files = "\<lambda>p. Some demo_file" and path = "''fw.bin''" and h = demo_header
      and d = "[7, 8]" and t = "replicate 16 5" and issue = "\<lambda>h n. Accepted" and junk = "\<lambda>i. 0"
      and rsvd = "\<lambda>h n. [0, 0, 0]" and handles = "[9, 10]" and lidar_num = 2, OF demo_header(1,2) this]
  show ?thesis by (auto simp: kMd5SignatureLength_def demo_file_def)
qed

end
