(* ===== verification/Device_Manager.thy ===== *)
theory Device_Manager
  imports Handler_Invariant "HOL-Library.Multiset"
begin

text \<open>
  The rest of \<open>DeviceManager\<close> (sdk\_core/device\_manager.cpp): initialisation, the sockets it opens for
  the hosts of the configuration and registers with the three event loops, what becomes of a datagram,
  how a lidar that announces itself is taken up, and the teardown. The general handler and the
  viewer's tables are the component \<open>sdk\<close>.

  What \<open>CreateSocket\<close> returns at its \<open>n\<close>-th call is the parameter \<open>mk\<close>, negative for a failure. The
  buffer of a datagram is the whole array of 8192 bytes.
\<close>

section \<open>State\<close>

datatype io_loop = DetectionLoop | CommandLoop | DataLoop

datatype dm_output =
    DataDatagram u8 u32 "u8 list" u32
  | DebugDatagram u32 u16 "u8 list" u32
  | LogDatagram u32 u16 "u8 list" u32
  | SearchRequest "u8 list"

text \<open>A socket with the arguments it was opened with: every one is non-blocking and shares its port.\<close>

record Socket =
  fd :: int
  sock_port :: u16
  is_broadcast :: bool
  netif :: string
  sock_multicast :: string

record dm_state =
  sdk :: sdk_state
  dm_is_view :: bool
  dm_host_ip :: string
  dm_comm_port :: bool
  lidars_cfg :: "LivoxLidarCfg list"
  custom_lidars_cfg :: "LivoxLidarCfg list"
  type_lidars_cfg_map :: "u8 \<rightharpoonup> LivoxLidarCfg"
  dm_custom_lidars_cfg_map :: "u32 \<rightharpoonup> LivoxLidarCfg"
  detection_socket :: int
  detection_broadcast_socket :: int
  socket_vec :: "int list"
  vec_broadcast_socket :: "int list"
  channel_info :: "string \<rightharpoonup> int"
  custom_command_channel :: "string \<rightharpoonup> int"
  command_channel :: "int set"
  data_channel :: "int set"
  delegates :: "(io_loop \<times> int) list"
  detecting :: bool
  log_enable :: bool
  created :: nat
  opened :: "Socket list"
  closed :: "int list"
  dm_out :: "dm_output list"

definition new_DeviceManager :: "sdk_state \<Rightarrow> bool \<Rightarrow> dm_state" where
  "new_DeviceManager t log = \<lparr>sdk = t, dm_is_view = False, dm_host_ip = [], dm_comm_port = False, lidars_cfg = [],
     custom_lidars_cfg = [], type_lidars_cfg_map = Map.empty, dm_custom_lidars_cfg_map = Map.empty, detection_socket = 0,
     detection_broadcast_socket = 0, socket_vec = [], vec_broadcast_socket = [], channel_info = Map.empty,
     custom_command_channel = Map.empty, command_channel = {}, data_channel = {}, delegates = [], detecting = False,
     log_enable = log, created = 0, opened = [], closed = [], dm_out = []\<rparr>"

definition dm_emit :: "dm_output \<Rightarrow> dm_state \<Rightarrow> dm_state" where
  "dm_emit e s = s\<lparr>dm_out := dm_out s @ [e]\<rparr>"

section \<open>Sockets\<close>

text \<open>\<open>opened\<close> and \<open>closed\<close> record the sockets the operating system gave and got back.\<close>

definition CreateSocket :: "(nat \<Rightarrow> int) \<Rightarrow> u16 \<Rightarrow> bool \<Rightarrow> string \<Rightarrow> string \<Rightarrow> dm_state \<Rightarrow> int \<times> dm_state" where
  "CreateSocket mk port broadcast ip multicast s =
     (let sock = mk (created s)
      in (sock, s\<lparr>created := created s + 1, opened := (if sock < 0 then opened s else opened s @
           [\<lparr>fd = sock, sock_port = port, is_broadcast = broadcast, netif = ip, sock_multicast = multicast\<rparr>])\<rparr>))"

definition kBroadcastIp :: string where "kBroadcastIp = ''255.255.255.255''"

text \<open>The name \<open>local\<close> stands for every interface.\<close>

definition host_netif :: "string \<Rightarrow> string" where
  "host_netif host = (if host = ''local'' then [] else host)"

definition CloseSock :: "int \<Rightarrow> dm_state \<Rightarrow> dm_state" where
  "CloseSock sock s = (if sock > 0 then s\<lparr>closed := closed s @ [sock]\<rparr> else s)"

definition AddDelegate :: "io_loop \<Rightarrow> int \<Rightarrow> dm_state \<Rightarrow> dm_state" where
  "AddDelegate l sock s = s\<lparr>delegates := delegates s @ [(l, sock)]\<rparr>"

definition RemoveDelegates :: "io_loop \<Rightarrow> int set \<Rightarrow> dm_state \<Rightarrow> dm_state" where
  "RemoveDelegates l socks s = s\<lparr>delegates := filter (\<lambda>(m, sock). \<not> (m = l \<and> sock > 0 \<and> sock \<in> socks)) (delegates s)\<rparr>"

definition channel_key :: "string \<Rightarrow> u16 \<Rightarrow> string" where
  "channel_key ip port = ip @ '':'' @ dec (unat port)"

definition kLogPort :: u16 where "kLogPort = 0"
definition kPaHostFaultPort :: u16 where "kPaHostFaultPort = 42867"
definition kMid360LidarDebugPointCloudPort :: u16 where "kMid360LidarDebugPointCloudPort = 60301"
definition kHAPDebugPointCloudPort :: u16 where "kHAPDebugPointCloudPort = 60000"
definition kPaLidarLogPort :: u16 where "kPaLidarLogPort = 1002"

definition CreateDetectionChannel :: "(nat \<Rightarrow> int) \<Rightarrow> dm_state \<Rightarrow> bool \<times> dm_state" where
  "CreateDetectionChannel mk s =
     (let (sock, s) = CreateSocket mk kDetectionPort True kBroadcastIp [] s; s = s\<lparr>detection_broadcast_socket := sock\<rparr> in
      if sock < 0 then (False, s)
      else let s = AddDelegate DetectionLoop sock s;
               key = channel_key (dm_host_ip s) kDetectionPort;
               (sock, s) = CreateSocket mk kDetectionPort True (dm_host_ip s) [] s; s = s\<lparr>detection_socket := sock\<rparr> in
        if sock < 0 then (False, s)
        else let s = AddDelegate DetectionLoop sock s in
          (True, s\<lparr>channel_info := (channel_info s)(key \<mapsto> sock),
             custom_command_channel := (if custom_command_channel s key = None
               then (custom_command_channel s)(key \<mapsto> sock) else custom_command_channel s)\<rparr>))"

definition CreateCmdSocketAndAddDelegate :: "(nat \<Rightarrow> int) \<Rightarrow> string \<Rightarrow> u16 \<Rightarrow> dm_state \<Rightarrow> bool \<times> dm_state" where
  "CreateCmdSocketAndAddDelegate mk host port s =
     (if host = [] \<or> port = 0 \<or> port = kLogPort then (True, s)
      else let key = channel_key host port in
        case channel_info s key of
          Some sock \<Rightarrow> (True, if custom_command_channel s key = None
            then s\<lparr>custom_command_channel := (custom_command_channel s)(key \<mapsto> sock)\<rparr> else s)
        | None \<Rightarrow>
            let (sock, s) = CreateSocket mk port True (host_netif host) [] s in
            if sock < 0 then (False, s)
            else (True, AddDelegate CommandLoop sock
              (s\<lparr>socket_vec := socket_vec s @ [sock], channel_info := (channel_info s)(key \<mapsto> sock),
                 command_channel := insert sock (command_channel s),
                 custom_command_channel := (custom_command_channel s)(key \<mapsto> sock)\<rparr>)))"

definition CreateDataSocketAndAddDelegate :: "(nat \<Rightarrow> int) \<Rightarrow> string \<Rightarrow> string \<Rightarrow> u16 \<Rightarrow> dm_state \<Rightarrow> bool \<times> dm_state" where
  "CreateDataSocketAndAddDelegate mk host multicast port s =
     (if host = [] \<or> port = 0 \<or> port = kLogPort \<or> port = kDetectionPort then (True, s)
      else let key = channel_key host port in
        if channel_info s key \<noteq> None then (True, s)
        else let (sock, s) = CreateSocket mk port False (host_netif host) multicast s in
          if sock < 0 then (False, s)
          else (True, AddDelegate DataLoop sock
            (s\<lparr>socket_vec := socket_vec s @ [sock], channel_info := (channel_info s)(key \<mapsto> sock),
               data_channel := insert sock (data_channel s)\<rparr>)))"

text \<open>One step after the other until one fails.\<close>

fun all_steps :: "('s \<Rightarrow> bool \<times> 's) list \<Rightarrow> 's \<Rightarrow> bool \<times> 's" where
  "all_steps [] s = (True, s)"
| "all_steps (f # fs) s = (case f s of (ok, s) \<Rightarrow> if ok then all_steps fs s else (False, s))"

definition CreateDataChannel :: "(nat \<Rightarrow> int) \<Rightarrow> HostNetInfo \<Rightarrow> dm_state \<Rightarrow> bool \<times> dm_state" where
  "CreateDataChannel mk h = all_steps
     (map (CreateDataSocketAndAddDelegate mk (host_ip h) (multicast_ip h)) [point_data_port h, imu_data_port h, kHostDebugPointCloudPort])"

definition push_broadcast_channel :: "(nat \<Rightarrow> int) \<Rightarrow> u16 \<Rightarrow> dm_state \<Rightarrow> bool \<times> dm_state" where
  "push_broadcast_channel mk port s =
     (let (sock, s) = CreateSocket mk port True kBroadcastIp [] s in
      if sock < 0 then (False, s)
      else (True, AddDelegate CommandLoop sock (s\<lparr>vec_broadcast_socket := vec_broadcast_socket s @ [sock]\<rparr>)))"

definition CreateCommandChannel :: "(nat \<Rightarrow> int) \<Rightarrow> bool \<Rightarrow> u8 \<Rightarrow> HostNetInfo \<Rightarrow> dm_state \<Rightarrow> bool \<times> dm_state" where
  "CreateCommandChannel mk master dev_type h s = all_steps
     ((if master then [CreateCmdSocketAndAddDelegate mk (host_ip h) (cmd_data_port h)] else []) @
      [CreateCmdSocketAndAddDelegate mk (host_ip h) (push_msg_port h)] @
      (if dev_type = dev_type_code kLivoxLidarTypePA
       then [CreateCmdSocketAndAddDelegate mk (host_ip h) kPaHostFaultPort] else []) @
      (if dev_type = dev_type_code kLivoxLidarTypeMid360 then [push_broadcast_channel mk (push_msg_port h)] else []) @
      (if log_enable s then [CreateCmdSocketAndAddDelegate mk (host_ip h) (log_data_port h)] else [])) s"

definition lidar_channels :: "(nat \<Rightarrow> int) \<Rightarrow> bool \<Rightarrow> LivoxLidarCfg \<Rightarrow> dm_state \<Rightarrow> bool \<times> dm_state" where
  "lidar_channels mk master cfg =
     all_steps [CreateDataChannel mk (host_net_info cfg), CreateCommandChannel mk master (device_type cfg) (host_net_info cfg)]"

text \<open>The framework's configuration is there whenever the SDK was initialised from a file.\<close>

definition CreateChannel :: "(nat \<Rightarrow> int) \<Rightarrow> bool \<Rightarrow> dm_state \<Rightarrow> bool \<times> dm_state" where
  "CreateChannel mk master s =
     all_steps (CreateDetectionChannel mk # map (lidar_channels mk master) (custom_lidars_cfg s)) s"

text \<open>A viewer opens the data channels of a lidar when it has learnt its ports.\<close>

definition view_channel :: "(nat \<Rightarrow> int) \<Rightarrow> string \<Rightarrow> u16 \<Rightarrow> dm_state \<Rightarrow> bool \<times> dm_state" where
  "view_channel mk host port s =
     (let key = channel_key host port in
      if channel_info s key \<noteq> None then (True, s)
      else let (sock, s) = CreateSocket mk port True host [] s in
        if sock < 0 then (False, s)
        else (True, AddDelegate DataLoop sock
          (s\<lparr>socket_vec := socket_vec s @ [sock], channel_info := (channel_info s)(key \<mapsto> sock)\<rparr>)))"

definition CreateViewDataChannel :: "(nat \<Rightarrow> int) \<Rightarrow> ViewLidarIpInfo \<Rightarrow> dm_state \<Rightarrow> dm_state" where
  "CreateViewDataChannel mk info s = snd (all_steps
     (map (view_channel mk (view_host_ip info)) [view_host_point_port info, view_host_imu_data_port info]) s)"

text \<open>The socket a command leaves through.\<close>

definition GetCmdChannel :: "u32 \<Rightarrow> dm_state \<Rightarrow> int option" where
  "GetCmdChannel handle s = do {
     cfg \<leftarrow> dm_custom_lidars_cfg_map s handle;
     custom_command_channel s (channel_key (host_ip (host_net_info cfg)) (cmd_data_port (host_net_info cfg))) }"

definition GetLoggerCmdChannel :: "u32 \<Rightarrow> dm_state \<Rightarrow> int option" where
  "GetLoggerCmdChannel handle s = do {
     cfg \<leftarrow> dm_custom_lidars_cfg_map s handle;
     custom_command_channel s (channel_key (host_ip (host_net_info cfg)) (log_data_port (host_net_info cfg))) }"

definition command_socket :: "u32 \<Rightarrow> dm_state \<Rightarrow> int" where
  "command_socket handle s = (case GetCmdChannel handle s of None \<Rightarrow> detection_socket s | Some sock \<Rightarrow> sock)"

definition logger_socket :: "u32 \<Rightarrow> dm_state \<Rightarrow> int" where
  "logger_socket handle s = (case GetLoggerCmdChannel handle s of None \<Rightarrow> detection_socket s | Some sock \<Rightarrow> sock)"

section \<open>Initialisation\<close>

text \<open>
  What the other components answer: the storage path of the debug point cloud, the logger, and the
  three event-loop threads. \<open>ia\<close> is \<open>inet_addr\<close>.
\<close>

record boot =
  store_path_ok :: bool
  logger_init_ok :: bool
  io_threads_ok :: bool

definition GetLidarConfigMap :: "(string \<Rightarrow> u32) \<Rightarrow> dm_state \<Rightarrow> dm_state" where
  "GetLidarConfigMap ia s = s\<lparr>
     type_lidars_cfg_map := foldl (\<lambda>m cfg. m(device_type cfg \<mapsto> cfg)) (type_lidars_cfg_map s) (lidars_cfg s),
     dm_custom_lidars_cfg_map := foldl (\<lambda>m cfg. m(ia (lidar_ipaddr (lidar_net_info cfg)) \<mapsto> cfg))
       (dm_custom_lidars_cfg_map s) (custom_lidars_cfg s)\<rparr>"

definition DeviceManager_Init_view :: "boot \<Rightarrow> (nat \<Rightarrow> int) \<Rightarrow> string \<Rightarrow> bool \<Rightarrow> dm_state \<Rightarrow> bool \<times> dm_state" where
  "DeviceManager_Init_view b mk host has_log_cfg s =
     (let s = s\<lparr>dm_is_view := True, dm_host_ip := host, dm_comm_port := True\<rparr> in
      if has_log_cfg \<and> \<not> store_path_ok b then (False, s)
      else if \<not> logger_init_ok b then (False, s)
      else let s = s\<lparr>sdk := Init_view host True (sdk s)\<rparr> in
        if \<not> io_threads_ok b then (False, s)
        else case CreateDetectionChannel mk s of (ok, s) \<Rightarrow>
          if \<not> ok then (False, s) else (True, s\<lparr>detecting := True\<rparr>))"

definition DeviceManager_Init ::
  "boot \<Rightarrow> (nat \<Rightarrow> int) \<Rightarrow> (string \<Rightarrow> u32) \<Rightarrow> LivoxLidarCfg list \<Rightarrow> LivoxLidarCfg list \<Rightarrow> bool \<Rightarrow> bool \<Rightarrow> dm_state \<Rightarrow> bool \<times> dm_state" where
  "DeviceManager_Init b mk ia lidars customs has_log_cfg master s =
     (let s = s\<lparr>dm_is_view := False, lidars_cfg := lidars, custom_lidars_cfg := customs,
        sdk := (sdk s)\<lparr>master_sdk := Some master\<rparr>\<rparr> in
      case lidars @ customs of
        [] \<Rightarrow> (False, s)
      | cfg # _ \<Rightarrow>
        let s = s\<lparr>dm_host_ip := host_ip (host_net_info cfg), dm_comm_port := True\<rparr> in
        if \<not> has_log_cfg \<or> \<not> store_path_ok b \<or> \<not> logger_init_ok b then (False, s)
        else let s = GetLidarConfigMap ia (s\<lparr>sdk := Init_cfg ia customs (sdk s)\<rparr>) in
          if \<not> io_threads_ok b then (False, s)
          else case CreateChannel mk master s of (ok, s) \<Rightarrow>
            if \<not> ok then (False, s) else (True, s\<lparr>detecting := True\<rparr>))"

text \<open>The search for lidars: a request without data, to everybody; \<open>None\<close> would be a store beyond the buffer.\<close>

definition search_packet :: "u32 \<Rightarrow> CommPacket" where
  "search_packet sq = \<lparr>protocol = protocol_code kLidarSdk, version = kSdkVer_command, seq_num = sq,
     cmd_id = command_id_code kCommandIDLidarSearch, cmd_type = command_type_code kCommandTypeCmd,
     sender_type = send_type_code kHostSend, data = Some (replicate kMaxCommandBufferSize 0), data_len = 0\<rparr>"

definition Detection :: "dm_state \<Rightarrow> dm_state option" where
  "Detection s = do {
     let sq = GetSeq (seq (sdk s));
     (status, buf, size) \<leftarrow> CommPort_Pack (replicate (kMaxCommandBufferSize + 1) 0) (of_nat kMaxCommandBufferSize) (search_packet sq);
     let n = (case size of None \<Rightarrow> 0 | Some n \<Rightarrow> unat n);
     Some (dm_emit (SearchRequest (take n buf)) (s\<lparr>sdk := (sdk s)\<lparr>seq := sq\<rparr>\<rparr>)) }"

section \<open>A datagram\<close>

definition on_sdk :: "(sdk_state \<Rightarrow> sdk_state option) \<Rightarrow> dm_state \<Rightarrow> dm_state option" where
  "on_sdk f s = map_option (\<lambda>t. s\<lparr>sdk := t\<rparr>) (f (sdk s))"

text \<open>
  In the viewer the general handler may learn the ports of a lidar, which opens its channels. The
  model of the handler leaves that to its caller.
\<close>

definition view_lidars :: "sdk_output list \<Rightarrow> ViewLidarIpInfo list" where
  "view_lidars os = concat (map (\<lambda>e. case e of ViewDataChannel info \<Rightarrow> [info] | _ \<Rightarrow> []) os)"

definition on_general :: "(nat \<Rightarrow> int) \<Rightarrow> (sdk_state \<Rightarrow> sdk_state option) \<Rightarrow> dm_state \<Rightarrow> dm_state option" where
  "on_general mk f s = map_option
     (\<lambda>s'. foldl (\<lambda>s info. CreateViewDataChannel mk info s) s' (view_lidars (drop (length (out (sdk s))) (out (sdk s')))))
     (on_sdk f s)"

text \<open>A lidar of a type that is configured has announced itself for the first time.\<close>

definition add_lidar :: "(nat \<Rightarrow> int) \<Rightarrow> (string \<Rightarrow> u32) \<Rightarrow> u32 \<Rightarrow> u8 \<Rightarrow> LivoxLidarCfg \<Rightarrow> dm_state \<Rightarrow> dm_state option" where
  "add_lidar mk ia handle dev_type cfg s = do {
     let cfg = cfg\<lparr>lidar_net_info := (lidar_net_info cfg)\<lparr>lidar_ipaddr := inet_ntoa handle\<rparr>\<rparr>;
     let s = s\<lparr>type_lidars_cfg_map := (type_lidars_cfg_map s)(dev_type \<mapsto> cfg),
               dm_custom_lidars_cfg_map := (dm_custom_lidars_cfg_map s)(handle \<mapsto> cfg),
               custom_lidars_cfg := custom_lidars_cfg s @ [cfg]\<rparr>;
     s \<leftarrow> on_sdk (\<lambda>t. CreateCommandHandler dev_type (Init_cfg ia (custom_lidars_cfg s) t)) s;
     master \<leftarrow> master_sdk (sdk s);
     Some (snd (all_steps (map (lidar_channels mk master) (custom_lidars_cfg s)) s)) }"

definition announced :: "(nat \<Rightarrow> int) \<Rightarrow> (string \<Rightarrow> u32) \<Rightarrow> u32 \<Rightarrow> u16 \<Rightarrow> u8 list \<Rightarrow> u32 \<Rightarrow> dm_state \<Rightarrow> dm_state option" where
  "announced mk ia handle port buf buf_size s =
     (if port \<noteq> kDetectionPort then Some s
      else if \<not> dm_comm_port s then None
      else do {
        parsed \<leftarrow> ParseCommStream buf buf_size;
        case parsed of None \<Rightarrow> Some s | Some p \<Rightarrow>
          if cmd_id p \<noteq> command_id_code kCommandIDLidarSearch then Some s
          else case data p of None \<Rightarrow> Some s | Some d \<Rightarrow>
            if data_len p = 0 then Some s
            else do {
              ret_code \<leftarrow> rd8 d 0;
              if ret_code \<noteq> 0 then Some s
              else do {
                dev_type \<leftarrow> rd8 d 1;
                case type_lidars_cfg_map s dev_type of
                  None \<Rightarrow> Some s
                | Some cfg \<Rightarrow> add_lidar mk ia handle dev_type cfg s } } })"

definition OnData ::
  "(nat \<Rightarrow> int) \<Rightarrow> (nat \<Rightarrow> int) \<Rightarrow> (string \<Rightarrow> u32) \<Rightarrow> u32 \<Rightarrow> u16 \<Rightarrow> u8 list \<Rightarrow> int \<Rightarrow> dm_state \<Rightarrow> dm_state option" where
  "OnData env mk ia handle port buf received s =
     (let n = of_int received :: u32;
          data = \<lambda>dev_type s. Some (dm_emit (DataDatagram dev_type handle buf n) s) in
      if received \<le> 0 then Some s
      else if inet_ntoa handle = dm_host_ip s then Some s
      else let s = (if port = kMid360LidarDebugPointCloudPort \<or> port = kHAPDebugPointCloudPort
                    then dm_emit (DebugDatagram handle port buf n) s else s);
               s = (if port = kHAPLogPort \<or> port = kPaLidarLogPort \<or> port = kMid360LidarLogPort
                    then dm_emit (LogDatagram handle port buf n) s else s)
      in if dm_is_view s
      then case view_lidars_info (sdk s) handle of
          Some info \<Rightarrow> if port = view_lidar_point_port info \<or> port = view_lidar_imu_data_port info
            then data (view_dev_type info) s
            else on_general mk (Handler_typed env (view_dev_type info) handle port buf n) s
        | None \<Rightarrow> on_general mk (Handler env handle port buf n) s
      else case dm_custom_lidars_cfg_map s handle of
          Some cfg \<Rightarrow>
            let net = lidar_net_info cfg in
            if port = lidar_imu_port_cfg net \<or> port = lidar_point_port_cfg net then data (device_type cfg) s
            else if port = kDetectionPort \<or> port = lidar_cmd_data_port net \<or> port = lidar_push_msg_port net \<or>
              port = lidar_log_port_cfg net \<or> port = kPaLidarFaultPort
            then on_general mk (Handler_typed env (device_type cfg) handle port buf n) s
            else Some s
        | None \<Rightarrow> announced mk ia handle port buf n s)"

section \<open>Teardown\<close>

definition remove_delegates :: "dm_state \<Rightarrow> dm_state" where
  "remove_delegates s =
     RemoveDelegates DataLoop (data_channel s)
       (RemoveDelegates CommandLoop (command_channel s \<union> set (vec_broadcast_socket s))
         (RemoveDelegates DetectionLoop {detection_socket s, detection_broadcast_socket s} s))"

definition close_channels :: "dm_state \<Rightarrow> dm_state" where
  "close_channels s = (fold CloseSock (socket_vec s @ vec_broadcast_socket s) s)\<lparr>socket_vec := [], vec_broadcast_socket := []\<rparr>"

definition close_detection :: "dm_state \<Rightarrow> dm_state" where
  "close_detection s =
     (if detecting s
      then (CloseSock (detection_broadcast_socket s) (CloseSock (detection_socket s) s))
        \<lparr>detecting := False,
          detection_socket := (if detection_socket s > 0 then -1 else detection_socket s),
          detection_broadcast_socket := (if detection_broadcast_socket s > 0 then -1 else detection_broadcast_socket s)\<rparr>
      else s)"

definition forget_all :: "dm_state \<Rightarrow> dm_state" where
  "forget_all s = s\<lparr>lidars_cfg := [], custom_lidars_cfg := [],
     type_lidars_cfg_map := Map.empty, dm_custom_lidars_cfg_map := Map.empty, channel_info := Map.empty,
     custom_command_channel := Map.empty, command_channel := {}, data_channel := {}, dm_comm_port := False,
     dm_is_view := False, dm_host_ip := [],
     sdk := (sdk s)\<lparr>lidars_dev_type := Map.empty, view_devices := Map.empty, view_lidars_info := Map.empty\<rparr>\<rparr>"

definition DeviceManager_Destory :: "dm_state \<Rightarrow> dm_state" where
  "DeviceManager_Destory s = forget_all (close_detection (close_channels (remove_delegates s)))"

definition GetDeviceType :: "u32 \<Rightarrow> dm_state \<Rightarrow> u8" where
  "GetDeviceType handle s = (case lidars_dev_type (sdk s) handle of None \<Rightarrow> 0 | Some t \<Rightarrow> ucast t)"


text \<open>What happens to a running manager: datagrams, and the search of its own thread.\<close>

datatype dm_event = Datagram u32 u16 "u8 list" int | SearchTick

fun dm_step :: "(nat \<Rightarrow> int) \<Rightarrow> (nat \<Rightarrow> int) \<Rightarrow> (string \<Rightarrow> u32) \<Rightarrow> dm_event \<Rightarrow> dm_state \<Rightarrow> dm_state option" where
  "dm_step env mk ia (Datagram handle port buf received) s = OnData env mk ia handle port buf received s"
| "dm_step env mk ia SearchTick s = Detection s"

fun dm_run :: "(nat \<Rightarrow> int) \<Rightarrow> (nat \<Rightarrow> int) \<Rightarrow> (string \<Rightarrow> u32) \<Rightarrow> dm_event list \<Rightarrow> dm_state \<Rightarrow> dm_state option" where
  "dm_run env mk ia [] s = Some s"
| "dm_run env mk ia (e # es) s = do { s \<leftarrow> dm_step env mk ia e s; dm_run env mk ia es s }"

section \<open>Every socket is accounted for\<close>

text \<open>
  The operating system gives no descriptor twice and none that is zero, which is the standard input.
\<close>

definition fresh_sockets :: "(nat \<Rightarrow> int) \<Rightarrow> bool" where
  "fresh_sockets mk \<longleftrightarrow> (\<forall>m. mk m \<noteq> 0) \<and> (\<forall>m n. 0 < mk m \<longrightarrow> mk m = mk n \<longrightarrow> m = n)"

definition leads_to :: "(string \<rightharpoonup> int) \<Rightarrow> Socket list \<Rightarrow> bool" where
  "leads_to m socks \<longleftrightarrow> (\<forall>k x. m k = Some x \<longrightarrow> x \<in> fd ` set socks)"

lemma leads_to_more: "leads_to m socks \<Longrightarrow> leads_to m (socks @ new)"
  by (auto simp: leads_to_def)

lemma leads_to_upd: "leads_to m socks \<Longrightarrow> x \<in> fd ` set socks \<Longrightarrow> leads_to (m(k \<mapsto> x)) socks"
  by (auto simp: leads_to_def)

lemma leads_to_new: "leads_to m socks \<Longrightarrow> leads_to (m(k \<mapsto> fd sock)) (socks @ [sock])"
  by (intro leads_to_upd leads_to_more) simp_all

lemma leads_toD: "leads_to m socks \<Longrightarrow> m k = Some x \<Longrightarrow> x \<in> fd ` set socks"
  by (auto simp: leads_to_def)

definition dm_inv :: "(nat \<Rightarrow> int) \<Rightarrow> dm_state \<Rightarrow> bool" where
  "dm_inv mk s \<longleftrightarrow>
     mset (map fd (opened s)) = mset (detection_broadcast_socket s # detection_socket s # socket_vec s @ vec_broadcast_socket s) \<and>
     distinct (map fd (opened s)) \<and> (\<forall>x \<in> set (map fd (opened s)). 0 < x \<and> (\<exists>i < created s. mk i = x)) \<and> closed s = [] \<and>
     set (delegates s) = {DetectionLoop} \<times> {detection_socket s, detection_broadcast_socket s} \<union>
       {CommandLoop} \<times> (command_channel s \<union> set (vec_broadcast_socket s)) \<union>
       {DataLoop} \<times> (set (socket_vec s) - command_channel s) \<and>
     data_channel s \<subseteq> set (socket_vec s) - command_channel s \<and> command_channel s \<subseteq> set (socket_vec s) \<and>
     leads_to (channel_info s) (opened s) \<and> leads_to (custom_command_channel s) (opened s)"

definition keeps_dm :: "(nat \<Rightarrow> int) \<Rightarrow> (dm_state \<Rightarrow> bool \<times> dm_state) \<Rightarrow> bool" where
  "keeps_dm mk f \<longleftrightarrow> (\<forall>s. dm_inv mk s \<longrightarrow> dm_inv mk (snd (f s)))"

lemma keeps_all_steps: "(\<And>f. f \<in> set fs \<Longrightarrow> keeps_dm mk f) \<Longrightarrow> keeps_dm mk (all_steps fs)"
proof (induction fs)
  case (Cons f fs)
  then have "keeps_dm mk f" "keeps_dm mk (all_steps fs)" by simp_all
  show ?case unfolding keeps_dm_def
  proof (intro allI impI)
    fix s
    assume "dm_inv mk s"
    moreover obtain ok t where "f s = (ok, t)" by (cases "f s")
    ultimately have "dm_inv mk t" using \<open>keeps_dm mk f\<close> by (auto simp: keeps_dm_def dest!: spec [of _ s])
    then show "dm_inv mk (snd (all_steps (f # fs) s))"
      using \<open>f s = (ok, t)\<close> \<open>keeps_dm mk (all_steps fs)\<close> by (simp add: keeps_dm_def)
  qed
qed (simp add: keeps_dm_def)

text \<open>A new socket is positive and new.\<close>

lemma new_socket:
  assumes "fresh_sockets mk" "dm_inv mk s" "\<not> mk (created s) < 0"
  shows "0 < mk (created s)" "mk (created s) \<notin> set (map fd (opened s))"
proof -
  show "0 < mk (created s)" using assms(1,3) by (metis fresh_sockets_def linorder_neqE_linordered_idom)
  then show "mk (created s) \<notin> set (map fd (opened s))"
    using assms(1,2) by (metis (no_types, lifting) dm_inv_def fresh_sockets_def less_irrefl)
qed

lemma fds_split:
  assumes "dm_inv mk s"
  shows "fd ` set (opened s) =
     insert (detection_broadcast_socket s) (insert (detection_socket s) (set (socket_vec s) \<union> set (vec_broadcast_socket s)))"
proof -
  have "set_mset (mset (map fd (opened s))) =
      set_mset (mset (detection_broadcast_socket s # detection_socket s # socket_vec s @ vec_broadcast_socket s))"
    using assms by (simp only: dm_inv_def)
  then show ?thesis by simp
qed

lemma dm_inv_failed: "dm_inv mk s \<Longrightarrow> dm_inv mk (s\<lparr>created := created s + 1\<rparr>)"
  by (simp add: dm_inv_def less_Suc_eq) blast

text \<open>A socket for a channel, of one of two kinds.\<close>

lemma dm_inv_channel:
  assumes mk: "fresh_sockets mk" and inv: "dm_inv mk s" and pos: "\<not> mk (created s) < 0" and sock: "fd sock = mk (created s)"
  shows "dm_inv mk (s\<lparr>created := created s + 1, opened := opened s @ [sock], socket_vec := socket_vec s @ [fd sock],
      channel_info := (channel_info s)(k \<mapsto> fd sock), command_channel := insert (fd sock) (command_channel s),
      custom_command_channel := (custom_command_channel s)(k \<mapsto> fd sock), delegates := delegates s @ [(CommandLoop, fd sock)]\<rparr>)"
    and "D = data_channel s \<or> D = insert (fd sock) (data_channel s) \<Longrightarrow>
      dm_inv mk (s\<lparr>created := created s + 1, opened := opened s @ [sock], socket_vec := socket_vec s @ [fd sock],
      channel_info := (channel_info s)(k \<mapsto> fd sock), data_channel := D, delegates := delegates s @ [(DataLoop, fd sock)]\<rparr>)"
    and "dm_inv mk (s\<lparr>created := created s + 1, opened := opened s @ [sock],
      vec_broadcast_socket := vec_broadcast_socket s @ [fd sock], delegates := delegates s @ [(CommandLoop, fd sock)]\<rparr>)"
proof -
  have new: "0 < fd sock" "fd sock \<notin> fd ` set (opened s)" using new_socket [OF mk inv pos] sock by simp_all
  have olds: "fd sock \<notin> set (socket_vec s)" "fd sock \<notin> command_channel s" "fd sock \<notin> data_channel s"
    using new(2) inv unfolding fds_split [OF inv] by (auto simp: dm_inv_def)
  have "\<forall>x \<in> set (map fd (opened s @ [sock])). 0 < x \<and> (\<exists>i < created s + 1. mk i = x)"
    using inv new(1) sock less_Suc_eq by (fastforce simp: dm_inv_def)
  moreover have "distinct (map fd (opened s @ [sock]))" using inv new(2) by (auto simp: dm_inv_def)
  moreover have "leads_to (channel_info s) (opened s)" "leads_to (custom_command_channel s) (opened s)"
    "set (delegates s) = {DetectionLoop} \<times> {detection_socket s, detection_broadcast_socket s} \<union>
       {CommandLoop} \<times> (command_channel s \<union> set (vec_broadcast_socket s)) \<union>
       {DataLoop} \<times> (set (socket_vec s) - command_channel s)"
    "data_channel s \<subseteq> set (socket_vec s) - command_channel s" "command_channel s \<subseteq> set (socket_vec s)" "closed s = []"
    "mset (map fd (opened s)) = mset (detection_broadcast_socket s # detection_socket s # socket_vec s @ vec_broadcast_socket s)"
    using inv by (simp_all add: dm_inv_def)
  ultimately show "dm_inv mk (s\<lparr>created := created s + 1, opened := opened s @ [sock], socket_vec := socket_vec s @ [fd sock],
      channel_info := (channel_info s)(k \<mapsto> fd sock), command_channel := insert (fd sock) (command_channel s),
      custom_command_channel := (custom_command_channel s)(k \<mapsto> fd sock), delegates := delegates s @ [(CommandLoop, fd sock)]\<rparr>)"
    "D = data_channel s \<or> D = insert (fd sock) (data_channel s) \<Longrightarrow>
      dm_inv mk (s\<lparr>created := created s + 1, opened := opened s @ [sock], socket_vec := socket_vec s @ [fd sock],
      channel_info := (channel_info s)(k \<mapsto> fd sock), data_channel := D, delegates := delegates s @ [(DataLoop, fd sock)]\<rparr>)"
    "dm_inv mk (s\<lparr>created := created s + 1, opened := opened s @ [sock],
      vec_broadcast_socket := vec_broadcast_socket s @ [fd sock], delegates := delegates s @ [(CommandLoop, fd sock)]\<rparr>)"
    using olds unfolding dm_inv_def by (auto simp: leads_to_new leads_to_more)
qed


text \<open>Each of the ways to open a socket is one of these, or fails.\<close>

lemma dm_inv_command: "dm_inv mk s \<Longrightarrow> channel_info s k = Some x \<Longrightarrow>
    dm_inv mk (s\<lparr>custom_command_channel := (custom_command_channel s)(k \<mapsto> x)\<rparr>)"
  using leads_to_upd [OF _ leads_toD] by (auto simp: dm_inv_def)

lemma dm_inv_view:
  assumes "fresh_sockets mk" "dm_inv mk s" "\<not> mk (created s) < 0" "fd sock = mk (created s)"
  shows "dm_inv mk (s\<lparr>created := created s + 1, opened := opened s @ [sock], socket_vec := socket_vec s @ [fd sock],
      channel_info := (channel_info s)(k \<mapsto> fd sock), delegates := delegates s @ [(DataLoop, fd sock)]\<rparr>)"
  using dm_inv_channel(2) [OF assms, of "data_channel s" k] by simp

lemma keeps_cmd: "fresh_sockets mk \<Longrightarrow> keeps_dm mk (CreateCmdSocketAndAddDelegate mk host port)"
  unfolding keeps_dm_def CreateCmdSocketAndAddDelegate_def Let_def CreateSocket_def AddDelegate_def
  using dm_inv_channel(1) dm_inv_failed dm_inv_command by (auto split: option.splits)

lemma keeps_data: "fresh_sockets mk \<Longrightarrow> keeps_dm mk (CreateDataSocketAndAddDelegate mk host multicast port)"
  unfolding keeps_dm_def CreateDataSocketAndAddDelegate_def Let_def CreateSocket_def AddDelegate_def
  using dm_inv_channel(2) dm_inv_failed by (auto split: option.splits)

lemma keeps_broadcast: "fresh_sockets mk \<Longrightarrow> keeps_dm mk (push_broadcast_channel mk port)"
  unfolding keeps_dm_def push_broadcast_channel_def Let_def CreateSocket_def AddDelegate_def
  using dm_inv_channel(3) dm_inv_failed by auto

lemma keeps_view: "fresh_sockets mk \<Longrightarrow> keeps_dm mk (view_channel mk host port)"
  unfolding keeps_dm_def view_channel_def Let_def CreateSocket_def AddDelegate_def
  using dm_inv_view dm_inv_failed by (auto split: option.splits)

lemma keeps_view_channels: "fresh_sockets mk \<Longrightarrow> dm_inv mk s \<Longrightarrow> dm_inv mk (CreateViewDataChannel mk info s)"
  using keeps_all_steps [of "map (view_channel mk (view_host_ip info)) [view_host_point_port info, view_host_imu_data_port info]" mk]
    keeps_view [of mk]
  by (auto simp: CreateViewDataChannel_def keeps_dm_def)

lemma keeps_lidar_channels: "fresh_sockets mk \<Longrightarrow> keeps_dm mk (lidar_channels mk master cfg)"
proof -
  assume mk: "fresh_sockets mk"
  have "keeps_dm mk (CreateCommandChannel mk master dev_type h)" for dev_type h
  proof (unfold keeps_dm_def, intro allI impI)
    fix s
    assume "dm_inv mk s"
    have "keeps_dm mk (all_steps
     ((if master then [CreateCmdSocketAndAddDelegate mk (host_ip h) (cmd_data_port h)] else []) @
      [CreateCmdSocketAndAddDelegate mk (host_ip h) (push_msg_port h)] @
      (if dev_type = dev_type_code kLivoxLidarTypePA
       then [CreateCmdSocketAndAddDelegate mk (host_ip h) kPaHostFaultPort] else []) @
      (if dev_type = dev_type_code kLivoxLidarTypeMid360 then [push_broadcast_channel mk (push_msg_port h)] else []) @
      (if log_enable s then [CreateCmdSocketAndAddDelegate mk (host_ip h) (log_data_port h)] else [])))"
      by (rule keeps_all_steps) (auto simp: keeps_cmd [OF mk] keeps_broadcast [OF mk] split: if_splits)
    then show "dm_inv mk (snd (CreateCommandChannel mk master dev_type h s))"
      using \<open>dm_inv mk s\<close> by (simp only: keeps_dm_def CreateCommandChannel_def)
  qed
  then show "keeps_dm mk (lidar_channels mk master cfg)"
    unfolding lidar_channels_def CreateDataChannel_def
    by (intro keeps_all_steps) (auto intro!: keeps_all_steps keeps_data [OF mk])
qed

text \<open>Only the fields of the sockets matter.\<close>

lemma dm_inv_irrelevant:
  "dm_inv mk (s\<lparr>sdk := t\<rparr>) = dm_inv mk s" "dm_inv mk (s\<lparr>dm_out := os\<rparr>) = dm_inv mk s"
  "dm_inv mk (s\<lparr>detecting := d\<rparr>) = dm_inv mk s" "dm_inv mk (s\<lparr>custom_lidars_cfg := cs\<rparr>) = dm_inv mk s"
  "dm_inv mk (s\<lparr>type_lidars_cfg_map := ts\<rparr>) = dm_inv mk s" "dm_inv mk (s\<lparr>dm_custom_lidars_cfg_map := cm\<rparr>) = dm_inv mk s"
  by (simp_all add: dm_inv_def)

lemma keeps_on_general: "fresh_sockets mk \<Longrightarrow> dm_inv mk s \<Longrightarrow> on_general mk f s = Some s' \<Longrightarrow> dm_inv mk s'"
proof -
  assume mk: "fresh_sockets mk" and inv: "dm_inv mk s" and run: "on_general mk f s = Some s'"
  have "dm_inv mk (foldl (\<lambda>s info. CreateViewDataChannel mk info s) u infos)" if "dm_inv mk u" for u infos
    using that by (induction infos arbitrary: u) (auto simp: keeps_view_channels [OF mk])
  then show ?thesis using run inv by (auto simp: on_general_def on_sdk_def dm_inv_irrelevant)
qed

lemma keeps_add_lidar: "fresh_sockets mk \<Longrightarrow> dm_inv mk s \<Longrightarrow> add_lidar mk ia handle dev_type cfg s = Some s' \<Longrightarrow> dm_inv mk s'"
proof -
  assume mk: "fresh_sockets mk" and inv: "dm_inv mk s" and run: "add_lidar mk ia handle dev_type cfg s = Some s'"
  have "keeps_dm mk (all_steps (map (lidar_channels mk master) cfgs))" for master cfgs
    by (rule keeps_all_steps) (auto simp: keeps_lidar_channels [OF mk])
  then show ?thesis using run inv
    by (auto simp: add_lidar_def on_sdk_def Let_def bind_eq_Some_conv keeps_dm_def dm_inv_irrelevant simp del: map_append)
qed

lemma announced_add: "announced mk ia handle port buf n s = Some s' \<Longrightarrow>
    s' = s \<or> (\<exists>dev_type cfg. add_lidar mk ia handle dev_type cfg s = Some s')"
  by (auto simp: announced_def split: if_split_asm option.split_asm Option.bind_split_asm)

lemma keeps_announced: "fresh_sockets mk \<Longrightarrow> dm_inv mk s \<Longrightarrow> announced mk ia handle port buf n s = Some s' \<Longrightarrow> dm_inv mk s'"
  using keeps_add_lidar by (auto dest!: announced_add)

lemma keeps_OnData: "fresh_sockets mk \<Longrightarrow> dm_inv mk s \<Longrightarrow> OnData env mk ia handle port buf received s = Some s' \<Longrightarrow> dm_inv mk s'"
  unfolding OnData_def Let_def
  by (auto simp: dm_emit_def dm_inv_irrelevant split: if_splits option.splits
    dest!: keeps_on_general [rotated 2] keeps_announced [rotated 2])

text \<open>Nothing but the teardown ends the detection.\<close>

lemma detecting_steps:
  assumes "\<And>f s. f \<in> set fs \<Longrightarrow> detecting (snd (f s)) = detecting s"
  shows "detecting (snd (all_steps fs s)) = detecting s"
  using assms
proof (induction fs arbitrary: s)
  case (Cons f fs)
  obtain ok t where "f s = (ok, t)" by (cases "f s")
  moreover have "detecting (snd (f s)) = detecting s" by (rule Cons.prems) simp
  moreover have "detecting (snd (all_steps fs t)) = detecting t" by (rule Cons.IH) (simp add: Cons.prems)
  ultimately show ?case by simp
qed simp

lemma detecting_sockets [simp]:
  "detecting (snd (CreateCmdSocketAndAddDelegate mk host port s)) = detecting s"
  "detecting (snd (CreateDataSocketAndAddDelegate mk host multicast port s)) = detecting s"
  "detecting (snd (push_broadcast_channel mk port s)) = detecting s"
  "detecting (snd (view_channel mk host port s)) = detecting s"
  by (auto simp: CreateCmdSocketAndAddDelegate_def CreateDataSocketAndAddDelegate_def push_broadcast_channel_def
      view_channel_def CreateSocket_def AddDelegate_def Let_def split: option.split)

lemma detecting_channel [simp]:
  "detecting (snd (CreateDataChannel mk h s)) = detecting s"
  "detecting (snd (CreateCommandChannel mk master dev_type h s)) = detecting s"
  "detecting (CreateViewDataChannel mk info s) = detecting s"
  unfolding CreateDataChannel_def CreateCommandChannel_def CreateViewDataChannel_def
  by (rule detecting_steps; auto split: if_splits)+

lemma detecting_channels [simp]: "detecting (snd (lidar_channels mk master cfg s)) = detecting s"
  unfolding lidar_channels_def by (rule detecting_steps) auto

lemma detecting_general: "on_general mk f s = Some s' \<Longrightarrow> detecting s' = detecting s"
proof -
  have "detecting (foldl (\<lambda>s info. CreateViewDataChannel mk info s) u infos) = detecting u" for u infos
    by (induction infos arbitrary: u) simp_all
  then show "on_general mk f s = Some s' \<Longrightarrow> detecting s' = detecting s"
    by (auto simp: on_general_def on_sdk_def)
qed

lemma detecting_add: "add_lidar mk ia handle dev_type cfg s = Some s' \<Longrightarrow> detecting s' = detecting s"
proof -
  have "detecting (snd (all_steps (map (lidar_channels mk master) cfgs) u)) = detecting u" for master cfgs u
    by (rule detecting_steps) auto
  then show "add_lidar mk ia handle dev_type cfg s = Some s' \<Longrightarrow> detecting s' = detecting s"
    by (auto simp: add_lidar_def on_sdk_def Let_def bind_eq_Some_conv simp del: map_append)
qed

lemma detecting_OnData: "OnData env mk ia handle port buf received s = Some s' \<Longrightarrow> detecting s' = detecting s"
  unfolding OnData_def Let_def
  by (auto simp: dm_emit_def split: if_splits option.splits dest!: detecting_general announced_add detecting_add)

lemma running_step:
  assumes "fresh_sockets mk" "dm_inv mk s \<and> detecting s" "dm_step env mk ia e s = Some s'"
  shows "dm_inv mk s' \<and> detecting s'"
proof (cases e)
  case (Datagram handle port buf received)
  with assms show ?thesis using keeps_OnData detecting_OnData by fastforce
next
  case SearchTick
  with assms show ?thesis by (auto simp: Detection_def Let_def bind_eq_Some_conv dm_emit_def dm_inv_irrelevant)
qed

lemma running_run:
  "fresh_sockets mk \<Longrightarrow> dm_inv mk s \<and> detecting s \<Longrightarrow> dm_run env mk ia es s = Some s' \<Longrightarrow> dm_inv mk s' \<and> detecting s'"
proof (induction es arbitrary: s)
  case (Cons e es)
  from Cons.prems(3) obtain t where t: "dm_step env mk ia e s = Some t" "dm_run env mk ia es t = Some s'"
    by (auto simp: bind_eq_Some_conv)
  then show ?case using Cons.IH running_step [OF Cons.prems(1,2)] Cons.prems(1) by blast
qed simp

text \<open>After a successful initialisation.\<close>

lemma detection_channel_inv:
  assumes mk: "fresh_sockets mk" and run: "CreateDetectionChannel mk s = (True, s')"
    and new: "created s = 0" "opened s = []" "closed s = []" "socket_vec s = []" "vec_broadcast_socket s = []" "delegates s = []"
      "channel_info s = Map.empty" "custom_command_channel s = Map.empty" "command_channel s = {}" "data_channel s = {}"
  shows "dm_inv mk s'"
proof -
  have pos: "0 < mk 0" "0 < mk 1" using mk run new(1)
    by (auto simp: CreateDetectionChannel_def CreateSocket_def AddDelegate_def Let_def fresh_sockets_def not_less le_less
      split: if_splits)
  then have "mk 0 \<noteq> mk 1" using mk by (auto simp: fresh_sockets_def)
  have two: "(\<exists>i. (i = 0 \<or> i = Suc 0) \<and> mk i = x) \<longleftrightarrow> mk 0 = x \<or> mk (Suc 0) = x" for x by blast
  with \<open>mk 0 \<noteq> mk 1\<close> show ?thesis using run pos new
    by (auto simp: two CreateDetectionChannel_def CreateSocket_def AddDelegate_def Let_def dm_inv_def leads_to_def less_Suc_eq
      split: if_splits)
qed

lemma init_inv:
  assumes mk: "fresh_sockets mk"
    and run: "DeviceManager_Init b mk ia lidars customs has_log_cfg master (new_DeviceManager t log) = (True, s) \<or>
      DeviceManager_Init_view b mk host has_log_cfg (new_DeviceManager t log) = (True, s)"
  shows "dm_inv mk s \<and> detecting s"
proof -
  have "keeps_dm mk (all_steps (map (lidar_channels mk master) cfgs))" for cfgs
    by (rule keeps_all_steps) (auto simp: keeps_lidar_channels [OF mk])
  then have steps: "all_steps (map (lidar_channels mk master) cfgs) u = (ok, v) \<Longrightarrow> dm_inv mk u \<Longrightarrow> dm_inv mk v" for cfgs u ok v
    by (metis keeps_dm_def snd_conv)
  from run show ?thesis
  proof
    assume "DeviceManager_Init b mk ia lidars customs has_log_cfg master (new_DeviceManager t log) = (True, s)"
    then show ?thesis
      by (auto simp: DeviceManager_Init_def Let_def CreateChannel_def GetLidarConfigMap_def new_DeviceManager_def dm_inv_irrelevant
        split: list.splits if_splits prod.splits dest!: detection_channel_inv [OF mk] steps)
  next
    assume "DeviceManager_Init_view b mk host has_log_cfg (new_DeviceManager t log) = (True, s)"
    then show ?thesis
      by (auto simp: DeviceManager_Init_view_def Let_def new_DeviceManager_def dm_inv_irrelevant
        split: if_splits prod.splits dest!: detection_channel_inv [OF mk])
  qed
qed

text \<open>The teardown of a state with the invariant.\<close>

lemma fold_CloseSock: "\<forall>x \<in> set xs. 0 < x \<Longrightarrow> fold CloseSock xs s = s\<lparr>closed := closed s @ xs\<rparr>"
  by (induction xs arbitrary: s) (simp_all add: CloseSock_def)

lemma destroyed:
  assumes inv: "dm_inv mk s" and run: "detecting s"
  shows "closed (DeviceManager_Destory s) =
      socket_vec s @ vec_broadcast_socket s @ [detection_socket s, detection_broadcast_socket s]"
    and "set (delegates (DeviceManager_Destory s)) = {DataLoop} \<times> (set (socket_vec s) - command_channel s - data_channel s)"
proof -
  have pos: "0 < detection_socket s" "0 < detection_broadcast_socket s"
    "\<forall>x \<in> set (socket_vec s @ vec_broadcast_socket s). 0 < x"
    using inv fds_split [OF inv] by (auto simp: dm_inv_def)
  let ?ds = "delegates (remove_delegates s)"
  have ds: "remove_delegates s = s\<lparr>delegates := ?ds\<rparr>"
    "set ?ds = {d \<in> set (delegates s).
      \<not> (fst d = DetectionLoop \<and> 0 < snd d \<and> snd d \<in> {detection_socket s, detection_broadcast_socket s}) \<and>
      \<not> (fst d = CommandLoop \<and> 0 < snd d \<and> snd d \<in> command_channel s \<union> set (vec_broadcast_socket s)) \<and>
      \<not> (fst d = DataLoop \<and> 0 < snd d \<and> snd d \<in> data_channel s)}"
    by (auto simp: remove_delegates_def RemoveDelegates_def)
  show "closed (DeviceManager_Destory s) =
      socket_vec s @ vec_broadcast_socket s @ [detection_socket s, detection_broadcast_socket s]"
    using inv run pos unfolding DeviceManager_Destory_def
    by (subst ds(1), simp add: close_channels_def fold_CloseSock close_detection_def forget_all_def CloseSock_def dm_inv_def)
  have "delegates (DeviceManager_Destory s) = ?ds"
    using run pos unfolding DeviceManager_Destory_def
    by (subst ds(1), simp add: close_channels_def fold_CloseSock close_detection_def forget_all_def CloseSock_def)
  then have left: "set (delegates (DeviceManager_Destory s)) = set ?ds" by simp
  have chans: "\<forall>x \<in> command_channel s. 0 < x" "\<forall>x \<in> data_channel s. 0 < x" using inv pos(3) by (auto simp: dm_inv_def)
  have all: "set (delegates s) = {DetectionLoop} \<times> {detection_socket s, detection_broadcast_socket s} \<union>
       {CommandLoop} \<times> (command_channel s \<union> set (vec_broadcast_socket s)) \<union>
       {DataLoop} \<times> (set (socket_vec s) - command_channel s)"
    using inv unfolding dm_inv_def by (elim conjE)
  show "set (delegates (DeviceManager_Destory s)) =
      {DataLoop} \<times> (set (socket_vec s) - command_channel s - data_channel s)"
  proof (rule set_eqI)
    fix d :: "io_loop \<times> int"
    obtain l x where d: "d = (l, x)" by (cases d)
    show "(d \<in> set (delegates (DeviceManager_Destory s))) =
        (d \<in> {DataLoop} \<times> (set (socket_vec s) - command_channel s - data_channel s))"
      unfolding left ds(2) all d using pos chans by (cases l) auto
  qed
qed

section \<open>What a lidar that announces itself opens\<close>

text \<open>What no socket operation touches.\<close>

definition routing where
  "routing s = (sdk s, dm_is_view s, dm_host_ip s, dm_custom_lidars_cfg_map s, custom_lidars_cfg s, dm_out s)"

text \<open>A step that succeeds, opens \<open>k\<close> broadcast sockets and leaves the routing.\<close>

definition opens :: "nat \<Rightarrow> (dm_state \<Rightarrow> bool \<times> dm_state) \<Rightarrow> bool" where
  "opens k f \<longleftrightarrow> (\<forall>s. fst (f s) \<and> length (vec_broadcast_socket (snd (f s))) = length (vec_broadcast_socket s) + k \<and>
     routing (snd (f s)) = routing s)"

lemma opens_Nil: "opens 0 (all_steps [])"
  by (simp add: opens_def)

lemma opens_Cons: "opens k f \<Longrightarrow> opens j (all_steps fs) \<Longrightarrow> opens (k + j) (all_steps (f # fs))"
proof -
  assume f: "opens k f" and fs: "opens j (all_steps fs)"
  show "opens (k + j) (all_steps (f # fs))"
    unfolding opens_def
  proof
    fix s
    obtain ok t where t: "f s = (ok, t)" by (cases "f s")
    have "ok \<and> length (vec_broadcast_socket t) = length (vec_broadcast_socket s) + k \<and> routing t = routing s"
      using f [unfolded opens_def, rule_format, of s] by (simp add: t)
    then show "fst (all_steps (f # fs) s) \<and>
        length (vec_broadcast_socket (snd (all_steps (f # fs) s))) = length (vec_broadcast_socket s) + (k + j) \<and>
        routing (snd (all_steps (f # fs) s)) = routing s"
      using fs [unfolded opens_def, rule_format, of t] by (simp add: t)
  qed
qed

lemma opens_none: "(\<And>f. f \<in> set fs \<Longrightarrow> opens 0 f) \<Longrightarrow> opens j (all_steps gs) \<Longrightarrow> opens j (all_steps (fs @ gs))"
proof (induction fs)
  case (Cons f fs)
  then show ?case using opens_Cons [of 0 f j "fs @ gs"] by (simp del: all_steps.simps)
qed simp

lemma opens_sockets:
  assumes "\<forall>n. 0 < mk n"
  shows "opens 0 (CreateCmdSocketAndAddDelegate mk host port)" "opens 0 (CreateDataSocketAndAddDelegate mk host multicast port)"
    "opens 1 (push_broadcast_channel mk port)"
proof -
  have "\<not> mk n < 0" for n using assms by (simp add: not_less less_imp_le)
  then show "opens 0 (CreateCmdSocketAndAddDelegate mk host port)" "opens 0 (CreateDataSocketAndAddDelegate mk host multicast port)"
    "opens 1 (push_broadcast_channel mk port)"
  by (auto simp: opens_def CreateCmdSocketAndAddDelegate_def CreateDataSocketAndAddDelegate_def push_broadcast_channel_def
      CreateSocket_def AddDelegate_def Let_def routing_def split: option.split)
qed

definition mid360 :: "LivoxLidarCfg \<Rightarrow> bool" where
  "mid360 cfg \<longleftrightarrow> device_type cfg = dev_type_code kLivoxLidarTypeMid360"

lemma opens_lidar: "\<forall>n. 0 < mk n \<Longrightarrow> opens (of_bool (mid360 cfg)) (lidar_channels mk master cfg)"
proof -
  assume mk: "\<forall>n. 0 < mk n"
  have "opens 0 (CreateDataChannel mk h)" for h
    using opens_none [OF _ opens_Nil, of "map (CreateDataSocketAndAddDelegate mk (host_ip h) (multicast_ip h))
      [point_data_port h, imu_data_port h, kHostDebugPointCloudPort]"] opens_sockets(2) [OF mk]
    unfolding CreateDataChannel_def append_Nil2 by fastforce
  moreover have "opens (of_bool (mid360 cfg)) (CreateCommandChannel mk master (device_type cfg) h)" for h
  proof -
    have "opens (of_bool (mid360 cfg)) (all_steps
     ((if master then [CreateCmdSocketAndAddDelegate mk (host_ip h) (cmd_data_port h)] else []) @
      [CreateCmdSocketAndAddDelegate mk (host_ip h) (push_msg_port h)] @
      (if device_type cfg = dev_type_code kLivoxLidarTypePA
       then [CreateCmdSocketAndAddDelegate mk (host_ip h) kPaHostFaultPort] else []) @
      (if device_type cfg = dev_type_code kLivoxLidarTypeMid360 then [push_broadcast_channel mk (push_msg_port h)] else []) @
      (if l then [CreateCmdSocketAndAddDelegate mk (host_ip h) (log_data_port h)] else [])))" for l
    proof -
      have logs: "opens 0 (all_steps (if l then [CreateCmdSocketAndAddDelegate mk (host_ip h) (log_data_port h)] else []))"
        using opens_none [OF _ opens_Nil, of "[CreateCmdSocketAndAddDelegate mk (host_ip h) (log_data_port h)]"]
          opens_sockets(1) [OF mk] opens_Nil by auto
      have rest: "opens (of_bool (mid360 cfg)) (all_steps
        ((if device_type cfg = dev_type_code kLivoxLidarTypeMid360 then [push_broadcast_channel mk (push_msg_port h)] else []) @
         (if l then [CreateCmdSocketAndAddDelegate mk (host_ip h) (log_data_port h)] else [])))"
        using opens_Cons [OF opens_sockets(3) [OF mk] logs] logs
        by (cases l; cases "mid360 cfg"; simp add: mid360_def del: all_steps.simps)
      show ?thesis
        by (rule opens_none [OF _ opens_none [OF _ opens_none [OF _ rest]]])
          (auto simp: opens_sockets(1) [OF mk] split: if_splits)
    qed
    then show ?thesis by (simp add: opens_def CreateCommandChannel_def)
  qed
  ultimately have "opens (0 + (of_bool (mid360 cfg) + 0)) (lidar_channels mk master cfg)"
    unfolding lidar_channels_def by (intro opens_Cons opens_Nil)
  then show ?thesis by simp
qed

lemma opens_lidars: "\<forall>n. 0 < mk n \<Longrightarrow> opens (length (filter mid360 cfgs)) (all_steps (map (lidar_channels mk master) cfgs))"
proof (induction cfgs)
  case (Cons cfg cfgs)
  then show ?case using opens_Cons [OF opens_lidar [OF Cons.prems] Cons.IH [OF Cons.prems], of cfg master]
    by (cases "mid360 cfg") (simp_all del: all_steps.simps)
qed (simp add: opens_Nil)

text \<open>Whether the sockets can be opened or not, the routing stays.\<close>

lemma all_steps_routing:
  "(\<And>f u. f \<in> set fs \<Longrightarrow> routing (snd (f u)) = routing u) \<Longrightarrow> routing (snd (all_steps fs s)) = routing s"
proof (induction fs arbitrary: s)
  case (Cons f fs)
  obtain ok t where t: "f s = (ok, t)" by (cases "f s")
  have "routing t = routing s" using Cons.prems [of f s] t by simp
  then show ?case using Cons.IH [of t] Cons.prems t by simp
qed simp

lemma socket_routing:
  "routing (snd (CreateCmdSocketAndAddDelegate mk host port s)) = routing s"
  "routing (snd (CreateDataSocketAndAddDelegate mk host multicast port s)) = routing s"
  "routing (snd (push_broadcast_channel mk port s)) = routing s"
  "routing (snd (view_channel mk host port s)) = routing s"
  by (auto simp: CreateCmdSocketAndAddDelegate_def CreateDataSocketAndAddDelegate_def push_broadcast_channel_def
      view_channel_def CreateSocket_def AddDelegate_def Let_def routing_def split: option.split)

lemma channels_routing:
  "routing (snd (all_steps (map (lidar_channels mk master) cfgs) s)) = routing s"
  "routing (CreateViewDataChannel mk info s) = routing s"
  by (auto simp: lidar_channels_def CreateDataChannel_def CreateCommandChannel_def CreateViewDataChannel_def
      socket_routing simp del: all_steps.simps list.map(2) intro!: all_steps_routing split: if_splits)

lemma view_channels_routing: "routing (foldl (\<lambda>s info. CreateViewDataChannel mk info s) s infos) = routing s"
  by (induction infos arbitrary: s) (simp_all add: channels_routing)

text \<open>Once a lidar is known, no datagram and no search changes how its datagrams are routed.\<close>

definition knows :: "u32 \<Rightarrow> LivoxLidarCfg \<Rightarrow> string \<Rightarrow> dm_state \<Rightarrow> bool" where
  "knows handle cfg host s \<longleftrightarrow> \<not> dm_is_view s \<and> dm_host_ip s = host \<and> dm_custom_lidars_cfg_map s handle = Some cfg"

lemma knows_routing: "routing t = routing s \<Longrightarrow> knows handle cfg host t = knows handle cfg host s"
  by (simp add: routing_def knows_def)

lemma knows_emit [simp]: "knows handle cfg host (dm_emit e s) = knows handle cfg host s"
  by (simp add: dm_emit_def knows_def)

lemma knows_general:
  assumes "on_general mk f s = Some s'"
  shows "knows handle cfg host s' = knows handle cfg host s"
proof -
  obtain t infos where "s' = foldl (\<lambda>s info. CreateViewDataChannel mk info s) (s\<lparr>sdk := t\<rparr>) infos"
    using assms by (auto simp: on_general_def on_sdk_def)
  then have "knows handle cfg host s' = knows handle cfg host (s\<lparr>sdk := t\<rparr>)"
    by (simp add: knows_routing [OF view_channels_routing])
  then show ?thesis by (simp add: knows_def)
qed

lemma knows_add:
  assumes "add_lidar mk ia h dev_type c s = Some s'" "knows handle cfg host s" "h \<noteq> handle"
  shows "knows handle cfg host s'"
proof -
  let ?c = "c\<lparr>lidar_net_info := (lidar_net_info c)\<lparr>lidar_ipaddr := inet_ntoa h\<rparr>\<rparr>"
  obtain t where "routing s' = routing (s\<lparr>type_lidars_cfg_map := (type_lidars_cfg_map s)(dev_type \<mapsto> ?c),
      dm_custom_lidars_cfg_map := (dm_custom_lidars_cfg_map s)(h \<mapsto> ?c),
      custom_lidars_cfg := custom_lidars_cfg s @ [?c], sdk := t\<rparr>)"
    using assms(1) by (auto simp: add_lidar_def on_sdk_def Let_def bind_eq_Some_conv channels_routing(1) simp del: map_append)
  then show ?thesis using assms(2,3) by (simp add: routing_def knows_def)
qed

lemma announced_cases:
  assumes "announced mk ia h port buf n s = Some s'"
  obtains "s' = s" | dev_type c where "add_lidar mk ia h dev_type c s = Some s'"
proof -
  let ?X = "{None, Some s} \<union> {add_lidar mk ia h dev_type c s |dev_type c. True}"
  have "announced mk ia h port buf n s \<in> ?X"
    unfolding announced_def by (intro bind_mem if_mem case_mem) auto
  then show thesis using assms that by auto
qed

lemma knows_step:
  assumes "dm_step env mk ia e s = Some s'" "knows handle cfg host s"
  shows "knows handle cfg host s'"
proof (cases e)
  case (Datagram h port buf received)
  let ?n = "of_int received :: u32"
  let ?s1 = "if port = kMid360LidarDebugPointCloudPort \<or> port = kHAPDebugPointCloudPort
    then dm_emit (DebugDatagram h port buf ?n) s else s"
  let ?s2 = "if port = kHAPLogPort \<or> port = kPaLidarLogPort \<or> port = kMid360LidarLogPort
    then dm_emit (LogDatagram h port buf ?n) ?s1 else ?s1"
  obtain u where u: "u = ?s2" "knows handle cfg host u" using assms(2) by simp
  have view: "\<not> dm_is_view u" using u(2) by (simp add: knows_def)
  let ?X = "{None, Some s, Some u} \<union> range (\<lambda>e. Some (dm_emit e u)) \<union> range (\<lambda>f. on_general mk f u)"
  show ?thesis
  proof (cases "dm_custom_lidars_cfg_map u h")
    case None
    then have "h \<noteq> handle" using u(2) by (auto simp: knows_def)
    then have "announced mk ia h port buf ?n u = Some s' \<Longrightarrow> knows handle cfg host s'"
      by (erule_tac announced_cases) (use u(2) knows_add in auto)
    moreover have "OnData env mk ia h port buf received s \<in> {Some s, announced mk ia h port buf ?n u}"
      unfolding OnData_def Let_def u(1) [symmetric] using view None by simp
    ultimately show ?thesis using assms unfolding Datagram dm_step.simps by auto
  next
    case (Some c)
    have "OnData env mk ia h port buf received s \<in> ?X"
      unfolding OnData_def Let_def u(1) [symmetric] Some option.case if_not_P [OF view] by (intro if_mem) auto
    then show ?thesis using assms u(2) knows_general unfolding Datagram dm_step.simps by auto
  qed
next
  case SearchTick
  then show ?thesis using assms by (auto simp: Detection_def Let_def bind_eq_Some_conv dm_emit_def knows_def)
qed

lemma knows_run: "dm_run env mk ia es s = Some s' \<Longrightarrow> knows handle cfg host s \<Longrightarrow> knows handle cfg host s'"
  by (induction es arbitrary: s) (auto simp: bind_eq_Some_conv dest: knows_step)

lemma knows_data:
  assumes "knows handle cfg host s" "inet_ntoa handle \<noteq> host" "received > 0"
    and "port \<in> {lidar_point_port_cfg (lidar_net_info cfg), lidar_imu_port_cfg (lidar_net_info cfg)}"
  shows "\<exists>t xs. OnData env mk ia handle port buf received s = Some t \<and>
    dm_out t = dm_out s @ xs @ [DataDatagram (device_type cfg) handle buf (of_int received)] \<and>
    (port \<notin> {kMid360LidarDebugPointCloudPort, kHAPDebugPointCloudPort, kHAPLogPort, kPaLidarLogPort, kMid360LidarLogPort} \<longrightarrow>
      xs = [])"
proof -
  let ?n = "of_int received :: u32"
  let ?s1 = "if port = kMid360LidarDebugPointCloudPort \<or> port = kHAPDebugPointCloudPort
    then dm_emit (DebugDatagram handle port buf ?n) s else s"
  let ?s2 = "if port = kHAPLogPort \<or> port = kPaLidarLogPort \<or> port = kMid360LidarLogPort
    then dm_emit (LogDatagram handle port buf ?n) ?s1 else ?s1"
  obtain u where u: "u = ?s2" "knows handle cfg host u" using assms(1) by simp
  have out: "\<exists>xs. dm_out u = dm_out s @ xs \<and> (port \<notin> {kMid360LidarDebugPointCloudPort, kHAPDebugPointCloudPort,
      kHAPLogPort, kPaLidarLogPort, kMid360LidarLogPort} \<longrightarrow> xs = [])"
    unfolding u(1) by (simp add: dm_emit_def)
  have "dm_custom_lidars_cfg_map u handle = Some cfg" "\<not> dm_is_view u" "dm_host_ip s = host"
    using u(2) assms(1) by (simp_all add: knows_def)
  then have "OnData env mk ia handle port buf received s = Some (dm_emit (DataDatagram (device_type cfg) handle buf ?n) u)"
    using assms(2-4) unfolding OnData_def Let_def u(1) [symmetric] by auto
  with out show ?thesis by (auto simp: dm_emit_def)
qed

section \<open>Properties\<close>

definition example_cfg :: LivoxLidarCfg where
  "example_cfg = \<lparr>device_type = dev_type_code kLivoxLidarTypeMid360,
     lidar_net_info = \<lparr>lidar_ipaddr = ''192.168.1.3'', lidar_subnet_mask = [], lidar_gateway = [], lidar_cmd_data_port = 56100, lidar_push_msg_port = 56200,
       lidar_point_port_cfg = 56300, lidar_imu_port_cfg = 56400, lidar_log_port_cfg = 56500\<rparr>,
     host_net_info = \<lparr>host_ip = ''192.168.1.5'', multicast_ip = [], cmd_data_port = 56101, push_msg_port = 56201,
       point_data_port = 56301, imu_data_port = 56401, log_data_port = 56501\<rparr>\<rparr>"

lemma accounted:
  assumes "fresh_sockets mk"
    and "DeviceManager_Init b mk ia lidars customs has_log_cfg master (new_DeviceManager t log) = (True, s0) \<or>
      DeviceManager_Init_view b mk host has_log_cfg (new_DeviceManager t log) = (True, s0)"
    and "dm_run env mk ia es s0 = Some s"
  shows "mset (closed (DeviceManager_Destory s)) = mset (map fd (opened s))"
    and "distinct (closed (DeviceManager_Destory s))"
    and "set (delegates (DeviceManager_Destory s)) = {DataLoop} \<times> (set (socket_vec s) - command_channel s - data_channel s)"
    and "command_socket handle s \<in> fd ` set (opened s) \<and> logger_socket handle s \<in> fd ` set (opened s)"
proof -
  have "dm_inv mk s0 \<and> detecting s0" using assms(1,2) by (rule init_inv)
  then have s: "dm_inv mk s" "detecting s" using running_run [OF assms(1) _ assms(3)] by simp_all
  then show all: "mset (closed (DeviceManager_Destory s)) = mset (map fd (opened s))"
    unfolding destroyed(1) [OF s] by (simp add: dm_inv_def)
  show "distinct (closed (DeviceManager_Destory s))"
    using mset_eq_imp_distinct_iff [OF all] s(1) by (simp add: dm_inv_def)
  show "set (delegates (DeviceManager_Destory s)) = {DataLoop} \<times> (set (socket_vec s) - command_channel s - data_channel s)"
    using s by (rule destroyed(2))
  have "leads_to (custom_command_channel s) (opened s)" using s(1) by (simp add: dm_inv_def)
  then show "command_socket handle s \<in> fd ` set (opened s) \<and> logger_socket handle s \<in> fd ` set (opened s)"
    using fds_split [OF s(1)]
    by (auto simp: command_socket_def logger_socket_def GetCmdChannel_def GetLoggerCmdChannel_def bind_eq_Some_conv
      dest: leads_toD split: option.split)
qed

text \<open>
  C39. No socket is lost and none is closed twice: after a successful initialisation, from a
  configuration or for a viewer, and any number of datagrams and searches, the teardown closes
  exactly the sockets that were opened, each once; what stays registered with an event loop are
  the data sockets of a viewer, which are closed all the same; and while the manager runs every
  command leaves through an open socket.
\<close>
theorem sockets_accounted:
  assumes "fresh_sockets mk"
    and "DeviceManager_Init b mk ia lidars customs has_log_cfg master (new_DeviceManager t log) = (True, s0) \<or>
      DeviceManager_Init_view b mk host has_log_cfg (new_DeviceManager t log) = (True, s0)"
    and "dm_run env mk ia es s0 = Some s"
  shows "mset (closed (DeviceManager_Destory s)) = mset (map fd (opened s)) \<and> distinct (closed (DeviceManager_Destory s)) \<and>
    set (delegates (DeviceManager_Destory s)) = {DataLoop} \<times> (set (socket_vec s) - command_channel s - data_channel s) \<and>
    {command_socket handle s, logger_socket handle s} \<subseteq> fd ` set (opened s)"
  using accounted [OF assms] by simp

text \<open>With sockets to be had, initialisation succeeds for every configuration.\<close>

lemma init_starts:
  assumes mk: "\<forall>n. 0 < mk n" and b: "store_path_ok b" "logger_init_ok b" "io_threads_ok b"
  shows "\<exists>s0. DeviceManager_Init b mk ia lidars (cfg # cfgs) True master (new_DeviceManager t log) = (True, s0) \<and>
     \<not> dm_is_view s0 \<and> dm_host_ip s0 = host_ip (host_net_info (hd (lidars @ cfg # cfgs))) \<and>
     dm_custom_lidars_cfg_map s0 = foldl (\<lambda>m cfg. m(ia (lidar_ipaddr (lidar_net_info cfg)) \<mapsto> cfg)) Map.empty (cfg # cfgs)"
proof -
  have detection: "opens 0 (CreateDetectionChannel mk)"
    using mk by (auto simp: opens_def CreateDetectionChannel_def CreateSocket_def AddDelegate_def Let_def routing_def)
      (meson not_less_iff_gr_or_eq)+
  have steps: "opens (0 + length (filter mid360 cs)) (all_steps (CreateDetectionChannel mk # map (lidar_channels mk master) cs))" for cs
    by (rule opens_Cons [OF detection opens_lidars [OF mk]])
  define c where "c s = snd (CreateChannel mk master s)" for s
  have c: "CreateChannel mk master s = (True, c s)" "routing (c s) = routing s" for s
    using steps [of "custom_lidars_cfg s"] unfolding CreateChannel_def opens_def c_def by (simp_all add: prod_eq_iff)
  then have "dm_is_view (c s) = dm_is_view s" "dm_host_ip (c s) = dm_host_ip s"
    "dm_custom_lidars_cfg_map (c s) = dm_custom_lidars_cfg_map s" for s
    by (simp_all add: routing_def)
  moreover obtain h hs where "lidars @ cfg # cfgs = h # hs" by (cases lidars) simp_all
  ultimately show ?thesis
    by (simp add: DeviceManager_Init_def Let_def b GetLidarConfigMap_def new_DeviceManager_def c(1))
qed

definition example_boot :: boot where
  "example_boot = \<lparr>store_path_ok = True, logger_init_ok = True, io_threads_ok = True\<rparr>"

theorem sockets_accounted_witness:
  "\<exists>s0 s. DeviceManager_Init example_boot (\<lambda>n. int n + 3) (\<lambda>_. 0x0301A8C0) [] [example_cfg] True True
      (new_DeviceManager initial_state False) = (True, s0) \<and>
    dm_run (\<lambda>_. 0) (\<lambda>n. int n + 3) (\<lambda>_. 0x0301A8C0) [Datagram 0x0301A8C0 56300 (replicate 8192 0) 40] s0 = Some s \<and>
    dm_out s = dm_out s0 @ [DataDatagram 9 0x0301A8C0 (replicate 8192 0) 40] \<and>
    mset (closed (DeviceManager_Destory s)) = mset (map fd (opened s))"
proof -
  obtain s0 where s0: "DeviceManager_Init example_boot (\<lambda>n. int n + 3) (\<lambda>_. 0x0301A8C0) [] [example_cfg] True True
      (new_DeviceManager initial_state False) = (True, s0)" "\<not> dm_is_view s0"
    "dm_host_ip s0 = ''192.168.1.5''" "dm_custom_lidars_cfg_map s0 = [0x0301A8C0 \<mapsto> example_cfg]"
    using init_starts [of "\<lambda>n. int n + 3" example_boot "\<lambda>_. 0x0301A8C0" "[]" example_cfg "[]" True initial_state False]
    by (auto simp: example_boot_def example_cfg_def)
  have "inet_ntoa 0x0301A8C0 \<noteq> ''192.168.1.5''" by code_simp
  then have run: "dm_run (\<lambda>_. 0) (\<lambda>n. int n + 3) (\<lambda>_. 0x0301A8C0) [Datagram 0x0301A8C0 56300 (replicate 8192 0) 40] s0 =
      Some (dm_emit (DataDatagram 9 0x0301A8C0 (replicate 8192 0) 40) s0)"
    using s0 by (simp add: OnData_def example_cfg_def kMid360LidarDebugPointCloudPort_def kHAPDebugPointCloudPort_def
      kHAPLogPort_def kPaLidarLogPort_def kMid360LidarLogPort_def)
  have fresh: "fresh_sockets (\<lambda>n. int n + 3)" by (auto simp: fresh_sockets_def)
  show ?thesis
    using s0(1) run sockets_accounted [OF fresh disjI1 [OF s0(1)] run] by (auto simp: dm_emit_def)
qed

lemma announced_effects:
  assumes dg: "received > 0" "inet_ntoa handle \<noteq> dm_host_ip s" "\<not> dm_is_view s" "dm_custom_lidars_cfg_map s handle = None"
      "dm_comm_port s"
    and reply: "ParseCommStream buf (of_int received) = Some (Some p)" "cmd_id p = command_id_code kCommandIDLidarSearch"
      "data p = Some (0 # dev_type # rest)" "data_len p \<noteq> 0" "type_lidars_cfg_map s dev_type = Some cfg"
    and run: "OnData env mk ia handle kDetectionPort buf received s = Some s'"
    and cfg': "cfg' = cfg\<lparr>lidar_net_info := (lidar_net_info cfg)\<lparr>lidar_ipaddr := inet_ntoa handle\<rparr>\<rparr>"
  shows "dm_custom_lidars_cfg_map s' = (dm_custom_lidars_cfg_map s)(handle \<mapsto> cfg')"
    and "knows handle cfg' (dm_host_ip s) s'"
    and "\<forall>n. 0 < mk n \<Longrightarrow> length (vec_broadcast_socket s') = length (vec_broadcast_socket s) +
      length (filter mid360 (custom_lidars_cfg s @ [cfg']))"
proof -
  have "add_lidar mk ia handle dev_type cfg s = Some s'"
    using run dg reply
    by (simp add: OnData_def announced_def rd8_def peek_def kMid360LidarDebugPointCloudPort_def kHAPDebugPointCloudPort_def
        kHAPLogPort_def kPaLidarLogPort_def kMid360LidarLogPort_def kDetectionPort_def)
  then obtain t master where s': "s' = snd (all_steps (map (lidar_channels mk master) (custom_lidars_cfg s @ [cfg']))
      (s\<lparr>type_lidars_cfg_map := (type_lidars_cfg_map s)(dev_type \<mapsto> cfg'),
         dm_custom_lidars_cfg_map := (dm_custom_lidars_cfg_map s)(handle \<mapsto> cfg'),
         custom_lidars_cfg := custom_lidars_cfg s @ [cfg'], sdk := t\<rparr>))"
    by (auto simp: add_lidar_def on_sdk_def Let_def bind_eq_Some_conv cfg' simp del: map_append)
  show "length (vec_broadcast_socket s') = length (vec_broadcast_socket s) +
      length (filter mid360 (custom_lidars_cfg s @ [cfg']))" if "\<forall>n. 0 < mk n"
    using opens_lidars [OF that, of "custom_lidars_cfg s @ [cfg']" master] unfolding s' opens_def by (simp del: map_append)
  have route: "dm_custom_lidars_cfg_map s' = (dm_custom_lidars_cfg_map s)(handle \<mapsto> cfg')"
    "dm_is_view s' = dm_is_view s" "dm_host_ip s' = dm_host_ip s"
    using channels_routing(1) [of mk master "custom_lidars_cfg s @ [cfg']"] unfolding s' routing_def by simp_all
  show "dm_custom_lidars_cfg_map s' = (dm_custom_lidars_cfg_map s)(handle \<mapsto> cfg')" by (rule route)
  show "knows handle cfg' (dm_host_ip s) s'" using route dg(3) by (simp add: knows_def)
qed

text \<open>
  C40. A running manager that is not a viewer takes up an unknown lidar of a configured type when
  it announces itself: it gets the configuration of its type with its own address, whether or not
  the sockets for it can be opened. From then on, after any further datagrams and searches, every
  datagram from its point and IMU ports goes to the data handler with the type of the lidar, and
  on a port that is not one for logs or debug points it goes nowhere else. But the broadcast
  socket of a Mid360 has no key that is looked up: when every socket can be opened, one more is
  opened for each Mid360 known so far, the new one included.
\<close>
theorem announced_lidar:
  assumes "received > 0" "inet_ntoa handle \<noteq> dm_host_ip s" "\<not> dm_is_view s" "dm_custom_lidars_cfg_map s handle = None"
      "dm_comm_port s"
    and "ParseCommStream buf (of_int received) = Some (Some p)" "cmd_id p = command_id_code kCommandIDLidarSearch"
      "data p = Some (0 # dev_type # rest)" "data_len p \<noteq> 0" "type_lidars_cfg_map s dev_type = Some cfg"
    and "OnData env mk ia handle kDetectionPort buf received s = Some s'"
    and "cfg' = cfg\<lparr>lidar_net_info := (lidar_net_info cfg)\<lparr>lidar_ipaddr := inet_ntoa handle\<rparr>\<rparr>"
  shows "dm_custom_lidars_cfg_map s' = (dm_custom_lidars_cfg_map s)(handle \<mapsto> cfg') \<and>
    (\<forall>env mk ia es t port buf received. dm_run env mk ia es s' = Some t \<longrightarrow> received > 0 \<longrightarrow>
      port \<in> {lidar_point_port_cfg (lidar_net_info cfg), lidar_imu_port_cfg (lidar_net_info cfg)} \<longrightarrow>
      (\<exists>t' xs. OnData env mk ia handle port buf received t = Some t' \<and>
        dm_out t' = dm_out t @ xs @ [DataDatagram (device_type cfg) handle buf (of_int received)] \<and>
        (port \<notin> {kMid360LidarDebugPointCloudPort, kHAPDebugPointCloudPort, kHAPLogPort, kPaLidarLogPort, kMid360LidarLogPort} \<longrightarrow>
          xs = []))) \<and>
    ((\<forall>n. 0 < mk n) \<longrightarrow> length (vec_broadcast_socket s') = length (vec_broadcast_socket s) +
      length (filter mid360 (custom_lidars_cfg s @ [cfg'])))"
proof -
  note effects = announced_effects [OF assms]
  have cfg: "lidar_point_port_cfg (lidar_net_info cfg') = lidar_point_port_cfg (lidar_net_info cfg)"
    "lidar_imu_port_cfg (lidar_net_info cfg') = lidar_imu_port_cfg (lidar_net_info cfg)" "device_type cfg' = device_type cfg"
    by (simp_all add: assms(12))
  show ?thesis
    by (intro conjI allI impI)
      (fact effects(1), erule knows_data [OF knows_run [OF _ effects(2)] assms(2), unfolded cfg], assumption, assumption,
       rule effects(3), blast)
qed

definition example_reply :: CommPacket where
  "example_reply = \<lparr>protocol = 0, version = 0, seq_num = 5, cmd_id = command_id_code kCommandIDLidarSearch, cmd_type = 1,
     sender_type = 1, data = Some [0, 9], data_len = 2\<rparr>"

definition example_datagram :: "u8 list" where
  "example_datagram = frame_of example_reply [0, 0, 0, 0, 0, 0] [0, 9] @ replicate 8166 0"

lemma example_reply_parses: "\<exists>p. ParseCommStream example_datagram 26 = Some (Some p) \<and>
    cmd_id p = command_id_code kCommandIDLidarSearch \<and> data p = Some (0 # 9 # replicate 8166 0) \<and> data_len p \<noteq> 0"
proof -
  have c: "CheckPreamble (frame_of example_reply [0, 0, 0, 0, 0, 0] [0, 9] @ replicate 8166 0) 26 = Some True"
    by (rule Check_frame) (simp_all add: example_reply_def)
  have p: "ParsePacket (frame_of example_reply [0, 0, 0, 0, 0, 0] [0, 9] @ replicate 8166 0) 26 = Some (Some
    \<lparr>protocol = protocol_code kLidarSdk, version = kSdkVer, seq_num = seq_num example_reply AND 0xFFFF,
     cmd_id = cmd_id example_reply, cmd_type = cmd_type example_reply, sender_type = sender_type example_reply,
     data = Some ([0, 9] @ replicate 8166 0), data_len = data_len example_reply\<rparr>)"
    by (rule Parse_frame) (simp_all add: example_reply_def)
  show ?thesis
    unfolding example_datagram_def ParseCommStream_def c p by (simp add: example_reply_def)
qed

definition example_waiting :: dm_state where
  "example_waiting = (new_DeviceManager (initial_state\<lparr>master_sdk := Some True\<rparr>) False)
     \<lparr>dm_comm_port := True, type_lidars_cfg_map := [9 \<mapsto> example_cfg]\<rparr>"

theorem announced_lidar_witness:
  "\<exists>s'. OnData (\<lambda>_. 0) (\<lambda>n. int n + 3) (\<lambda>_. 1) 1 kDetectionPort example_datagram 26 example_waiting = Some s' \<and>
     length (vec_broadcast_socket s') = 1 \<and>
     (\<exists>t t'. OnData (\<lambda>_. 0) (\<lambda>n. int n + 3) (\<lambda>_. 1) 1 56400 [] 40 s' = Some t \<and> OnData (\<lambda>_. 0) (\<lambda>n. int n + 3) (\<lambda>_. 1) 1 56300 [] 40 t = Some t' \<and>
       dm_out t' = dm_out t @ [DataDatagram 9 1 [] 40])"
proof -
  obtain p where p: "ParseCommStream example_datagram (of_int 26) = Some (Some p)"
    "cmd_id p = command_id_code kCommandIDLidarSearch" "data p = Some (0 # 9 # replicate 8166 0)" "data_len p \<noteq> 0"
    using example_reply_parses by auto
  have "inet_ntoa 1 \<noteq> []" by code_simp
  then have w: "(26 :: int) > 0" "inet_ntoa 1 \<noteq> dm_host_ip example_waiting" "\<not> dm_is_view example_waiting"
    "dm_custom_lidars_cfg_map example_waiting 1 = None" "dm_comm_port example_waiting"
    "type_lidars_cfg_map example_waiting 9 = Some example_cfg"
    by (simp_all add: example_waiting_def new_DeviceManager_def)
  have "add_lidar (\<lambda>n. int n + 3) (\<lambda>_. 1) 1 9 example_cfg example_waiting \<noteq> None"
    by (simp add: add_lidar_def on_sdk_def Let_def example_waiting_def new_DeviceManager_def Init_cfg_def AddDetectedLidar_def
      initial_state_def CreateCommandHandler_def example_cfg_def
      kind_type_def)
  then obtain s' where s': "OnData (\<lambda>_. 0) (\<lambda>n. int n + 3) (\<lambda>_. 1) 1 kDetectionPort example_datagram 26 example_waiting = Some s'"
    using w p by (auto simp: OnData_def announced_def rd8_def peek_def kMid360LidarDebugPointCloudPort_def
        kHAPDebugPointCloudPort_def kHAPLogPort_def kPaLidarLogPort_def kMid360LidarLogPort_def kDetectionPort_def)
  have d: "dm_custom_lidars_cfg_map s' = (dm_custom_lidars_cfg_map example_waiting)(1 \<mapsto> example_cfg\<lparr>lidar_net_info := (lidar_net_info example_cfg)\<lparr>lidar_ipaddr := inet_ntoa 1\<rparr>\<rparr>) \<and>
    (\<forall>env mk ia es t port buf received. dm_run env mk ia es s' = Some t \<longrightarrow> received > 0 \<longrightarrow>
      port \<in> {lidar_point_port_cfg (lidar_net_info example_cfg), lidar_imu_port_cfg (lidar_net_info example_cfg)} \<longrightarrow>
      (\<exists>t' xs. OnData env mk ia 1 port buf received t = Some t' \<and>
        dm_out t' = dm_out t @ xs @ [DataDatagram (device_type example_cfg) 1 buf (of_int received)] \<and>
        (port \<notin> {kMid360LidarDebugPointCloudPort, kHAPDebugPointCloudPort, kHAPLogPort, kPaLidarLogPort, kMid360LidarLogPort} \<longrightarrow>
          xs = []))) \<and>
    ((\<forall>n. 0 < int n + 3) \<longrightarrow> length (vec_broadcast_socket s') = length (vec_broadcast_socket example_waiting) +
      length (filter mid360 (custom_lidars_cfg example_waiting @ [example_cfg\<lparr>lidar_net_info := (lidar_net_info example_cfg)\<lparr>lidar_ipaddr := inet_ntoa 1\<rparr>\<rparr>])))"
    by (rule announced_lidar [OF w(1-5) p w(6) s' refl])
  have ports: "56300 \<in> {lidar_point_port_cfg (lidar_net_info example_cfg), lidar_imu_port_cfg (lidar_net_info example_cfg)}"
    "56400 \<in> {lidar_point_port_cfg (lidar_net_info example_cfg), lidar_imu_port_cfg (lidar_net_info example_cfg)}"
    "56300 \<notin> {kMid360LidarDebugPointCloudPort, kHAPDebugPointCloudPort, kHAPLogPort, kPaLidarLogPort, kMid360LidarLogPort}"
    by (simp_all add: example_cfg_def kMid360LidarDebugPointCloudPort_def kHAPDebugPointCloudPort_def kHAPLogPort_def
      kPaLidarLogPort_def kMid360LidarLogPort_def)
  note data = conjunct1 [OF conjunct2 [OF d], rule_format]
  have "dm_run (\<lambda>_. 0) (\<lambda>n. int n + 3) (\<lambda>_. 1) [] s' = Some s'" "(40 :: int) > 0" by simp_all
  from data [OF this ports(2), of "[]"]
  obtain t where t: "OnData (\<lambda>_. 0) (\<lambda>n. int n + 3) (\<lambda>_. 1) 1 56400 [] 40 s' = Some t" by blast
  then have "dm_run (\<lambda>_. 0) (\<lambda>n. int n + 3) (\<lambda>_. 1) [Datagram 1 56400 [] 40] s' = Some t" "(40 :: int) > 0" by simp_all
  from data [OF this ports(1), of "[]"] ports(3)
  obtain t' where "OnData (\<lambda>_. 0) (\<lambda>n. int n + 3) (\<lambda>_. 1) 1 56300 [] 40 t = Some t'"
    "dm_out t' = dm_out t @ [DataDatagram (device_type example_cfg) 1 [] (of_int 40)]" by auto
  moreover have "length (vec_broadcast_socket s') = 1"
    using conjunct2 [OF conjunct2 [OF d]] by (simp add: example_waiting_def new_DeviceManager_def example_cfg_def mid360_def)
  ultimately show ?thesis using s' t by (auto simp: example_cfg_def)
qed

end
