(* ===== verification/Data_Handler.thy ===== *)
theory Data_Handler
  imports Livox_Defs
begin

text \<open>
  The data side of the SDK (sdk\_core/data\_handler/data\_handler.cpp): a datagram of points or of
  inertial samples goes to the callback of its kind and then to every observer. A callback with its
  client data is a value of any type; a null callback is \<open>None\<close>. The id of an observer comes from a
  counter of 16 bits that skips zero.
\<close>

section \<open>Operations\<close>

record 'c DataHandler =
  point_data_callbacks :: "'c option"
  imu_data_callbacks :: "'c option"
  observers :: "(u16 \<times> 'c option) list"
  observer_id :: u16

definition new_DataHandler :: "'c DataHandler" where
  "new_DataHandler = \<lparr>point_data_callbacks = None, imu_data_callbacks = None, observers = [], observer_id = 1\<rparr>"

text \<open>The id stays: it is a static variable of the function.\<close>

definition DataHandler_Destory :: "'c DataHandler \<Rightarrow> 'c DataHandler" where
  "DataHandler_Destory h = h\<lparr>point_data_callbacks := None, imu_data_callbacks := None, observers := []\<rparr>"

definition GenerateObserverId :: "u16 \<Rightarrow> u16" where
  "GenerateObserverId value = (if value = 65535 then 1 else value + 1)"

definition AddPointCloudObserver :: "'c option \<Rightarrow> 'c DataHandler \<Rightarrow> u16 \<times> 'c DataHandler" where
  "AddPointCloudObserver cb h =
     (let n = GenerateObserverId (observer_id h)
      in (n, h\<lparr>observer_id := n, observers := map_put n cb (observers h)\<rparr>))"

definition RemovePointCloudObserver :: "u16 \<Rightarrow> 'c DataHandler \<Rightarrow> 'c DataHandler" where
  "RemovePointCloudObserver n h =
     (if map_of (observers h) n \<noteq> None then h\<lparr>observers := map_del n (observers h)\<rparr> else h)"

definition SetPointDataCallback :: "'c option \<Rightarrow> 'c DataHandler \<Rightarrow> 'c DataHandler" where
  "SetPointDataCallback cb h = h\<lparr>point_data_callbacks := cb\<rparr>"

definition DataHandler_SetImuDataCallback :: "'c option \<Rightarrow> 'c DataHandler \<Rightarrow> 'c DataHandler" where
  "DataHandler_SetImuDataCallback cb h = h\<lparr>imu_data_callbacks := cb\<rparr>"

text \<open>
  The callbacks that are called, in order, each with the arguments of \<open>Handle\<close>. The buffer is the
  whole receive buffer; its size is an argument that the code does not look at.
\<close>

fun set_callbacks :: "'c option list \<Rightarrow> 'c list" where
  "set_callbacks [] = []"
| "set_callbacks (None # cs) = set_callbacks cs"
| "set_callbacks (Some c # cs) = c # set_callbacks cs"

definition Handle :: "u8 list option \<Rightarrow> 'c DataHandler \<Rightarrow> 'c list option" where
  "Handle buf h = (case buf of
     None \<Rightarrow> Some []
   | Some buf \<Rightarrow> do {
       data_type \<leftarrow> rd8 buf 10;
       Some (set_callbacks ((if data_type = point_data_type_code kLivoxLidarImuData then imu_data_callbacks h
           else point_data_callbacks h) # map snd (observers h))) })"

section \<open>Who receives a datagram\<close>

datatype 'c handler_call = AddObserver "'c option" | RemoveObserver u16 | SetPoint "'c option" | SetImu "'c option" | DestoryCall

fun handler_step :: "'c handler_call \<Rightarrow> 'c DataHandler \<Rightarrow> 'c DataHandler" where
  "handler_step (AddObserver cb) h = snd (AddPointCloudObserver cb h)"
| "handler_step (RemoveObserver n) h = RemovePointCloudObserver n h"
| "handler_step (SetPoint cb) h = SetPointDataCallback cb h"
| "handler_step (SetImu cb) h = DataHandler_SetImuDataCallback cb h"
| "handler_step DestoryCall h = DataHandler_Destory h"

text \<open>
  The contract: observers in the order of their registration, numbered one after the other, and the
  two callbacks that were set last.
\<close>

record 'c registry =
  live :: "(nat \<times> 'c option) list"
  added :: nat
  point_cb :: "'c option"
  imu_cb :: "'c option"

definition empty_registry :: "'c registry" where
  "empty_registry = \<lparr>live = [], added = 0, point_cb = None, imu_cb = None\<rparr>"

fun registry_step :: "'c handler_call \<Rightarrow> 'c registry \<Rightarrow> 'c registry" where
  "registry_step (AddObserver cb) r = r\<lparr>live := live r @ [(added r + 2, cb)], added := added r + 1\<rparr>"
| "registry_step (RemoveObserver n) r = r\<lparr>live := filter (\<lambda>(m, cb). m \<noteq> unat n) (live r)\<rparr>"
| "registry_step (SetPoint cb) r = r\<lparr>point_cb := cb\<rparr>"
| "registry_step (SetImu cb) r = r\<lparr>imu_cb := cb\<rparr>"
| "registry_step DestoryCall r = r\<lparr>live := [], point_cb := None, imu_cb := None\<rparr>"

definition additions :: "'c handler_call list \<Rightarrow> nat" where
  "additions cs = length (filter (\<lambda>c. case c of AddObserver _ \<Rightarrow> True | _ \<Rightarrow> False) cs)"

definition implements :: "'c DataHandler \<Rightarrow> 'c registry \<Rightarrow> bool" where
  "implements h r \<longleftrightarrow> map (\<lambda>(n, cb). (unat n, cb)) (observers h) = live r \<and> unat (observer_id h) = added r + 1 \<and>
     point_data_callbacks h = point_cb r \<and> imu_data_callbacks h = imu_cb r \<and>
     (\<forall>(n, cb) \<in> set (live r). n \<le> added r + 1)"

lemma map_put_greatest: "\<forall>(l, w) \<in> set m. l < k \<Longrightarrow> map_put k v m = m @ [(k, v)]"
  by (induction m) auto

lemma map_del_absent: "map_of m k = None \<Longrightarrow> map_del k m = m"
  by (induction m) (auto simp: map_del_def split: if_splits)

lemma implements_step:
  assumes i: "implements h r" and room: "added r + additions [c] \<le> 65534"
  shows "implements (handler_step c h) (registry_step c r)"
proof (cases c)
  case (AddObserver cb)
  have id: "unat (observer_id h) = added r + 1" and le: "added r \<le> 65533"
    using i room AddObserver by (simp_all add: implements_def additions_def)
  then have "observer_id h \<noteq> 65535" by auto
  moreover have "unat (observer_id h + 1) = added r + 2" using id le by (simp add: unat_word_ariths)
  ultimately have new: "unat (GenerateObserverId (observer_id h)) = added r + 2" by (simp add: GenerateObserverId_def)
  have "n < GenerateObserverId (observer_id h)" if "(n, cb) \<in> set (observers h)" for n cb
  proof -
    have "live r = map (\<lambda>(n, cb). (unat n, cb)) (observers h)" using i by (simp add: implements_def)
    then have "(unat n, cb) \<in> set (live r)" using that by force
    then have "unat n \<le> added r + 1" using i by (auto simp: implements_def)
    then show ?thesis using new by (simp add: word_less_nat_alt)
  qed
  then have "map_put (GenerateObserverId (observer_id h)) cb (observers h) =
      observers h @ [(GenerateObserverId (observer_id h), cb)]"
    by (intro map_put_greatest) auto
  then show ?thesis using i new by (force simp: AddObserver AddPointCloudObserver_def Let_def implements_def)
next
  case (RemoveObserver n)
  have "observers (RemovePointCloudObserver n h) = filter (\<lambda>(m, cb). m \<noteq> n) (observers h)"
    using map_del_absent [of "observers h" n] by (auto simp: RemovePointCloudObserver_def map_del_def)
  moreover have "map (\<lambda>(n, cb). (unat n, cb)) (filter (\<lambda>(m, cb). m \<noteq> n) xs) =
      filter (\<lambda>(m, cb). m \<noteq> unat n) (map (\<lambda>(n, cb). (unat n, cb)) xs)" for xs :: "(u16 \<times> 'a option) list"
    by (induction xs) (auto dest: unsigned_word_eqI)
  moreover have "observer_id (RemovePointCloudObserver n h) = observer_id h"
    "point_data_callbacks (RemovePointCloudObserver n h) = point_data_callbacks h"
    "imu_data_callbacks (RemovePointCloudObserver n h) = imu_data_callbacks h"
    by (simp_all add: RemovePointCloudObserver_def)
  ultimately show ?thesis using i by (auto simp: RemoveObserver implements_def)
qed (use i in \<open>auto simp: implements_def SetPointDataCallback_def DataHandler_SetImuDataCallback_def DataHandler_Destory_def\<close>)

lemma additions_Cons: "additions (c # cs) = additions [c] + additions cs"
  by (simp add: additions_def)

lemma added_step: "added (registry_step c r) = added r + additions [c]"
  by (cases c) (simp_all add: additions_def)

lemma implements_run:
  "implements h r \<Longrightarrow> added r + additions cs \<le> 65534 \<Longrightarrow> implements (run handler_step cs h) (run registry_step cs r)"
proof (induction cs arbitrary: h r)
  case (Cons c cs)
  then have "added r + additions [c] + additions cs \<le> 65534" by (simp add: additions_Cons [of c cs])
  then show ?case using Cons.IH [OF implements_step [OF Cons.prems(1), of c]] by (simp add: added_step)
qed simp

text \<open>
  C38. The data handler implements the plain registry: with fewer than 65535 registrations, a
  datagram goes to the callback of its kind that was set last, and then to the observers that are
  registered, in the order of their registration, each once.
\<close>
theorem observers_in_order:
  assumes "additions cs \<le> 65534" "11 \<le> length buf"
  shows "let r = run registry_step cs empty_registry in
    Handle (Some buf) (run handler_step cs new_DataHandler) =
      Some (set_callbacks ((if buf ! 10 = 0 then imu_cb r else point_cb r) # map snd (live r)))"
proof -
  let ?h = "run handler_step cs (new_DataHandler :: 'a DataHandler)" and ?r = "run registry_step cs empty_registry"
  have i: "implements ?h ?r"
    using assms(1) by (intro implements_run) (simp_all add: implements_def new_DataHandler_def empty_registry_def)
  then have "map snd (observers ?h) = map snd (live ?r)"
    by (auto simp: implements_def comp_def case_prod_unfold dest!: arg_cong [of _ _ "map snd"])
  then show ?thesis using i assms(2) by (simp add: Handle_def rd8_nth implements_def Let_def)
qed

theorem observers_in_order_witness:
  "Handle (Some (replicate 11 1)) (run handler_step
     [AddObserver (Some 7), AddObserver None, SetPoint (Some 5), AddObserver (Some 9), RemoveObserver 2]
     (new_DataHandler :: nat DataHandler)) = Some [5, 9]"
  using observers_in_order [of "[AddObserver (Some 7), AddObserver None, SetPoint (Some 5), AddObserver (Some 9),
      RemoveObserver 2] :: nat handler_call list" "replicate 11 1"]
  by (simp add: additions_def empty_registry_def Let_def)

end
