(* ===== verification/Queues.thy ===== *)
theory Queues
  imports Prelude
begin

text \<open>
  The interface of a queue: what the ROS driver relies on for its packet and sample queues, and the
  sonar device for the receive buffer of its link.
\<close>

section \<open>First in, first out\<close>

text \<open>
  \<open>push\<close> is asked for only where there is \<open>room\<close>; \<open>pop\<close> is \<open>None\<close> where the code has undefined
  behaviour, and \<open>Some None\<close> on an empty queue.
\<close>

locale fifo =
  fixes wf :: "'q \<Rightarrow> bool" and contents :: "'q \<Rightarrow> 'a list" and room :: "'q \<Rightarrow> bool"
    and push :: "'a \<Rightarrow> 'q \<Rightarrow> 'q option" and pop :: "'q \<Rightarrow> ('a \<times> 'q) option option" and ok :: "'a \<Rightarrow> bool"
  assumes push: "wf q \<Longrightarrow> room q \<Longrightarrow> ok x \<Longrightarrow> \<exists>q'. push x q = Some q' \<and> wf q' \<and> contents q' = contents q @ [x]"
    and pop_empty: "wf q \<Longrightarrow> contents q = [] \<Longrightarrow> pop q = Some None"
    and pop_front: "wf q \<Longrightarrow> contents q = x # xs \<Longrightarrow> \<exists>q'. pop q = Some (Some (x, q')) \<and> wf q' \<and> contents q' = xs"
begin

text \<open>Insert where there is room, otherwise drop; take the oldest. What was accepted, what was taken.\<close>

fun session :: "'a option list \<Rightarrow> 'q \<Rightarrow> ('a list \<times> 'a list \<times> 'q) option" where
  "session [] q = Some ([], [], q)"
| "session (Some x # xs) q =
     (if room q then do { q \<leftarrow> push x q; (ins, outs, q) \<leftarrow> session xs q; Some (x # ins, outs, q) }
      else session xs q)"
| "session (None # xs) q = do {
     r \<leftarrow> pop q;
     case r of None \<Rightarrow> session xs q
     | Some (x, q) \<Rightarrow> do { (ins, outs, q) \<leftarrow> session xs q; Some (ins, x # outs, q) } }"

lemma session_fifo:
  "wf q \<Longrightarrow> \<forall>x. Some x \<in> set xs \<longrightarrow> ok x \<Longrightarrow> \<exists>ins outs q'. session xs q = Some (ins, outs, q') \<and> wf q' \<and>
     contents q @ ins = outs @ contents q'"
proof (induction xs q rule: session.induct)
  case (2 x xs q)
  show ?case
  proof (cases "room q")
    case True
    then obtain q1 where "push x q = Some q1" "wf q1" "contents q1 = contents q @ [x]"
      using push [of q x] 2 by auto
    then show ?thesis using 2 True by fastforce
  next
    case False
    then show ?thesis using 2 by auto
  qed
next
  case (3 xs q)
  show ?case
  proof (cases "contents q")
    case Nil
    then show ?thesis using 3 pop_empty [of q] by fastforce
  next
    case (Cons x ys)
    then obtain q1 where "pop q = Some (Some (x, q1))" "wf q1" "contents q1 = ys"
      using pop_front [of q] 3 by blast
    then show ?thesis using 3 Cons by fastforce
  qed
qed auto

text \<open>Taking everything returns the contents, in order.\<close>

fun drain :: "nat \<Rightarrow> 'q \<Rightarrow> ('a list \<times> 'q) option" where
  "drain 0 q = None"
| "drain (Suc n) q = do {
     r \<leftarrow> pop q;
     case r of None \<Rightarrow> Some ([], q)
     | Some (x, q) \<Rightarrow> do { (ys, q) \<leftarrow> drain n q; Some (x # ys, q) } }"

lemma drain_contents:
  "wf q \<Longrightarrow> length (contents q) < n \<Longrightarrow> \<exists>q'. drain n q = Some (contents q, q') \<and> wf q' \<and> contents q' = []"
proof (induction n arbitrary: q)
  case (Suc n)
  show ?case
  proof (cases "contents q")
    case Nil
    then show ?thesis using Suc pop_empty [of q] by auto
  next
    case (Cons x ys)
    then obtain q1 where "pop q = Some (Some (x, q1))" "wf q1" "contents q1 = ys"
      using pop_front [of q] Suc by blast
    then show ?thesis using Suc Cons by fastforce
  qed
qed simp

end

end
