(* ===== verification/Driver_Queue.thy ===== *)
theory Driver_Queue
  imports Queues
begin

text \<open>
  The queues of the ROS driver (livox\_driver): the ring buffer of point packets (comm/ldq.cpp) and the
  list of IMU samples (comm/lidar\_imu\_data\_queue.cpp). Both promise the locale \<open>fifo\<close>, the ring
  buffer while its indices, which never wrap to the start of the buffer but count up modulo
  \<open>2 ^ 32\<close>, are at most the size apart.
\<close>

section \<open>The ring buffer\<close>

text \<open>
  The pointer \<open>storage_packet\<close> is null, an array, or the address of an array that has been deleted:
  \<open>DeInitQueue\<close> does not reset it. The elements of a fresh array are value-initialised to nothing
  known; \<open>junk\<close> is their content.
\<close>

record 'p StoragePacket =
  base_time :: u64
  points_num :: u32
  points :: "'p list"

datatype 'p storage = NullStorage | Storage "'p StoragePacket list" | Deleted

record 'p LidarDataQueue =
  storage_packet :: "'p storage"
  rd_idx :: u32
  wr_idx :: u32
  q_mask :: u32
  q_size :: u32

definition IsPowerOf2 :: "u32 \<Rightarrow> bool" where
  "IsPowerOf2 n \<longleftrightarrow> n \<noteq> 0 \<and> n AND (n - 1) = 0"

text \<open>The loop tries the powers of two up to \<open>2 ^ 31\<close> and keeps the last when none is enough.\<close>

fun round_loop :: "u32 \<Rightarrow> nat list \<Rightarrow> u32 \<Rightarrow> u32" where
  "round_loop n [] v = v"
| "round_loop n (i # is) v = (let v = push_bit i 1 in if n \<le> v then v else round_loop n is v)"

definition RoundupPowerOf2 :: "u32 \<Rightarrow> u32" where
  "RoundupPowerOf2 n = round_loop n [0..<32] 0"

definition InitQueue :: "'p StoragePacket \<Rightarrow> 'p LidarDataQueue \<Rightarrow> u32 \<Rightarrow> (bool \<times> 'p LidarDataQueue) option" where
  "InitQueue junk queue queue_size =
     (let n = (if IsPowerOf2 queue_size then queue_size else RoundupPowerOf2 queue_size)
      in if storage_packet queue = Deleted then None
         else Some (True, \<lparr>storage_packet = Storage (replicate (unat n) junk), rd_idx = 0, wr_idx = 0,
           q_mask = n - 1, q_size = n\<rparr>))"

definition DeInitQueue :: "'p LidarDataQueue \<Rightarrow> (bool \<times> 'p LidarDataQueue) option" where
  "DeInitQueue queue =
     (if storage_packet queue = Deleted then None
      else Some (True, \<lparr>storage_packet = (if storage_packet queue = NullStorage then NullStorage else Deleted),
        rd_idx = 0, wr_idx = 0, q_mask = 0, q_size = 0\<rparr>))"

definition ResetQueue :: "'p LidarDataQueue \<Rightarrow> 'p LidarDataQueue" where
  "ResetQueue queue = queue\<lparr>rd_idx := 0, wr_idx := 0\<rparr>"

definition QueueUsedSize :: "'p LidarDataQueue \<Rightarrow> u32" where
  "QueueUsedSize queue = wr_idx queue - rd_idx queue"

definition QueueUnusedSize :: "'p LidarDataQueue \<Rightarrow> u32" where
  "QueueUnusedSize queue = q_size queue - QueueUsedSize queue"

definition QueueIsFull :: "'p LidarDataQueue \<Rightarrow> bool" where
  "QueueIsFull queue \<longleftrightarrow> q_mask queue < wr_idx queue - rd_idx queue"

definition QueueIsEmpty :: "'p LidarDataQueue \<Rightarrow> bool" where
  "QueueIsEmpty queue \<longleftrightarrow> rd_idx queue = wr_idx queue"

text \<open>An element of the array; outside it, or without an array, the access is undefined.\<close>

definition slot :: "'p LidarDataQueue \<Rightarrow> u32 \<Rightarrow> 'p StoragePacket option" where
  "slot queue i = (case storage_packet queue of
     Storage ps \<Rightarrow> (if unat i < length ps then Some (ps ! unat i) else None) | _ \<Rightarrow> None)"

text \<open>The front element, copied into the caller's packet; the result is its copy.\<close>

definition QueuePrePop :: "'p LidarDataQueue \<Rightarrow> 'p StoragePacket option option" where
  "QueuePrePop queue =
     (if QueueIsEmpty queue then Some None
      else do {
        p \<leftarrow> slot queue (rd_idx queue AND q_mask queue);
        if length (points p) < unat (points_num p) then None
        else Some (Some \<lparr>base_time = base_time p, points_num = points_num p,
          points = take (unat (points_num p)) (points p)\<rparr>) })"

definition QueuePopUpdate :: "'p LidarDataQueue \<Rightarrow> 'p LidarDataQueue" where
  "QueuePopUpdate queue = queue\<lparr>rd_idx := rd_idx queue + 1\<rparr>"

definition QueuePop :: "'p LidarDataQueue \<Rightarrow> ('p StoragePacket \<times> 'p LidarDataQueue) option option" where
  "QueuePop queue = do {
     r \<leftarrow> QueuePrePop queue;
     Some (map_option (\<lambda>p. (p, QueuePopUpdate queue)) r) }"

text \<open>\<open>pts\<close> is what \<open>PointPacket::points\<close> points to.\<close>

definition QueuePushAny :: "u32 \<Rightarrow> 'p list \<Rightarrow> u64 \<Rightarrow> 'p LidarDataQueue \<Rightarrow> 'p LidarDataQueue option" where
  "QueuePushAny num pts time queue =
     (let i = wr_idx queue AND q_mask queue in
      case storage_packet queue of
        Storage ps \<Rightarrow>
          if unat i < length ps \<and> unat num \<le> length pts
          then Some (queue\<lparr>storage_packet := Storage (ps[unat i :=
              \<lparr>base_time = time, points_num = num, points = take (unat num) pts\<rparr>]), wr_idx := wr_idx queue + 1\<rparr>)
          else None
      | _ \<Rightarrow> None)"

section \<open>The ring buffer is a queue\<close>

text \<open>The packets between the two indices, oldest first.\<close>

definition ring_contents :: "'p LidarDataQueue \<Rightarrow> 'p StoragePacket list" where
  "ring_contents q = (case storage_packet q of
     Storage ps \<Rightarrow> map (\<lambda>i. ps ! ((unat (rd_idx q) + i) mod length ps)) [0..<unat (wr_idx q - rd_idx q)]
   | _ \<Rightarrow> [])"

definition packet_ok :: "'p StoragePacket \<Rightarrow> bool" where
  "packet_ok p \<longleftrightarrow> length (points p) = unat (points_num p)"

definition ring_wf :: "'p LidarDataQueue \<Rightarrow> bool" where
  "ring_wf q \<longleftrightarrow> (\<exists>ps k. storage_packet q = Storage ps \<and> k < 32 \<and> length ps = 2 ^ k \<and> q_size q = 2 ^ k \<and>
     q_mask q = 2 ^ k - 1 \<and> unat (wr_idx q - rd_idx q) \<le> 2 ^ k) \<and> (\<forall>p \<in> set (ring_contents q). packet_ok p)"

lemma unat_exp_u32:
  assumes "k < 32"
  shows "unat (2 ^ k :: u32) = 2 ^ k" "unat (2 ^ k - 1 :: u32) = 2 ^ k - 1"
proof -
  have k: "(2 :: nat) ^ k < 2 ^ 32" using assms by (intro power_strict_increasing) simp_all
  show "unat (2 ^ k :: u32) = 2 ^ k" using unat_of_nat_eq [OF k] by simp
  have "(2 ^ k - 1 :: u32) = of_nat (2 ^ k - 1)" by (simp add: of_nat_diff)
  then show "unat (2 ^ k - 1 :: u32) = 2 ^ k - 1" using k by (simp only: unat_of_nat_eq)
qed

lemma masked_index:
  assumes "k < 32"
  shows "unat ((x :: u32) AND (2 ^ k - 1)) = unat x mod 2 ^ k"
proof -
  have "x AND (2 ^ k - 1) = take_bit k x" by (simp add: take_bit_eq_mask mask_eq_exp_minus_1)
  moreover have "unat (take_bit k x) = take_bit k (unat x)" using assms by (simp add: unsigned_take_bit_eq)
  ultimately show ?thesis by (simp only: take_bit_eq_mod)
qed

lemma unat_add_mod:
  assumes "k < 32"
  shows "unat ((r :: u32) + of_nat i) mod 2 ^ k = (unat r + i) mod 2 ^ k"
proof -
  have d: "(2 :: nat) ^ k dvd 2 ^ 32" using assms by (intro le_imp_power_dvd) simp
  have "unat (r + of_nat i) = (unat r + i) mod 2 ^ 32"
    by (simp add: unat_word_ariths unat_of_nat take_bit_eq_mod mod_simps)
  then show ?thesis by (simp only: mod_mod_cancel [OF d])
qed

lemma other_slot: "i < u \<Longrightarrow> u < n \<Longrightarrow> (r + i) mod n \<noteq> (r + u) mod (n :: nat)"
proof
  assume a: "i < u" "u < n" "(r + i) mod n = (r + u) mod n"
  then have "n dvd u - i" using mod_eq_dvd_iff_nat [of "r + i" "r + u" n] by simp
  then have "n \<le> u - i" using a(1) by (intro dvd_imp_le) simp_all
  with a show False by simp
qed

lemma ring_push:
  assumes "ring_wf q" "\<not> QueueIsFull q" "packet_ok x"
  shows "\<exists>q'. QueuePushAny (points_num x) (points x) (base_time x) q = Some q' \<and> ring_wf q' \<and>
    ring_contents q' = ring_contents q @ [x]"
proof -
  obtain ps k where q: "storage_packet q = Storage ps" "k < 32" "length ps = 2 ^ k" "q_size q = 2 ^ k"
    "q_mask q = 2 ^ k - 1" "unat (wr_idx q - rd_idx q) \<le> 2 ^ k" using assms(1) by (auto simp: ring_wf_def)
  let ?u = "unat (wr_idx q - rd_idx q)" and ?r = "unat (rd_idx q)"
  have k: "(2 :: nat) ^ k < 2 ^ 32" using q(2) by (intro power_strict_increasing) simp_all
  have "?u \<le> 2 ^ k - 1" using assms(2) q(5) by (simp add: QueueIsFull_def word_less_nat_alt not_less unat_exp_u32(2) [OF q(2)])
  moreover have "0 < (2 :: nat) ^ k" by simp
  ultimately have u: "?u < 2 ^ k" by linarith
  have wr: "wr_idx q = rd_idx q + of_nat ?u" by simp
  have i: "unat (wr_idx q AND q_mask q) = (?r + ?u) mod 2 ^ k"
    unfolding q(5) masked_index [OF q(2)] by (subst wr) (rule unat_add_mod [OF q(2)])
  have x: "\<lparr>base_time = base_time x, points_num = points_num x, points = points x\<rparr> = x" by simp
  let ?q = "q\<lparr>storage_packet := Storage (ps[(?r + ?u) mod 2 ^ k := x]), wr_idx := wr_idx q + 1\<rparr>"
  have push: "QueuePushAny (points_num x) (points x) (base_time x) q = Some ?q"
    using q assms(3) by (simp add: QueuePushAny_def Let_def i [unfolded q(5)] x packet_ok_def)
  have "wr_idx q + 1 - rd_idx q = of_nat (?u + 1)" by simp
  then have u': "unat (wr_idx q + 1 - rd_idx q) = ?u + 1"
    using u k by (simp only: unat_of_nat_eq)
  have "ring_contents ?q = ring_contents q @ [x]"
    using q other_slot [of _ ?u "2 ^ k" ?r, THEN not_sym] u by (auto simp: ring_contents_def u')
  then show ?thesis
    using push u q assms(1,3) u' by (auto simp: ring_wf_def intro!: exI [of _ k])
qed


lemma ring_used: "ring_wf q \<Longrightarrow> unat (QueueUsedSize q) = length (ring_contents q)"
  by (auto simp: ring_wf_def ring_contents_def QueueUsedSize_def)

lemma ring_full:
  assumes "ring_wf q"
  shows "QueueIsFull q \<longleftrightarrow> length (ring_contents q) = unat (q_size q)"
proof -
  obtain k where q: "k < 32" "q_size q = 2 ^ k" "q_mask q = 2 ^ k - 1" "unat (wr_idx q - rd_idx q) \<le> 2 ^ k"
    using assms by (auto simp: ring_wf_def)
  have lt: "n - 1 < u \<longleftrightarrow> u = n" if "u \<le> n" "0 < n" for u n :: nat using that by auto
  show ?thesis
    unfolding ring_used [OF assms, symmetric] q(2) unat_exp_u32(1) [OF q(1)]
    by (simp only: QueueIsFull_def QueueUsedSize_def word_less_nat_alt q(3) unat_exp_u32(2) [OF q(1)]
      lt [OF q(4)] zero_less_power zero_less_numeral)
qed

lemma ring_wf_bound: "ring_wf q \<Longrightarrow> length (ring_contents q) \<le> unat (q_size q)"
  by (auto simp: ring_wf_def ring_contents_def unat_exp_u32)

lemma ring_pop_empty: "ring_wf q \<Longrightarrow> ring_contents q = [] \<Longrightarrow> QueuePop q = Some None"
  by (auto simp: ring_wf_def ring_contents_def QueuePop_def QueuePrePop_def QueueIsEmpty_def unat_eq_0)

lemma ring_pop:
  assumes "ring_wf q" "ring_contents q = x # xs"
  shows "\<exists>q'. QueuePop q = Some (Some (x, q')) \<and> ring_wf q' \<and> ring_contents q' = xs"
proof -
  obtain ps k where q: "storage_packet q = Storage ps" "k < 32" "length ps = 2 ^ k" "q_size q = 2 ^ k"
    "q_mask q = 2 ^ k - 1" "unat (wr_idx q - rd_idx q) \<le> 2 ^ k" using assms(1) by (auto simp: ring_wf_def)
  let ?u = "unat (wr_idx q - rd_idx q)" and ?r = "unat (rd_idx q)"
  have c: "map (\<lambda>i. ps ! ((?r + i) mod 2 ^ k)) [0..<?u] = x # xs" using assms(2) q by (simp add: ring_contents_def)
  then obtain n where n: "?u = Suc n" by (cases ?u) simp_all
  have x: "x = ps ! (?r mod 2 ^ k)" and xs: "xs = map (\<lambda>i. ps ! ((?r + Suc i) mod 2 ^ k)) [0..<n]"
    using c unfolding n by (simp_all only: upt_conv_Cons map_Suc_upt [symmetric] list.map zero_less_Suc list.inject)
      (simp_all add: comp_def)
  have ok: "packet_ok x" "\<forall>p \<in> set xs. packet_ok p" using assms by (auto simp: ring_wf_def)
  have ne: "\<not> QueueIsEmpty q" using n by (auto simp: QueueIsEmpty_def)
  have "slot q (rd_idx q AND q_mask q) = Some x"
    using q by (simp add: slot_def masked_index x)
  then have pop: "QueuePop q = Some (Some (x, QueuePopUpdate q))"
    using ne ok by (simp add: QueuePop_def QueuePrePop_def packet_ok_def)
  have "wr_idx q - rd_idx q \<noteq> 0" using n by auto
  from unat_minus_one [OF this] have n': "unat (wr_idx q - (rd_idx q + 1)) = n"
    unfolding n by (simp add: diff_diff_eq)
  have r': "(unat (rd_idx q + 1) + i) mod 2 ^ k = (?r + Suc i) mod 2 ^ k" for i
  proof -
    have "(unat (rd_idx q + 1) + i) mod 2 ^ k = (unat (rd_idx q + of_nat 1) mod 2 ^ k + i) mod 2 ^ k"
      by (simp add: mod_add_left_eq)
    also have "\<dots> = (?r + Suc i) mod 2 ^ k" unfolding unat_add_mod [OF q(2)] by (simp add: mod_add_left_eq)
    finally show ?thesis .
  qed
  have "ring_contents (QueuePopUpdate q) = xs"
    unfolding xs using q by (simp add: ring_contents_def QueuePopUpdate_def n' r')
  then show ?thesis
    using pop q n n' ok by (auto simp: ring_wf_def QueuePopUpdate_def intro!: exI [of _ k])
qed

interpretation ring: fifo ring_wf ring_contents "\<lambda>q. \<not> QueueIsFull q"
  "\<lambda>x. QueuePushAny (points_num x) (points x) (base_time x)" QueuePop packet_ok
  by unfold_locales (auto intro: ring_push ring_pop_empty ring_pop)


text \<open>A size that is asked for is rounded up to a power of two, \<open>2 ^ 31\<close> at most.\<close>

lemma bit_power_of_2:
  assumes "n AND (n - 1) = (0 :: nat)" "0 < n"
  shows "\<exists>k. n = 2 ^ k"
proof -
  obtain k where k: "2 ^ k \<le> n" "n < 2 ^ Suc k"
    using ex_power_ivl1 [of 2 n] assms(2) by auto
  have odd: "x div 2 ^ k = 1" if "2 ^ k \<le> x" "x < 2 ^ Suc k" for x :: nat
    using that by (simp add: div_nat_eqI)
  have "n - 1 < 2 ^ k"
  proof (rule ccontr)
    assume "\<not> n - 1 < 2 ^ k"
    then have "bit n k" "bit (n - 1) k" using odd [of n] odd [of "n - 1"] k by (simp_all add: bit_iff_odd)
    then have "bit (n AND (n - 1)) k" by (simp add: bit_and_iff)
    with assms(1) show False by simp
  qed
  with k have "n = 2 ^ k" by linarith
  then show ?thesis ..
qed

lemma IsPowerOf2_exp: "IsPowerOf2 n \<Longrightarrow> \<exists>k < 32. n = 2 ^ k"
proof -
  assume p: "IsPowerOf2 n"
  then have n: "n \<noteq> 0" "unat n AND unat (n - 1) = 0"
    by (simp_all add: IsPowerOf2_def flip: unsigned_and_eq)
  then obtain k where k: "unat n = 2 ^ k"
    using bit_power_of_2 [of "unat n"] by (auto simp: unat_minus_one unat_gt_0)
  have "unat n < 2 ^ LENGTH(32)" by (rule unsigned_less)
  then have "(2 :: nat) ^ k < 2 ^ 32" using k by simp
  then have "k < 32" by (simp only: power_strict_increasing_iff)
  moreover have "n = 2 ^ k" using arg_cong [OF k, of "of_nat :: nat \<Rightarrow> u32"] by simp
  ultimately show ?thesis by blast
qed

lemma round_loop_exp:
  "ks \<noteq> [] \<Longrightarrow> \<exists>k \<in> set ks. round_loop n ks v = 2 ^ k \<and> (n \<le> 2 ^ k \<or> k = last ks)"
proof (induction ks arbitrary: v)
  case (Cons i ks)
  then show ?case by (cases ks) (auto simp: Let_def push_bit_eq_mult)
qed simp

lemma RoundupPowerOf2_exp: "\<exists>k < 32. RoundupPowerOf2 n = 2 ^ k \<and> (n \<le> 2 ^ k \<or> k = 31)"
proof -
  have "[0..<32] \<noteq> []" by simp
  from round_loop_exp [OF this, of n 0]
  obtain k where "k \<in> set [0..<32]" "round_loop n [0..<32] 0 = 2 ^ k" "n \<le> 2 ^ k \<or> k = last [0..<32]" by blast
  then have "k < 32" "RoundupPowerOf2 n = 2 ^ k" "n \<le> 2 ^ k \<or> k = 31"
    by (simp_all only: RoundupPowerOf2_def) simp_all
  then show ?thesis by blast
qed

lemma ring_init:
  assumes "storage_packet q \<noteq> Deleted"
  shows "\<exists>q'. InitQueue junk q n = Some (True, q') \<and> ring_wf q' \<and> ring_contents q' = [] \<and> min n (2 ^ 31) \<le> q_size q'"
proof -
  let ?n = "if IsPowerOf2 n then n else RoundupPowerOf2 n"
  obtain k where k: "k < 32" "?n = 2 ^ k" "min n (2 ^ 31) \<le> 2 ^ k"
  proof (cases "IsPowerOf2 n")
    case True
    then show ?thesis using IsPowerOf2_exp [of n] that by auto
  next
    case False
    obtain k where "k < 32" "RoundupPowerOf2 n = 2 ^ k" "n \<le> 2 ^ k \<or> k = 31"
      using RoundupPowerOf2_exp [of n] by blast
    then show ?thesis using that [of k] False by (metis min.coboundedI1 min.cobounded2)
  qed
  let ?q = "\<lparr>storage_packet = Storage (replicate (unat ?n) junk), rd_idx = 0, wr_idx = 0, q_mask = ?n - 1, q_size = ?n\<rparr>"
  have "ring_wf ?q" using k by (auto simp: ring_wf_def ring_contents_def unat_exp_u32 simp del: if_split)
  then show ?thesis using assms k by (auto simp: InitQueue_def Let_def ring_contents_def)
qed

section \<open>The queue of IMU samples\<close>

text \<open>
  A \<open>std::list\<close>, oldest first. \<open>Push\<close> copies all fields but \<open>slot\<close>, which stays as the local
  variable has it (\<open>junk\<close>). The measurements are floats (\<open>'f\<close>) and are only copied.
\<close>

record 'f ImuData =
  imu_lidar_type :: u8
  imu_handle :: u32
  imu_slot :: u8
  imu_time_stamp :: u64
  gyro_x :: 'f
  gyro_y :: 'f
  gyro_z :: 'f
  acc_x :: 'f
  acc_y :: 'f
  acc_z :: 'f

definition imu_Push :: "u8 \<Rightarrow> 'f ImuData \<Rightarrow> 'f ImuData list \<Rightarrow> 'f ImuData list" where
  "imu_Push junk d q = q @ [\<lparr>imu_lidar_type = imu_lidar_type d, imu_handle = imu_handle d, imu_slot = junk,
     imu_time_stamp = imu_time_stamp d, gyro_x = gyro_x d, gyro_y = gyro_y d, gyro_z = gyro_z d,
     acc_x = acc_x d, acc_y = acc_y d, acc_z = acc_z d\<rparr>]"

definition imu_Pop :: "'f ImuData list \<Rightarrow> ('f ImuData \<times> 'f ImuData list) option" where
  "imu_Pop q = (case q of [] \<Rightarrow> None | d # ds \<Rightarrow> Some (d, ds))"

definition imu_Empty :: "'f ImuData list \<Rightarrow> bool" where
  "imu_Empty q \<longleftrightarrow> q = []"

definition imu_Clear :: "'f ImuData list \<Rightarrow> 'f ImuData list" where
  "imu_Clear q = []"

interpretation imu: fifo "\<lambda>q. True" "\<lambda>q. q" "\<lambda>q. True" "\<lambda>d q. Some (imu_Push junk d q)"
  "\<lambda>q. Some (imu_Pop q)" "\<lambda>d. imu_slot d = junk"
  for junk :: u8
  by unfold_locales (auto simp: imu_Push_def imu_Pop_def)

section \<open>What the driver may rely on\<close>

definition fresh_queue :: "'p LidarDataQueue" where
  "fresh_queue = \<lparr>storage_packet = NullStorage, rd_idx = 0, wr_idx = 0, q_mask = 0, q_size = 0\<rparr>"

text \<open>
  C23. The ring buffer of ldq.cpp is a queue: whatever sequence of inserts and removals follows
  its initialisation, what was taken out followed by what is still in it is what was accepted, in
  order; its size is at least the one asked for (up to 2^31), and it is full exactly when it holds
  that many packets.
\<close>
theorem ring_fifo:
  assumes "\<forall>x. Some x \<in> set xs \<longrightarrow> packet_ok x"
  shows "\<exists>q1 ins outs q2. InitQueue junk fresh_queue n = Some (True, q1) \<and> min n (2 ^ 31) \<le> q_size q1 \<and>
    ring.session xs q1 = Some (ins, outs, q2) \<and> ins = outs @ ring_contents q2 \<and>
    (QueueIsFull q2 \<longleftrightarrow> length (ring_contents q2) = unat (q_size q2))"
proof -
  obtain q1 where q1: "InitQueue junk fresh_queue n = Some (True, q1)" "ring_wf q1" "ring_contents q1 = []"
    "min n (2 ^ 31) \<le> q_size q1"
    using ring_init [of fresh_queue junk n] by (auto simp: fresh_queue_def)
  then obtain ins outs q2 where "ring.session xs q1 = Some (ins, outs, q2)" "ring_wf q2" "ins = outs @ ring_contents q2"
    using ring.session_fifo [OF q1(2) assms] by auto
  with q1 show ?thesis using ring_full [of q2] by blast
qed

theorem ring_fifo_witness:
  "\<exists>q1 ins outs q2. InitQueue \<lparr>base_time = 0, points_num = 0, points = []\<rparr> fresh_queue 1 = Some (True, q1) \<and>
    min 1 (2 ^ 31) \<le> q_size q1 \<and>
    ring.session [Some \<lparr>base_time = 5, points_num = 1, points = [True]\<rparr>,
      Some \<lparr>base_time = 6, points_num = 0, points = []\<rparr>, None] q1 = Some (ins, outs, q2) \<and>
    ins = outs @ ring_contents q2 \<and> (QueueIsFull q2 \<longleftrightarrow> length (ring_contents q2) = unat (q_size q2))"
  by (rule ring_fifo) (auto simp: packet_ok_def)

end
