(* ===== verification/Cache_Index.thy ===== *)
theory Cache_Index
  imports Build_Request
begin

text \<open>
  The index table of lidars (livox\_driver/src/comm/cache\_index.cpp): every lidar that is known
  to the driver has a slot of the array \<open>lidars_\<close>, found by a textual key. The table promises that
  two lidars never share a slot and that a slot is refused only when all 32 are taken.
\<close>

definition kMaxSourceLidar :: nat where "kMaxSourceLidar = 32"
definition kLivoxLidarType :: u8 where "kLivoxLidarType = 8"

section \<open>The table\<close>

record CacheIndex =
  map_index :: "string \<rightharpoonup> u8"
  index_cache :: "bool list"

definition new_CacheIndex :: CacheIndex where
  "new_CacheIndex = \<lparr>map_index = Map.empty, index_cache = replicate kMaxSourceLidar False\<rparr>"

text \<open>\<open>None\<close> is the result \<open>-1\<close>.\<close>

definition GenerateIndexKey :: "u8 \<Rightarrow> u32 \<Rightarrow> string option" where
  "GenerateIndexKey livox_lidar_type handle =
     (if livox_lidar_type = kLivoxLidarType then Some (''livox_lidar_'' @ dec (unat handle)) else None)"

text \<open>The first index from \<open>i\<close> on that is not taken, of \<open>n\<close> indices.\<close>

fun first_free :: "bool list \<Rightarrow> nat list \<Rightarrow> nat option" where
  "first_free cache [] = None"
| "first_free cache (i # is) = (if \<not> cache ! i then Some i else first_free cache is)"

definition GetFreeIndex :: "u8 \<Rightarrow> u32 \<Rightarrow> CacheIndex \<Rightarrow> u8 option \<times> CacheIndex" where
  "GetFreeIndex livox_lidar_type handle c = (case GenerateIndexKey livox_lidar_type handle of
     None \<Rightarrow> (None, c)
   | Some key \<Rightarrow> (case map_index c key of
       Some i \<Rightarrow> (Some i, c)
     | None \<Rightarrow> (case first_free (index_cache c) [0..<kMaxSourceLidar] of
         None \<Rightarrow> (None, c)
       | Some i \<Rightarrow> (Some (of_nat i), c\<lparr>index_cache := (index_cache c)[i := True],
           map_index := (map_index c)(key \<mapsto> of_nat i)\<rparr>))))"

definition GetIndex :: "u8 \<Rightarrow> u32 \<Rightarrow> CacheIndex \<Rightarrow> u8 option" where
  "GetIndex livox_lidar_type handle c = Option.bind (GenerateIndexKey livox_lidar_type handle) (map_index c)"

definition LvxGetIndex :: "u8 \<Rightarrow> u32 \<Rightarrow> CacheIndex \<Rightarrow> u8 option \<times> CacheIndex" where
  "LvxGetIndex livox_lidar_type handle c = (case GenerateIndexKey livox_lidar_type handle of
     None \<Rightarrow> (None, c)
   | Some key \<Rightarrow> (case map_index c key of
       Some i \<Rightarrow> (Some i, c)
     | None \<Rightarrow> GetFreeIndex livox_lidar_type handle c))"

definition ResetIndex :: "u8 \<Rightarrow> u32 \<Rightarrow> CacheIndex \<Rightarrow> CacheIndex" where
  "ResetIndex lidar_type handle c = (case GenerateIndexKey lidar_type handle of
     None \<Rightarrow> c
   | Some key \<Rightarrow> (case map_index c key of
       None \<Rightarrow> c
     | Some index \<Rightarrow> c\<lparr>map_index := (map_index c)(key := None),
         index_cache := (index_cache c)[unat index := False]\<rparr>))"

section \<open>The invariant\<close>

text \<open>
  The taken slots are exactly those the map leads to, and different keys lead to different
  slots: the accesses to \<open>index_cache_\<close> stay in bounds.
\<close>

definition cache_wf :: "CacheIndex \<Rightarrow> bool" where
  "cache_wf c \<longleftrightarrow> length (index_cache c) = kMaxSourceLidar \<and>
     (\<forall>k k' i. map_index c k = Some i \<longrightarrow> map_index c k' = Some i \<longrightarrow> k = k') \<and>
     (\<forall>k i. map_index c k = Some i \<longrightarrow> unat i < kMaxSourceLidar \<and> index_cache c ! unat i) \<and>
     (\<forall>i < kMaxSourceLidar. index_cache c ! i \<longrightarrow> (\<exists>k. map_index c k = Some (of_nat i)))"

lemma cache_wfD:
  assumes "cache_wf c"
  shows "length (index_cache c) = kMaxSourceLidar"
    and "map_index c k = Some i \<Longrightarrow> map_index c k' = Some i \<Longrightarrow> k = k'"
    and "map_index c k = Some i \<Longrightarrow> unat i < kMaxSourceLidar"
    and "map_index c k = Some i \<Longrightarrow> index_cache c ! unat i"
    and "n < kMaxSourceLidar \<Longrightarrow> index_cache c ! n \<Longrightarrow> \<exists>k. map_index c k = Some (of_nat n)"
  using assms unfolding cache_wf_def by blast+

lemma dec_inj: "dec m = dec n \<Longrightarrow> m = n"
  by (drule arg_cong [of _ _ dec_value]) (simp add: dec_value_dec)

lemma dec_unat_inj: "dec (unat (h :: u32)) = dec (unat h') \<longleftrightarrow> h = h'"
  using dec_inj [of "unat h" "unat h'"] by (auto dest: unsigned_word_eqI)

lemma GenerateIndexKey_inj:
  "GenerateIndexKey t h = Some k \<Longrightarrow> GenerateIndexKey t' h' = Some k \<Longrightarrow> h = h'"
  by (auto simp: GenerateIndexKey_def dec_unat_inj split: if_splits)

lemma first_free_Some: "first_free cache is = Some i \<Longrightarrow> i \<in> set is \<and> \<not> cache ! i"
  by (induction "is") (auto split: if_splits)

lemma first_free_None: "first_free cache is = None \<longleftrightarrow> (\<forall>i \<in> set is. cache ! i)"
  by (induction "is") auto

lemma unat_of_nat_slot: "i < kMaxSourceLidar \<Longrightarrow> unat (of_nat i :: u8) = i"
  by (simp add: kMaxSourceLidar_def unat_of_nat take_bit_nat_eq_self)

lemma cache_wf_new: "cache_wf new_CacheIndex"
  by (simp add: cache_wf_def new_CacheIndex_def kMaxSourceLidar_def)

lemma cache_wf_take:
  assumes "cache_wf c" "map_index c key = None" "i < kMaxSourceLidar" "\<not> index_cache c ! i"
  shows "cache_wf (c\<lparr>index_cache := (index_cache c)[i := True], map_index := (map_index c)(key \<mapsto> of_nat i)\<rparr>)"
proof -
  have new: "map_index c k \<noteq> Some (of_nat i)" for k
    using cache_wfD(4) [OF assms(1), of k "of_nat i"] assms(3,4) by (auto simp: unat_of_nat_slot)
  have "\<exists>k. ((map_index c)(key \<mapsto> of_nat i)) k = Some (of_nat n :: u8)"
    if "n < kMaxSourceLidar" "n \<noteq> i" "index_cache c ! n" for n
    using cache_wfD(5) [OF assms(1) that(1,3)] assms(2) by (metis fun_upd_other option.distinct(1))
  moreover have "\<exists>k. ((map_index c)(key \<mapsto> of_nat i)) k = Some (of_nat i :: u8)" by (rule exI [of _ key]) simp
  ultimately show ?thesis
    using assms(1,3) new by (auto simp: cache_wf_def nth_list_update unat_of_nat_slot)
qed

lemma cache_wf_release:
  assumes "cache_wf c" "map_index c key = Some i"
  shows "cache_wf (c\<lparr>map_index := (map_index c)(key := None), index_cache := (index_cache c)[unat i := False]\<rparr>)"
proof -
  have key: "k = key" if "map_index c k = Some j" "unat j = unat i" for k j
    using cache_wfD(2) [OF assms(1), of k i key] assms(2) that by (auto dest: unsigned_word_eqI)
  have "\<exists>k. ((map_index c)(key := None)) k = Some (of_nat n :: u8)"
    if n: "n < kMaxSourceLidar" "n \<noteq> unat i" "index_cache c ! n" for n
  proof -
    obtain k where "map_index c k = Some (of_nat n)" using cache_wfD(5) [OF assms(1) n(1,3)] by blast
    moreover from this n(1,2) assms(2) have "k \<noteq> key" by (auto simp: unat_of_nat_slot)
    ultimately show ?thesis by (intro exI [of _ k]) simp
  qed
  moreover have "unat i < length (index_cache c)" using cache_wfD(1,3) [OF assms(1)] assms(2) by simp
  ultimately show ?thesis
    using assms(1) key by (auto simp: cache_wf_def nth_list_update)
qed

text \<open>As many lidars are known as slots are taken.\<close>

lemma card_known:
  assumes "cache_wf c"
  shows "card (dom (map_index c)) = card {i. i < kMaxSourceLidar \<and> index_cache c ! i}"
proof (rule bij_betw_same_card)
  have "inj_on (\<lambda>k. unat (the (map_index c k))) (dom (map_index c))"
  proof (rule inj_onI)
    fix k k' assume "k \<in> dom (map_index c)" "k' \<in> dom (map_index c)"
      and eq: "unat (the (map_index c k)) = unat (the (map_index c k'))"
    then obtain i j where "map_index c k = Some i" "map_index c k' = Some j" by blast
    with eq show "k = k'" by (auto dest: unsigned_word_eqI intro: cache_wfD(2) [OF assms])
  qed
  moreover have "(\<lambda>k. unat (the (map_index c k))) ` dom (map_index c) = {i. i < kMaxSourceLidar \<and> index_cache c ! i}"
  proof (intro equalityI subsetI)
    fix i assume "i \<in> {i. i < kMaxSourceLidar \<and> index_cache c ! i}"
    then obtain k where "map_index c k = Some (of_nat i)" "i < kMaxSourceLidar" using cache_wfD(5) [OF assms] by blast
    then show "i \<in> (\<lambda>k. unat (the (map_index c k))) ` dom (map_index c)"
      by (auto simp: unat_of_nat_slot intro!: image_eqI [of _ _ k])
  qed (use cache_wfD(3,4) [OF assms] in auto)
  ultimately show "bij_betw (\<lambda>k. unat (the (map_index c k))) (dom (map_index c)) {i. i < kMaxSourceLidar \<and> index_cache c ! i}"
    by (simp add: bij_betw_def)
qed

lemma full_iff:
  assumes "cache_wf c"
  shows "first_free (index_cache c) [0..<kMaxSourceLidar] = None \<longleftrightarrow> card (dom (map_index c)) = kMaxSourceLidar"
proof
  assume "first_free (index_cache c) [0..<kMaxSourceLidar] = None"
  then have "{i. i < kMaxSourceLidar \<and> index_cache c ! i} = {..<kMaxSourceLidar}" by (auto simp: first_free_None)
  then show "card (dom (map_index c)) = kMaxSourceLidar" by (simp add: card_known [OF assms])
next
  assume "card (dom (map_index c)) = kMaxSourceLidar"
  then have "{i. i < kMaxSourceLidar \<and> index_cache c ! i} = {..<kMaxSourceLidar}"
    unfolding card_known [OF assms] by (intro card_subset_eq) auto
  then have "\<forall>i < kMaxSourceLidar. index_cache c ! i" by blast
  then show "first_free (index_cache c) [0..<kMaxSourceLidar] = None" by (simp add: first_free_None)
qed

section \<open>The calls\<close>

lemma GetFreeIndex_wf:
  assumes "cache_wf c"
  shows "cache_wf (snd (GetFreeIndex t h c))"
  using assms cache_wf_take [OF assms]
  by (auto simp: GetFreeIndex_def split: option.splits dest!: first_free_Some)

lemma LvxGetIndex_wf: "cache_wf c \<Longrightarrow> cache_wf (snd (LvxGetIndex t h c))"
  using GetFreeIndex_wf [of c t h] by (auto simp: LvxGetIndex_def split: option.splits)

lemma ResetIndex_wf: "cache_wf c \<Longrightarrow> cache_wf (ResetIndex t h c)"
  by (auto simp: ResetIndex_def cache_wf_release split: option.splits)

lemma LvxGetIndex_eq: "LvxGetIndex t h c = GetFreeIndex t h c"
  by (auto simp: LvxGetIndex_def GetFreeIndex_def split: option.splits)

text \<open>A lidar that was given a slot is found there, and nobody else moves.\<close>

lemma GetFreeIndex_gives:
  assumes "GetFreeIndex t h c = (Some i, c')"
  shows "GetIndex t h c' = Some i" "h' \<noteq> h \<Longrightarrow> GetIndex t' h' c' = GetIndex t' h' c"
proof -
  obtain key where k: "GenerateIndexKey t h = Some key"
    using assms by (auto simp: GetFreeIndex_def split: option.splits)
  then show "GetIndex t h c' = Some i"
    using assms by (auto simp: GetFreeIndex_def GetIndex_def split: option.splits)
  assume "h' \<noteq> h"
  then have "GenerateIndexKey t' h' \<noteq> Some key" using GenerateIndexKey_inj [OF k] by auto
  then show "GetIndex t' h' c' = GetIndex t' h' c"
    using assms k by (cases "GenerateIndexKey t' h'") (auto simp: GetFreeIndex_def GetIndex_def split: option.splits)
qed

lemma GetFreeIndex_refuses:
  assumes "cache_wf c"
  shows "fst (GetFreeIndex t h c) = None \<longleftrightarrow>
    t \<noteq> kLivoxLidarType \<or> GetIndex t h c = None \<and> card (dom (map_index c)) = kMaxSourceLidar"
  by (auto simp: GetFreeIndex_def GetIndex_def full_iff [OF assms, symmetric] GenerateIndexKey_def split: option.splits)

lemma ResetIndex_forgets:
  "GetIndex t h (ResetIndex t h c) = None" "h' \<noteq> h \<Longrightarrow> GetIndex t' h' (ResetIndex t h c) = GetIndex t' h' c"
  using GenerateIndexKey_inj [of t h _ t' h']
  by (auto simp: ResetIndex_def GetIndex_def bind_eq_None_conv split: option.splits bind_splits)

datatype IndexCall = CallFree u8 u32 | CallLvx u8 u32 | CallReset u8 u32

fun index_step :: "IndexCall \<Rightarrow> CacheIndex \<Rightarrow> CacheIndex" where
  "index_step (CallFree t h) c = snd (GetFreeIndex t h c)"
| "index_step (CallLvx t h) c = snd (LvxGetIndex t h c)"
| "index_step (CallReset t h) c = ResetIndex t h c"

interpretation index: machine new_CacheIndex index_step cache_wf
proof unfold_locales
  show "cache_wf (index_step e c)" if "cache_wf c" for c e
    using that by (cases e) (simp_all add: GetFreeIndex_wf LvxGetIndex_wf ResetIndex_wf)
qed (rule cache_wf_new)

lemma GetIndex_distinct:
  assumes "cache_wf c" "GetIndex t h c = Some i" "GetIndex t' h' c = Some i"
  shows "h = h' \<and> unat i < kMaxSourceLidar"
  using assms cache_wfD(2,3) [OF assms(1)]
  by (auto simp: GetIndex_def bind_eq_Some_conv intro: GenerateIndexKey_inj)

section \<open>What the driver may rely on\<close>

text \<open>
  C25. After any sequence of calls no two lidars share a slot of the driver, and every slot handed
  out is below the number of lidars.
\<close>
theorem cache_slots:
  assumes "GetIndex t h (run index_step calls new_CacheIndex) = Some i"
    and "GetIndex t' h' (run index_step calls new_CacheIndex) = Some i"
  shows "h = h' \<and> unat i < kMaxSourceLidar"
  using index.inv_run assms by (rule GetIndex_distinct)

theorem cache_slots_witness: "(7 :: u32) = 7 \<and> unat (1 :: u8) < kMaxSourceLidar"
  by (rule cache_slots [where calls = "[CallFree 8 5, CallFree 8 7, CallReset 8 5]" and t = 8 and t' = 8])
    (code_simp, code_simp)

text \<open>
  A slot is refused exactly when the lidar has none and all slots are taken.
\<close>
theorem cache_refusal:
  assumes "c = run index_step calls new_CacheIndex"
  shows "fst (GetFreeIndex kLivoxLidarType h c) = None \<longleftrightarrow>
    GetIndex kLivoxLidarType h c = None \<and> card (dom (map_index c)) = kMaxSourceLidar"
  using GetFreeIndex_refuses [OF index.inv_run, of kLivoxLidarType h calls] unfolding assms by blast

theorem cache_refusal_witness:
  "fst (GetFreeIndex kLivoxLidarType 1 new_CacheIndex) = None \<longleftrightarrow>
    GetIndex kLivoxLidarType 1 new_CacheIndex = None \<and> card (dom (map_index new_CacheIndex)) = kMaxSourceLidar"
  by (rule cache_refusal [where calls = "[]"]) simp

end
