(* ===== verification/Lds.thy ===== *)
theory Lds
  imports Complex_Main Driver_Queue Cache_Index
begin

text \<open>
  The data source of the ROS driver (livox\_driver/src/lds.cpp, comm/semaphore.cpp,
  call\_back/lidar\_common\_callback.cpp): the array of 32 lidar devices, each with its packet
  ring and its IMU list, that the SDK's threads fill and the publishing threads empty. A
  frame of packets is stored packet by packet in the ring of the lidar it came from.
\<close>

section \<open>State\<close>

datatype LidarConnectState =
  kConnectStateOff | kConnectStateOn | kConnectStateConfig | kConnectStateSampling

record 'f ExtParameter =
  ext_roll :: 'f
  ext_pitch :: 'f
  ext_yaw :: 'f
  ext_x :: "32 word"
  ext_y :: "32 word"
  ext_z :: "32 word"

text \<open>The signed fields are kept as words: \<open>-1\<close> is ``not configured''.\<close>

record 'f UserLivoxLidarConfig =
  cfg_handle :: u32
  pcl_data_type :: "8 word"
  pattern_mode :: "8 word"
  blind_spot_set :: "32 word"
  dual_emit_en :: "8 word"
  extrinsic_param :: "'f ExtParameter"
  set_bits :: u32
  get_bits :: u32

record ('p, 'f) LidarDevice =
  dev_lidar_type :: u8
  dev_device_type :: u8
  dev_handle :: u32
  dev_data_src :: u8
  connect_state :: LidarConnectState
  dev_data :: "'p LidarDataQueue"
  dev_imu_data :: "'f ImuData list"
  firmware_ver :: u32
  livox_config :: "'f UserLivoxLidarConfig"

record ('p, 'f) Lds =
  lidar_count :: nat
  lidars :: "('p, 'f) LidarDevice list"
  pcd_semaphore :: int
  imu_semaphore :: int
  cache_index :: CacheIndex
  publish_freq :: rat
  lds_data_src :: u8
  request_exit :: bool

text \<open>What a producer puts into a semaphore it finds at zero; the count is read without the lock.\<close>

definition Signal :: "int \<Rightarrow> int" where
  "Signal n = n + 1"

definition signal_if_zero :: "int \<Rightarrow> int" where
  "signal_if_zero n = (if n \<le> 0 then Signal n else n)"

text \<open>\<open>None\<close> is a caller that waits.\<close>

definition Wait :: "int \<Rightarrow> int option" where
  "Wait n = (if n > 0 then Some (n - 1) else None)"

definition update_lidar ::
  "nat \<Rightarrow> (('p, 'f) LidarDevice \<Rightarrow> ('p, 'f) LidarDevice) \<Rightarrow> ('p, 'f) Lds \<Rightarrow> ('p, 'f) Lds" where
  "update_lidar i f s = s\<lparr>lidars := (lidars s)[i := f (lidars s ! i)]\<rparr>"

section \<open>Operations\<close>

text \<open>A finite double is a rational; its conversion is undefined beyond the range of the type.\<close>

definition CalculatePacketQueueSize :: "rat \<Rightarrow> u32 option" where
  "CalculatePacketQueueSize freq =
     (if freq > 10 then if freq < 2 ^ 32 then Some (of_int \<lfloor>freq\<rfloor> + 1) else None else Some 10)"

definition ResetLidar :: "u8 \<Rightarrow> ('p, 'f) LidarDevice \<Rightarrow> ('p, 'f) LidarDevice option" where
  "ResetLidar src lidar = do {
     (_, q) \<leftarrow> DeInitQueue (dev_data lidar);
     Some (lidar\<lparr>dev_data := q, dev_imu_data := imu_Clear (dev_imu_data lidar), dev_data_src := src,
       connect_state := kConnectStateOff\<rparr>) }"

definition SetLidarDataSrc :: "u8 \<Rightarrow> ('p, 'f) LidarDevice \<Rightarrow> ('p, 'f) LidarDevice" where
  "SetLidarDataSrc src lidar = lidar\<lparr>dev_data_src := src\<rparr>"

fun reset_all :: "u8 \<Rightarrow> ('p, 'f) LidarDevice list \<Rightarrow> ('p, 'f) LidarDevice list option" where
  "reset_all src [] = Some []"
| "reset_all src (d # ds) = do { d \<leftarrow> ResetLidar src d; ds \<leftarrow> reset_all src ds; Some (d # ds) }"

definition ResetLds :: "u8 \<Rightarrow> ('p, 'f) Lds \<Rightarrow> ('p, 'f) Lds option" where
  "ResetLds src s = do {
     ds \<leftarrow> reset_all src (lidars s);
     Some (s\<lparr>lidar_count := kMaxSourceLidar, lidars := ds\<rparr>) }"

text \<open>
  The object is static: before the constructor runs every device is zero, except for what the
  members' own initialisers set.
\<close>

definition zero_device :: "'f \<Rightarrow> ('p, 'f) LidarDevice" where
  "zero_device z = \<lparr>dev_lidar_type = 0, dev_device_type = 0, dev_handle = 0, dev_data_src = 0,
     connect_state = kConnectStateOff, dev_data = fresh_queue, dev_imu_data = [], firmware_ver = 0,
     livox_config = \<lparr>cfg_handle = 0, pcl_data_type = 0, pattern_mode = 0, blind_spot_set = 0, dual_emit_en = 0,
       extrinsic_param = \<lparr>ext_roll = z, ext_pitch = z, ext_yaw = z, ext_x = 0, ext_y = 0, ext_z = 0\<rparr>,
       set_bits = 0, get_bits = 0\<rparr>\<rparr>"

definition new_Lds :: "'f \<Rightarrow> rat \<Rightarrow> u8 \<Rightarrow> ('p, 'f) Lds option" where
  "new_Lds z freq src = ResetLds src
     \<lparr>lidar_count = kMaxSourceLidar, lidars = replicate kMaxSourceLidar (zero_device z), pcd_semaphore = 0,
      imu_semaphore = 0, cache_index = new_CacheIndex, publish_freq = freq, lds_data_src = src, request_exit = False\<rparr>"

definition RequestExit :: "('p, 'f) Lds \<Rightarrow> ('p, 'f) Lds" where
  "RequestExit s = s\<lparr>request_exit := True\<rparr>"

definition IsAllQueueEmpty :: "('p, 'f) Lds \<Rightarrow> bool" where
  "IsAllQueueEmpty s \<longleftrightarrow> (\<forall>d \<in> set (take (lidar_count s) (lidars s)). QueueIsEmpty (dev_data d))"

definition IsAllQueueReadStop :: "('p, 'f) Lds \<Rightarrow> bool" where
  "IsAllQueueReadStop s \<longleftrightarrow> (\<forall>d \<in> set (take (lidar_count s) (lidars s)). QueueUsedSize (dev_data d) = 0)"

text \<open>A packet of points, and a frame of packets: the array holds 32, \<open>lidar_num\<close> of them are meant.\<close>

record 'p PointPacket =
  pkt_handle :: u32
  pkt_lidar_type :: u8
  pkt_points_num :: u32
  pkt_points :: "'p list"

record 'p PointFrame =
  frame_base_time :: "u64 list"
  frame_lidar_num :: u8
  frame_lidar_point :: "'p PointPacket list"

text \<open>A queue is created by the first packet; a full one drops the packet. The reader is woken either way.\<close>

definition PushLidarData ::
  "'p StoragePacket \<Rightarrow> 'p PointPacket \<Rightarrow> u8 \<Rightarrow> u64 \<Rightarrow> ('p, 'f) Lds \<Rightarrow> ('p, 'f) Lds option" where
  "PushLidarData junk p index time s =
     (if length (lidars s) \<le> unat index then None
      else do {
        let q = dev_data (lidars s ! unat index);
        q \<leftarrow> (if storage_packet q = NullStorage
             then do { n \<leftarrow> CalculatePacketQueueSize (publish_freq s); (_, q) \<leftarrow> InitQueue junk q n; Some q }
             else Some q);
        q' \<leftarrow> (if \<not> QueueIsFull q then QueuePushAny (pkt_points_num p) (pkt_points p) time q else Some q);
        let s = update_lidar (unat index) (dev_data_update (\<lambda>_. q')) s;
        Some (if \<not> QueueIsFull q \<and> QueueIsEmpty q' then s
              else s\<lparr>pcd_semaphore := signal_if_zero (pcd_semaphore s)\<rparr>) })"

fun store_points ::
  "'p StoragePacket \<Rightarrow> ('p PointPacket \<times> u64) list \<Rightarrow> ('p, 'f) Lds \<Rightarrow> ('p, 'f) Lds option" where
  "store_points junk [] s = Some s"
| "store_points junk ((p, time) # ps) s = (case GetIndex (pkt_lidar_type p) (pkt_handle p) (cache_index s) of
     None \<Rightarrow> store_points junk ps s
   | Some index \<Rightarrow> do { s \<leftarrow> PushLidarData junk p index time s; store_points junk ps s })"

text \<open>The entries of a frame that the loops read; beyond the arrays they do not exist.\<close>

definition frame_entries :: "'p PointFrame \<Rightarrow> ('p PointPacket \<times> u64) list option" where
  "frame_entries frame =
     (let n = unat (frame_lidar_num frame) in
      if n \<le> length (frame_lidar_point frame) \<and> n \<le> length (frame_base_time frame)
      then Some (zip (take n (frame_lidar_point frame)) (take n (frame_base_time frame))) else None)"

definition StoragePointData :: "'p StoragePacket \<Rightarrow> 'p PointFrame \<Rightarrow> ('p, 'f) Lds \<Rightarrow> ('p, 'f) Lds option" where
  "StoragePointData junk frame s = do { ps \<leftarrow> frame_entries frame; store_points junk ps s }"

text \<open>The variant for recorded files takes a slot for a lidar it does not know and marks it as sampling.\<close>

fun store_lvx_points ::
  "'p StoragePacket \<Rightarrow> ('p PointPacket \<times> u64) list \<Rightarrow> ('p, 'f) Lds \<Rightarrow> ('p, 'f) Lds option" where
  "store_lvx_points junk [] s = Some s"
| "store_lvx_points junk ((p, time) # ps) s = (case LvxGetIndex (pkt_lidar_type p) (pkt_handle p) (cache_index s) of
     (None, c) \<Rightarrow> store_lvx_points junk ps (s\<lparr>cache_index := c\<rparr>)
   | (Some index, c) \<Rightarrow> do {
       let s = update_lidar (unat index) (connect_state_update (\<lambda>_. kConnectStateSampling)) (s\<lparr>cache_index := c\<rparr>);
       s \<leftarrow> PushLidarData junk p index time s;
       store_lvx_points junk ps s })"

definition StorageLvxPointData :: "'p StoragePacket \<Rightarrow> 'p PointFrame \<Rightarrow> ('p, 'f) Lds \<Rightarrow> ('p, 'f) Lds option" where
  "StorageLvxPointData junk frame s = do { ps \<leftarrow> frame_entries frame; store_lvx_points junk ps s }"

definition StorageImuData :: "u8 \<Rightarrow> 'f ImuData \<Rightarrow> ('p, 'f) Lds \<Rightarrow> ('p, 'f) Lds option" where
  "StorageImuData junk d s =
     (if imu_lidar_type d \<noteq> kLivoxLidarType then Some s
      else case GetIndex (imu_lidar_type d) (imu_handle d) (cache_index s) of
        None \<Rightarrow> Some s
      | Some index \<Rightarrow>
          if length (lidars s) \<le> unat index then None
          else let s' = update_lidar (unat index) (dev_imu_data_update (imu_Push junk d)) s in
            Some (if imu_Empty (dev_imu_data (lidars s' ! unat index)) then s'
                  else s'\<lparr>imu_semaphore := signal_if_zero (imu_semaphore s')\<rparr>))"

text \<open>The callbacks of the SDK's data threads; \<open>has_client\<close> is whether \<open>client_data\<close> is not null.\<close>

definition OnLidarPointClounCb ::
  "bool \<Rightarrow> 'p StoragePacket \<Rightarrow> 'p PointFrame option \<Rightarrow> ('p, 'f) Lds \<Rightarrow> ('p, 'f) Lds option" where
  "OnLidarPointClounCb has_client junk frame s = (case frame of
     None \<Rightarrow> Some s
   | Some frame \<Rightarrow> if \<not> has_client \<or> frame_lidar_num frame = 0 then Some s else StoragePointData junk frame s)"

definition LidarImuDataCallback :: "bool \<Rightarrow> u8 \<Rightarrow> 'f ImuData option \<Rightarrow> ('p, 'f) Lds \<Rightarrow> ('p, 'f) Lds option" where
  "LidarImuDataCallback has_client junk d s = (case d of
     None \<Rightarrow> Some s
   | Some d \<Rightarrow> if \<not> has_client then Some s else StorageImuData junk d s)"

section \<open>Every packet in the ring of its lidar\<close>

text \<open>
  \<open>opened\<close> is the queue as the first packet finds it; the capacity of a lidar is the size of
  that queue. Seen from outside, storing a packet appends it while there is room.
\<close>

definition queue_ok :: "'p LidarDataQueue \<Rightarrow> bool" where
  "queue_ok q \<longleftrightarrow> storage_packet q = NullStorage \<or> ring_wf q"

definition opened :: "'p StoragePacket \<Rightarrow> rat \<Rightarrow> 'p LidarDataQueue \<Rightarrow> 'p LidarDataQueue option" where
  "opened junk freq q =
     (if storage_packet q = NullStorage
      then do { n \<leftarrow> CalculatePacketQueueSize freq; (_, q) \<leftarrow> InitQueue junk q n; Some q } else Some q)"

definition lds_wf :: "('p, 'f) Lds \<Rightarrow> bool" where
  "lds_wf s \<longleftrightarrow> lidar_count s = kMaxSourceLidar \<and> length (lidars s) = kMaxSourceLidar \<and> cache_wf (cache_index s) \<and>
     publish_freq s < 2 ^ 32 \<and> 0 \<le> pcd_semaphore s \<and> 0 \<le> imu_semaphore s \<and> (\<forall>d \<in> set (lidars s). queue_ok (dev_data d))"

definition contents :: "('p, 'f) Lds \<Rightarrow> nat \<Rightarrow> 'p StoragePacket list" where
  "contents s i = ring_contents (dev_data (lidars s ! i))"

definition capacity :: "'p StoragePacket \<Rightarrow> ('p, 'f) Lds \<Rightarrow> nat \<Rightarrow> nat" where
  "capacity junk s i = unat (q_size (the (opened junk (publish_freq s) (dev_data (lidars s ! i)))))"

definition accepted :: "nat \<Rightarrow> 'a list \<Rightarrow> 'a list \<Rightarrow> 'a list" where
  "accepted cap q xs = q @ take (cap - length q) xs"

definition stored :: "'p PointPacket \<times> u64 \<Rightarrow> 'p StoragePacket" where
  "stored p = \<lparr>base_time = snd p, points_num = pkt_points_num (fst p), points = pkt_points (fst p)\<rparr>"

definition index_of :: "CacheIndex \<Rightarrow> 'p PointPacket \<times> u64 \<Rightarrow> nat option" where
  "index_of c p = map_option unat (GetIndex (pkt_lidar_type (fst p)) (pkt_handle (fst p)) c)"

lemma opened_ok:
  assumes "queue_ok q" "freq < 2 ^ 32"
  shows "\<exists>q'. opened junk freq q = Some q' \<and> ring_wf q' \<and> ring_contents q' = ring_contents q"
proof (cases "storage_packet q = NullStorage")
  case True
  obtain n where "CalculatePacketQueueSize freq = Some n" using assms(2) by (cases "freq > 10") (auto simp: CalculatePacketQueueSize_def)
  moreover obtain q' where "InitQueue junk q n = Some (True, q')" "ring_wf q'" "ring_contents q' = []"
    using ring_init [of q junk n] True by auto
  ultimately show ?thesis using True by (auto simp: opened_def ring_contents_def [of q])
next
  case False
  then show ?thesis using assms(1) by (simp add: opened_def queue_ok_def)
qed

lemma opened_ring: "ring_wf q \<Longrightarrow> opened junk freq q = Some q"
  by (auto simp: opened_def ring_wf_def)

lemma push_size: "QueuePushAny n pts t q = Some q' \<Longrightarrow> q_size q' = q_size q"
  by (auto simp: QueuePushAny_def Let_def split: storage.splits if_splits)

lemma accepted_Cons:
  "accepted cap q (x # xs) = accepted cap (accepted cap q [x]) xs"
  by (auto simp: accepted_def take_Cons' Suc_diff_Suc)

lemma accepted_Nil [simp]: "accepted cap q [] = q"
  by (simp add: accepted_def)

text \<open>One packet.\<close>

lemma signal_if_zero_pos: "0 \<le> n \<Longrightarrow> 0 < signal_if_zero n"
  by (simp add: signal_if_zero_def Signal_def)

lemma PushLidarData_accepts:
  assumes "lds_wf s" "unat index < kMaxSourceLidar" "packet_ok (stored (p, t))"
  shows "\<exists>s'. PushLidarData junk p index t s = Some s' \<and> lds_wf s' \<and> 0 < pcd_semaphore s' \<and>
    pcd_semaphore s \<le> pcd_semaphore s' \<and> cache_index s' = cache_index s \<and> request_exit s' = request_exit s \<and>
    (\<forall>j. connect_state (lidars s' ! j) = connect_state (lidars s ! j)) \<and> (\<forall>j. capacity junk s' j = capacity junk s j) \<and>
    contents s' = (contents s)(unat index := accepted (capacity junk s (unat index)) (contents s (unat index)) [stored (p, t)])"
proof -
  let ?i = "unat index"
  let ?q = "dev_data (lidars s ! ?i)"
  have len: "?i < length (lidars s)" using assms by (simp add: lds_wf_def)
  then have "queue_ok ?q" "publish_freq s < 2 ^ 32" using assms(1) by (auto simp: lds_wf_def)
  then obtain q1 where q1: "opened junk (publish_freq s) ?q = Some q1" "ring_wf q1" "ring_contents q1 = ring_contents ?q"
    using opened_ok by blast
  have cap: "capacity junk s ?i = unat (q_size q1)" using q1 by (simp add: capacity_def)
  obtain q2 where q2: "(if \<not> QueueIsFull q1 then QueuePushAny (pkt_points_num p) (pkt_points p) t q1 else Some q1) = Some q2"
    "ring_wf q2" "ring_contents q2 = accepted (unat (q_size q1)) (ring_contents q1) [stored (p, t)]" "q_size q2 = q_size q1"
    "QueueIsFull q1 \<or> \<not> QueueIsEmpty q2"
  proof (cases "QueueIsFull q1")
    case True
    then show ?thesis using that [of q1] q1(2) ring_full [OF q1(2)] by (simp add: accepted_def)
  next
    case False
    obtain q' where q': "QueuePushAny (pkt_points_num p) (pkt_points p) t q1 = Some q'" "ring_wf q'"
      "ring_contents q' = ring_contents q1 @ [stored (p, t)]"
      using ring_push [OF q1(2) False assms(3)] by (auto simp: stored_def)
    have "length (ring_contents q1) < unat (q_size q1)" using ring_wf_bound [OF q1(2)] ring_full [OF q1(2)] False by simp
    moreover have "\<not> QueueIsEmpty q'" using ring_used [OF q'(2)] q'(3) by (auto simp: QueueIsEmpty_def QueueUsedSize_def)
    ultimately show ?thesis using that [of q'] q' False push_size [OF q'(1)] by (simp add: accepted_def)
  qed
  let ?s = "(update_lidar ?i (dev_data_update (\<lambda>_. q2)) s)\<lparr>pcd_semaphore := signal_if_zero (pcd_semaphore s)\<rparr>"
  have "PushLidarData junk p index t s = Some ?s"
    using len q1(1) q2(1,5) unfolding PushLidarData_def opened_def [symmetric]
    by (auto simp: Let_def update_lidar_def)
  moreover have "lds_wf ?s"
    using assms(1) len q2(2) signal_if_zero_pos [of "pcd_semaphore s"]
    by (auto simp: lds_wf_def update_lidar_def queue_ok_def dest!: set_update_subset_insert [THEN subsetD])
  moreover have "contents ?s = (contents s)(?i := accepted (capacity junk s ?i) (contents s ?i) [stored (p, t)])"
    using len q1(3) q2(3) by (auto simp: contents_def update_lidar_def nth_list_update cap fun_eq_iff)
  moreover have "capacity junk ?s j = capacity junk s j" for j
    using len cap opened_ring [OF q2(2)] q2(4) by (auto simp: capacity_def update_lidar_def nth_list_update)
  moreover have "0 < pcd_semaphore ?s" "pcd_semaphore s \<le> pcd_semaphore ?s"
    using assms(1) by (simp_all add: lds_wf_def signal_if_zero_pos) (simp add: signal_if_zero_def Signal_def)
  moreover have "connect_state (lidars ?s ! j) = connect_state (lidars s ! j)" for j
    using len by (cases "j = ?i") (simp_all add: update_lidar_def)
  ultimately show ?thesis by (intro exI [of _ ?s]) (simp add: update_lidar_def)
qed

text \<open>All packets of a frame.\<close>

lemma index_of_bound: "lds_wf s \<Longrightarrow> index_of (cache_index s) p = Some i \<Longrightarrow> i < kMaxSourceLidar"
  by (auto simp: index_of_def lds_wf_def GetIndex_def bind_eq_Some_conv intro: cache_wfD(3))

lemma store_points_accepts:
  assumes "lds_wf s" "\<forall>p \<in> set ps. packet_ok (stored p)"
  shows "\<exists>s'. store_points junk ps s = Some s' \<and> lds_wf s' \<and> cache_index s' = cache_index s \<and>
    request_exit s' = request_exit s \<and> (\<forall>j. connect_state (lidars s' ! j) = connect_state (lidars s ! j)) \<and>
    (\<forall>i. capacity junk s' i = capacity junk s i \<and> contents s' i = accepted (capacity junk s i) (contents s i)
      (map stored (filter (\<lambda>p. index_of (cache_index s) p = Some i) ps))) \<and>
    pcd_semaphore s \<le> pcd_semaphore s' \<and>
    ((\<exists>p \<in> set ps. index_of (cache_index s) p \<noteq> None) \<longrightarrow> 0 < pcd_semaphore s')"
  using assms
proof (induction ps arbitrary: s)
  case (Cons e ps)
  obtain p t where e: "e = (p, t)" by (cases e)
  show ?case
  proof (cases "GetIndex (pkt_lidar_type p) (pkt_handle p) (cache_index s)")
    case None
    then show ?thesis using Cons.IH [OF Cons.prems(1)] Cons.prems(2) by (auto simp: e index_of_def)
  next
    case (Some index)
    then have i: "index_of (cache_index s) e = Some (unat index)" by (simp add: e index_of_def)
    have ok: "packet_ok (stored (p, t))" using Cons.prems(2) e by simp
    obtain s1 where s1: "PushLidarData junk p index t s = Some s1" "lds_wf s1" "0 < pcd_semaphore s1"
      "pcd_semaphore s \<le> pcd_semaphore s1"
      "cache_index s1 = cache_index s" "request_exit s1 = request_exit s"
      "\<forall>j. connect_state (lidars s1 ! j) = connect_state (lidars s ! j)" "\<forall>j. capacity junk s1 j = capacity junk s j"
      "contents s1 = (contents s)(unat index := accepted (capacity junk s (unat index)) (contents s (unat index)) [stored e])"
      using PushLidarData_accepts [OF Cons.prems(1) index_of_bound [OF Cons.prems(1) i] ok, of junk, folded e] by blast
    obtain s2 where s2: "store_points junk ps s1 = Some s2" "lds_wf s2" "cache_index s2 = cache_index s1"
      "request_exit s2 = request_exit s1" "\<forall>j. connect_state (lidars s2 ! j) = connect_state (lidars s1 ! j)"
      "\<forall>i. capacity junk s2 i = capacity junk s1 i \<and> contents s2 i = accepted (capacity junk s1 i) (contents s1 i)
        (map stored (filter (\<lambda>p. index_of (cache_index s1) p = Some i) ps))" "pcd_semaphore s1 \<le> pcd_semaphore s2"
      using Cons.IH [OF s1(2)] Cons.prems(2) by auto
    have "contents s2 j = accepted (capacity junk s j) (contents s j)
        (map stored (filter (\<lambda>p. index_of (cache_index s) p = Some j) (e # ps)))" for j
    proof (cases "j = unat index")
      case True
      then show ?thesis using s2(6) s1(5,8,9) i by (simp add: accepted_Cons [symmetric])
    next
      case False
      then show ?thesis using s2(6) s1(5,8,9) i by simp
    qed
    moreover have "store_points junk (e # ps) s = Some s2" using s1(1) s2(1) Some by (simp add: e)
    ultimately show ?thesis using s1 s2 by (intro exI [of _ s2]) simp
  qed
qed auto

text \<open>A fresh data source is well-formed and its queues are empty.\<close>

lemma reset_all_fresh:
  "reset_all src (replicate n (zero_device z)) = Some (replicate n ((zero_device z)\<lparr>dev_data_src := src\<rparr>))"
  by (induction n) (simp_all add: ResetLidar_def DeInitQueue_def zero_device_def fresh_queue_def imu_Clear_def)

lemma new_Lds_wf:
  assumes "freq < 2 ^ 32"
  shows "\<exists>s. new_Lds z freq src = Some s \<and> lds_wf s \<and> (\<forall>i < kMaxSourceLidar. contents s i = [])"
proof -
  have "new_Lds z freq src = Some \<lparr>lidar_count = kMaxSourceLidar,
      lidars = replicate kMaxSourceLidar ((zero_device z)\<lparr>dev_data_src := src\<rparr>), pcd_semaphore = 0, imu_semaphore = 0,
      cache_index = new_CacheIndex, publish_freq = freq, lds_data_src = src, request_exit = False\<rparr>"
    by (simp add: new_Lds_def ResetLds_def reset_all_fresh)
  with assms show ?thesis
    by (auto simp: lds_wf_def cache_wf_new queue_ok_def contents_def zero_device_def fresh_queue_def ring_contents_def)
qed

end
