(* ===== verification/Lddc.thy ===== *)
theory Lddc
  imports Lds
begin

text \<open>
  The publishing side of the ROS driver (livox\_driver/src/lddc.cpp, built for ROS 2): the
  loops that empty the rings of the sampling lidars, the messages they build, and the
  publishers with their topic names. Floats are their bit patterns; publishing is the list of
  the messages handed to ROS.
\<close>

section \<open>Messages\<close>

record PointXyzlt =
  pt_x :: u32
  pt_y :: u32
  pt_z :: u32
  pt_intensity :: u32
  pt_tag :: u8
  pt_line :: u8
  pt_offset_time :: u64

datatype PointFieldType = FLOAT32 | FLOAT64 | UINT8

record PointField =
  field_name :: string
  field_offset :: nat
  field_datatype :: PointFieldType
  field_count :: nat

record PointCloud2 =
  pc_frame_id :: string
  pc_stamp :: u64
  pc_height :: u32
  pc_width :: u32
  pc_fields :: "PointField list"
  pc_is_bigendian :: bool
  pc_point_step :: u32
  pc_row_step :: u32
  pc_data :: "u8 list"
  pc_is_dense :: bool

record CustomPoint =
  cp_offset_time :: u32
  cp_x :: u32
  cp_y :: u32
  cp_z :: u32
  cp_reflectivity :: u8
  cp_tag :: u8
  cp_line :: u8

record CustomMsg =
  cm_frame_id :: string
  cm_stamp :: u64
  cm_timebase :: u64
  cm_point_num :: u32
  cm_lidar_id :: u8
  cm_points :: "CustomPoint list"

record ImuMsg =
  im_frame_id :: string
  im_stamp :: u64
  angular_velocity :: "u32 \<times> u32 \<times> u32"
  linear_acceleration :: "u32 \<times> u32 \<times> u32"

text \<open>A publisher has a type and a topic; the null pointer is \<open>None\<close>.\<close>

datatype Publisher = CloudPublisher string | CustomPublisher string | ImuPublisher string

datatype RosMsg = CloudMsg string PointCloud2 | CustomCloudMsg string CustomMsg | ImuDataMsg string ImuMsg

record Lddc =
  transfer_format :: u8
  use_multi_topic :: bool
  output_type :: u8
  frame_id :: string
  imu_frame_id :: string
  private_pub :: "nat \<rightharpoonup> Publisher"
  global_pub :: "Publisher option"
  private_imu_pub :: "nat \<rightharpoonup> Publisher"
  global_imu_pub :: "Publisher option"

text \<open>
  The conversions between number types that the code leaves to the machine: an unsigned long to
  the nearest double, and a float that holds a small integer to a byte.
\<close>

record machine_floats =
  to_double :: "u64 \<Rightarrow> u64"
  float_to_u8 :: "u32 \<Rightarrow> u8"

definition kPointCloud2Msg :: u8 where "kPointCloud2Msg = 0"
definition kLivoxCustomMsg :: u8 where "kLivoxCustomMsg = 1"
definition kPclPxyziMsg :: u8 where "kPclPxyziMsg = 2"
definition kLivoxImuMsg :: u8 where "kLivoxImuMsg = 3"
definition kOutputToRos :: u8 where "kOutputToRos = 0"

definition new_Lddc :: "u8 \<Rightarrow> bool \<Rightarrow> u8 \<Rightarrow> string \<Rightarrow> string \<Rightarrow> Lddc" where
  "new_Lddc format multi_topic output frame imu_frame =
     \<lparr>transfer_format = format, use_multi_topic = multi_topic, output_type = output, frame_id = frame,
      imu_frame_id = (if imu_frame = [] then frame else imu_frame), private_pub = Map.empty, global_pub = None,
      private_imu_pub = Map.empty, global_imu_pub = None\<rparr>"

section \<open>The point cloud message\<close>

text \<open>\<open>sizeof (LivoxPointXyzrtlt)\<close>, a packed struct, and its bytes.\<close>

definition point_size :: nat where "point_size = 26"

definition point_bytes :: "machine_floats \<Rightarrow> PointXyzlt \<Rightarrow> u8 list" where
  "point_bytes mf p = le32 (pt_x p) @ le32 (pt_y p) @ le32 (pt_z p) @ le32 (pt_intensity p) @ [pt_tag p, pt_line p] @
     le64 (to_double mf (pt_offset_time p))"

definition InitPointcloud2MsgHeader :: "Lddc \<Rightarrow> PointCloud2 \<Rightarrow> PointCloud2" where
  "InitPointcloud2MsgHeader l cloud = cloud\<lparr>pc_frame_id := frame_id l, pc_height := 1, pc_width := 0,
     pc_fields :=
      [\<lparr>field_name = ''x'', field_offset = 0, field_datatype = FLOAT32, field_count = 1\<rparr>,
       \<lparr>field_name = ''y'', field_offset = 4, field_datatype = FLOAT32, field_count = 1\<rparr>,
       \<lparr>field_name = ''z'', field_offset = 8, field_datatype = FLOAT32, field_count = 1\<rparr>,
       \<lparr>field_name = ''intensity'', field_offset = 12, field_datatype = FLOAT32, field_count = 1\<rparr>,
       \<lparr>field_name = ''tag'', field_offset = 16, field_datatype = UINT8, field_count = 1\<rparr>,
       \<lparr>field_name = ''line'', field_offset = 17, field_datatype = UINT8, field_count = 1\<rparr>,
       \<lparr>field_name = ''timestamp'', field_offset = 18, field_datatype = FLOAT64, field_count = 1\<rparr>],
     pc_point_step := of_nat point_size\<rparr>"

text \<open>A message as its default constructor leaves it.\<close>

definition empty_cloud :: PointCloud2 where
  "empty_cloud = \<lparr>pc_frame_id = [], pc_stamp = 0, pc_height = 0, pc_width = 0, pc_fields = [], pc_is_bigendian = False,
     pc_point_step = 0, pc_row_step = 0, pc_data = [], pc_is_dense = False\<rparr>"

text \<open>The loops read \<open>points_num\<close> points of the packet; fewer would be read out of bounds.\<close>

definition packet_points :: "PointXyzlt StoragePacket \<Rightarrow> PointXyzlt list option" where
  "packet_points pkg =
     (if unat (points_num pkg) \<le> length (points pkg) then Some (take (unat (points_num pkg)) (points pkg)) else None)"

definition InitPointcloud2Msg ::
  "machine_floats \<Rightarrow> Lddc \<Rightarrow> PointXyzlt StoragePacket \<Rightarrow> (PointCloud2 \<times> u64) option" where
  "InitPointcloud2Msg mf l pkg = do {
     let cloud = InitPointcloud2MsgHeader l empty_cloud;
     let timestamp = (if points pkg \<noteq> [] then base_time pkg else 0);
     pts \<leftarrow> packet_points pkg;
     Some (cloud\<lparr>pc_point_step := of_nat point_size, pc_width := points_num pkg,
       pc_row_step := points_num pkg * of_nat point_size, pc_is_bigendian := False, pc_is_dense := True,
       pc_stamp := timestamp, pc_data := concat (map (point_bytes mf) pts)\<rparr>, timestamp) }"

section \<open>The custom message\<close>

text \<open>\<open>lidar_id\<close> is a byte of the message: the handle, an IPv4 address, is cut to its first part.\<close>

definition InitCustomMsg :: "Lddc \<Rightarrow> ('p, 'f) Lds \<Rightarrow> PointXyzlt StoragePacket \<Rightarrow> nat \<Rightarrow> CustomMsg" where
  "InitCustomMsg l s pkg index =
     (let timestamp = (if points pkg \<noteq> [] then base_time pkg else 0); d = lidars s ! index
      in \<lparr>cm_frame_id = frame_id l, cm_stamp = timestamp, cm_timebase = timestamp, cm_point_num = points_num pkg,
          cm_lidar_id = (if dev_lidar_type d = kLivoxLidarType then ucast (dev_handle d) else 0), cm_points = []\<rparr>)"

definition custom_point :: "machine_floats \<Rightarrow> u64 \<Rightarrow> PointXyzlt \<Rightarrow> CustomPoint" where
  "custom_point mf time p = \<lparr>cp_offset_time = ucast (pt_offset_time p - time), cp_x = pt_x p, cp_y = pt_y p,
     cp_z = pt_z p, cp_reflectivity = float_to_u8 mf (pt_intensity p), cp_tag = pt_tag p, cp_line = pt_line p\<rparr>"

definition FillPointsToCustomMsg :: "machine_floats \<Rightarrow> CustomMsg \<Rightarrow> PointXyzlt StoragePacket \<Rightarrow> CustomMsg option" where
  "FillPointsToCustomMsg mf m pkg = do {
     pts \<leftarrow> packet_points pkg;
     Some (m\<lparr>cm_points := cm_points m @ map (custom_point mf (base_time pkg)) pts\<rparr>) }"

section \<open>The IMU message\<close>

definition InitImuMsg :: "Lddc \<Rightarrow> u32 ImuData \<Rightarrow> ImuMsg \<times> u64" where
  "InitImuMsg l d = (\<lparr>im_frame_id = imu_frame_id l, im_stamp = imu_time_stamp d,
     angular_velocity = (gyro_x d, gyro_y d, gyro_z d), linear_acceleration = (acc_x d, acc_y d, acc_z d)\<rparr>,
     imu_time_stamp d)"

section \<open>Topics and publishers\<close>

definition sensor_name :: "u8 \<Rightarrow> string" where
  "sensor_name dev_type =
     (if dev_type = 7 then ''livox_avia'' else if dev_type = 9 then ''livox_mid360''
      else if dev_type = 15 then ''livox_hap'' else if dev_type = 10 then ''livox_hap''
      else if dev_type = 3 then ''livox_horizon'' else if dev_type = 6 then ''livox_mid70''
      else if dev_type = 1 then ''livox_mid40'' else ''livox'')"

text \<open>A device whose type is not known yet is taken for a Mid360, except for the IMU topic of one lidar.\<close>

definition default_sensor_name :: "u8 \<Rightarrow> string" where
  "default_sensor_name dev_type = (if dev_type = 0 then ''livox_mid360'' else sensor_name dev_type)"

text \<open>\<open>inet_ntoa\<close>: the address is kept in network order, so its first part is the lowest byte.\<close>

definition IpNumToString :: "u32 \<Rightarrow> string" where
  "IpNumToString ip_num = dots (map unat (le32 ip_num))"

definition ReplacePeriodByUnderline :: "string \<Rightarrow> string" where
  "ReplacePeriodByUnderline str = map (\<lambda>c. if c = CHR ''.'' then CHR ''_'' else c) str"

text \<open>\<open>snprintf\<close> into 128 bytes.\<close>

definition topic :: "string \<Rightarrow> string" where
  "topic str = take 127 str"

definition CreatePublisher :: "u8 \<Rightarrow> string \<Rightarrow> Publisher option" where
  "CreatePublisher msg_type topic_name =
     (if msg_type = kPointCloud2Msg then Some (CloudPublisher topic_name)
      else if msg_type = kLivoxCustomMsg then Some (CustomPublisher topic_name)
      else if msg_type = kLivoxImuMsg then Some (ImuPublisher topic_name)
      else None)"

definition GetCurrentPublisher :: "nat \<Rightarrow> ('p, 'f) Lds \<Rightarrow> Lddc \<Rightarrow> Publisher option \<times> Lddc" where
  "GetCurrentPublisher index s l =
     (if use_multi_topic l then
        (case private_pub l index of
           Some pub \<Rightarrow> (Some pub, l)
         | None \<Rightarrow>
            (let d = lidars s ! index;
                 name = topic (''/sensor/lidar/'' @ default_sensor_name (dev_device_type d) @ ''_'' @
                   ReplacePeriodByUnderline (IpNumToString (dev_handle d)) @ ''/points'');
                 pub = CreatePublisher (transfer_format l) name
             in (pub, l\<lparr>private_pub := (private_pub l)(index := pub)\<rparr>)))
      else
        (case global_pub l of
           Some pub \<Rightarrow> (Some pub, l)
         | None \<Rightarrow>
            (let sensor = (if lidar_count s > 0 then default_sensor_name (dev_device_type (lidars s ! 0)) else ''livox'');
                 name = topic (''/sensor/lidar/'' @ sensor @ ''/points'');
                 pub = CreatePublisher (transfer_format l) name
             in (pub, l\<lparr>global_pub := pub\<rparr>))))"

definition GetCurrentImuPublisher :: "nat \<Rightarrow> ('p, 'f) Lds \<Rightarrow> Lddc \<Rightarrow> Publisher option \<times> Lddc" where
  "GetCurrentImuPublisher index s l =
     (if use_multi_topic l then
        (case private_imu_pub l index of
           Some pub \<Rightarrow> (Some pub, l)
         | None \<Rightarrow>
            (let d = lidars s ! index;
                 name = topic (''/sensor/ins/'' @ sensor_name (dev_device_type d) @ ''_'' @
                   ReplacePeriodByUnderline (IpNumToString (dev_handle d)) @ ''/imu'');
                 pub = CreatePublisher kLivoxImuMsg name
             in (pub, l\<lparr>private_imu_pub := (private_imu_pub l)(index := pub)\<rparr>)))
      else
        (case global_imu_pub l of
           Some pub \<Rightarrow> (Some pub, l)
         | None \<Rightarrow>
            (let sensor = (if lidar_count s > 0 then default_sensor_name (dev_device_type (lidars s ! 0)) else ''livox'');
                 name = topic (''/sensor/ins/'' @ sensor @ ''/imu'');
                 pub = CreatePublisher kLivoxImuMsg name
             in (pub, l\<lparr>global_imu_pub := pub\<rparr>))))"

section \<open>Publishing\<close>

text \<open>
  The publisher is cast to the type of the message, which gives null for another type; calling
  it is then undefined. Without output to ROS nothing happens.
\<close>

definition PublishPointcloud2Data :: "nat \<Rightarrow> PointCloud2 \<Rightarrow> ('p, 'f) Lds \<Rightarrow> Lddc \<Rightarrow> (RosMsg list \<times> Lddc) option" where
  "PublishPointcloud2Data index cloud s l =
     (let (pub, l) = GetCurrentPublisher index s l in
      if output_type l \<noteq> kOutputToRos then Some ([], l)
      else case pub of Some (CloudPublisher t) \<Rightarrow> Some ([CloudMsg t cloud], l) | _ \<Rightarrow> None)"

definition PublishCustomPointData :: "nat \<Rightarrow> CustomMsg \<Rightarrow> ('p, 'f) Lds \<Rightarrow> Lddc \<Rightarrow> (RosMsg list \<times> Lddc) option" where
  "PublishCustomPointData index m s l =
     (let (pub, l) = GetCurrentPublisher index s l in
      if output_type l \<noteq> kOutputToRos then Some ([], l)
      else case pub of Some (CustomPublisher t) \<Rightarrow> Some ([CustomCloudMsg t m], l) | _ \<Rightarrow> None)"

text \<open>One packet, in each of the two formats; the body of the loops after the check for points.\<close>

definition publish_cloud ::
  "machine_floats \<Rightarrow> nat \<Rightarrow> PointXyzlt StoragePacket \<Rightarrow> ('p, 'f) Lds \<Rightarrow> Lddc \<Rightarrow> (RosMsg list \<times> Lddc) option" where
  "publish_cloud mf index pkg s l = do {
     (cloud, timestamp) \<leftarrow> InitPointcloud2Msg mf l pkg;
     PublishPointcloud2Data index cloud s l }"

definition publish_custom ::
  "machine_floats \<Rightarrow> nat \<Rightarrow> PointXyzlt StoragePacket \<Rightarrow> ('p, 'f) Lds \<Rightarrow> Lddc \<Rightarrow> (RosMsg list \<times> Lddc) option" where
  "publish_custom mf index pkg s l = do {
     m \<leftarrow> FillPointsToCustomMsg mf (InitCustomMsg l s pkg index) pkg;
     PublishCustomPointData index m s l }"

lemma QueuePopUpdate_size: "\<not> QueueIsEmpty q \<Longrightarrow> unat (QueueUsedSize (QueuePopUpdate q)) < unat (QueueUsedSize q)"
proof -
  assume "\<not> QueueIsEmpty q"
  then have "wr_idx q - rd_idx q \<noteq> 0" by (auto simp: QueueIsEmpty_def)
  from unat_minus_one [OF this] this show ?thesis
    by (simp add: QueueUsedSize_def QueuePopUpdate_def diff_diff_eq unat_gt_0)
qed

text \<open>
  The loop \<open>while (!QueueIsEmpty(queue))\<close> of both formats: it ends because every turn brings the
  read index one step closer to the write index. \<open>QueuePop\<close> cannot refuse on a queue that is not
  empty.
\<close>

function publish_queue ::
  "(PointXyzlt StoragePacket \<Rightarrow> Lddc \<Rightarrow> (RosMsg list \<times> Lddc) option) \<Rightarrow> PointXyzlt LidarDataQueue \<Rightarrow> Lddc \<Rightarrow>
   (RosMsg list \<times> PointXyzlt LidarDataQueue \<times> Lddc) option" where
  "publish_queue publish q l =
     (if QueueIsEmpty q then Some ([], q, l)
      else case QueuePop q of
        None \<Rightarrow> None
      | Some None \<Rightarrow> None
      | Some (Some (pkg, _)) \<Rightarrow>
          if points pkg = [] then publish_queue publish (QueuePopUpdate q) l
          else do {
            (ms, l) \<leftarrow> publish pkg l;
            (ms', q, l) \<leftarrow> publish_queue publish (QueuePopUpdate q) l;
            Some (ms @ ms', q, l) })"
  by pat_completeness auto

termination
  by (relation "measure (\<lambda>(_, q, _). unat (QueueUsedSize q))") (auto simp: QueuePopUpdate_size)

declare publish_queue.simps [simp del]

lemma QueuePop_update: "QueuePop q = Some (Some (p, q')) \<Longrightarrow> q' = QueuePopUpdate q"
  by (auto simp: QueuePop_def bind_eq_Some_conv)

definition PublishPointcloud2 ::
  "machine_floats \<Rightarrow> PointXyzlt LidarDataQueue \<Rightarrow> nat \<Rightarrow> ('p, 'f) Lds \<Rightarrow> Lddc \<Rightarrow>
   (RosMsg list \<times> PointXyzlt LidarDataQueue \<times> Lddc) option" where
  "PublishPointcloud2 mf q index s l = publish_queue (\<lambda>pkg. publish_cloud mf index pkg s) q l"

definition PublishCustomPointcloud ::
  "machine_floats \<Rightarrow> PointXyzlt LidarDataQueue \<Rightarrow> nat \<Rightarrow> ('p, 'f) Lds \<Rightarrow> Lddc \<Rightarrow>
   (RosMsg list \<times> PointXyzlt LidarDataQueue \<times> Lddc) option" where
  "PublishCustomPointcloud mf q index s l = publish_queue (\<lambda>pkg. publish_custom mf index pkg s) q l"

text \<open>Built for ROS 2 this only prints a warning.\<close>

definition PublishPclMsg ::
  "PointXyzlt LidarDataQueue \<Rightarrow> Lddc \<Rightarrow> (RosMsg list \<times> PointXyzlt LidarDataQueue \<times> Lddc) option" where
  "PublishPclMsg q l = Some ([], q, l)"

text \<open>
  The outer loop of one lidar: \<open>n\<close> is the number of turns it may take, \<open>None\<close> is a loop that has not
  ended by then. The request to exit is read once for the whole call.
\<close>

fun poll_points ::
  "nat \<Rightarrow> machine_floats \<Rightarrow> nat \<Rightarrow> ('p, 'f) Lds \<Rightarrow> PointXyzlt LidarDataQueue \<Rightarrow> Lddc \<Rightarrow>
   (RosMsg list \<times> PointXyzlt LidarDataQueue \<times> Lddc) option" where
  "poll_points 0 mf index s q l = None"
| "poll_points (Suc n) mf index s q l =
     (if request_exit s \<or> QueueIsEmpty q then Some ([], q, l)
      else do {
        (ms, q, l) \<leftarrow> (if transfer_format l = kPointCloud2Msg then PublishPointcloud2 mf q index s l
          else if transfer_format l = kLivoxCustomMsg then PublishCustomPointcloud mf q index s l
          else if transfer_format l = kPclPxyziMsg then PublishPclMsg q l
          else Some ([], q, l));
        (ms', q, l) \<leftarrow> poll_points n mf index s q l;
        Some (ms @ ms', q, l) })"

definition PollingLidarPointCloudData ::
  "nat \<Rightarrow> machine_floats \<Rightarrow> nat \<Rightarrow> (PointXyzlt, 'f) Lds \<Rightarrow> Lddc \<Rightarrow> (RosMsg list \<times> PointXyzlt LidarDataQueue \<times> Lddc) option" where
  "PollingLidarPointCloudData n mf index s l =
     (let q = dev_data (lidars s ! index)
      in if storage_packet q = NullStorage then Some ([], q, l) else poll_points n mf index s q l)"

fun distribute_points ::
  "nat \<Rightarrow> machine_floats \<Rightarrow> nat list \<Rightarrow> (PointXyzlt, 'f) Lds \<Rightarrow> Lddc \<Rightarrow> (RosMsg list \<times> (PointXyzlt, 'f) Lds \<times> Lddc) option" where
  "distribute_points n mf [] s l = Some ([], s, l)"
| "distribute_points n mf (i # is) s l =
     (if connect_state (lidars s ! i) \<noteq> kConnectStateSampling then distribute_points n mf is s l
      else do {
        (ms, q, l) \<leftarrow> PollingLidarPointCloudData n mf i s l;
        (ms', s, l) \<leftarrow> distribute_points n mf is (update_lidar i (dev_data_update (\<lambda>_. q)) s) l;
        Some (ms @ ms', s, l) })"

definition DistributePointCloudData ::
  "nat \<Rightarrow> machine_floats \<Rightarrow> (PointXyzlt, 'f) Lds \<Rightarrow> Lddc \<Rightarrow> (RosMsg list \<times> (PointXyzlt, 'f) Lds \<times> Lddc) option" where
  "DistributePointCloudData n mf s l =
     (if request_exit s then Some ([], s, l)
      else do {
        c \<leftarrow> Wait (pcd_semaphore s);
        distribute_points n mf [0..<lidar_count s] (s\<lparr>pcd_semaphore := c\<rparr>) l })"

definition PublishImuData ::
  "u32 ImuData list \<Rightarrow> nat \<Rightarrow> ('p, 'f) Lds \<Rightarrow> Lddc \<Rightarrow> (RosMsg list \<times> u32 ImuData list \<times> Lddc) option" where
  "PublishImuData q index s l = (case imu_Pop q of
     None \<Rightarrow> Some ([], q, l)
   | Some (d, q) \<Rightarrow>
       (let (m, timestamp) = InitImuMsg l d; (pub, l) = GetCurrentImuPublisher index s l in
        if output_type l \<noteq> kOutputToRos then Some ([], q, l)
        else case pub of Some (ImuPublisher t) \<Rightarrow> Some ([ImuDataMsg t m], q, l) | _ \<Rightarrow> None))"

text \<open>The IMU list shrinks with every turn: its length is fuel enough.\<close>

fun poll_imu ::
  "nat \<Rightarrow> nat \<Rightarrow> ('p, 'f) Lds \<Rightarrow> u32 ImuData list \<Rightarrow> Lddc \<Rightarrow> (RosMsg list \<times> u32 ImuData list \<times> Lddc) option" where
  "poll_imu 0 index s q l = None"
| "poll_imu (Suc n) index s q l =
     (if request_exit s \<or> imu_Empty q then Some ([], q, l)
      else do {
        (ms, q, l) \<leftarrow> PublishImuData q index s l;
        (ms', q, l) \<leftarrow> poll_imu n index s q l;
        Some (ms @ ms', q, l) })"

definition PollingLidarImuData ::
  "nat \<Rightarrow> ('p, u32) Lds \<Rightarrow> Lddc \<Rightarrow> (RosMsg list \<times> u32 ImuData list \<times> Lddc) option" where
  "PollingLidarImuData index s l =
     (let q = dev_imu_data (lidars s ! index) in poll_imu (Suc (length q)) index s q l)"

fun distribute_imu ::
  "nat list \<Rightarrow> ('p, u32) Lds \<Rightarrow> Lddc \<Rightarrow> (RosMsg list \<times> ('p, u32) Lds \<times> Lddc) option" where
  "distribute_imu [] s l = Some ([], s, l)"
| "distribute_imu (i # is) s l =
     (if connect_state (lidars s ! i) \<noteq> kConnectStateSampling then distribute_imu is s l
      else do {
        (ms, q, l) \<leftarrow> PollingLidarImuData i s l;
        (ms', s, l) \<leftarrow> distribute_imu is (update_lidar i (dev_imu_data_update (\<lambda>_. q)) s) l;
        Some (ms @ ms', s, l) })"

definition DistributeImuData ::
  "('p, u32) Lds \<Rightarrow> Lddc \<Rightarrow> (RosMsg list \<times> ('p, u32) Lds \<times> Lddc) option" where
  "DistributeImuData s l =
     (if request_exit s then Some ([], s, l)
      else do {
        c \<leftarrow> Wait (imu_semaphore s);
        distribute_imu [0..<lidar_count s] (s\<lparr>imu_semaphore := c\<rparr>) l })"

section \<open>What is published\<close>

text \<open>
  The publishers that exist have the type the transfer format asks for. The topic of a lidar is
  that of the publisher it has or will get, and no later publisher changes it.
\<close>

definition cloud_publisher :: "u8 \<Rightarrow> Publisher \<Rightarrow> bool" where
  "cloud_publisher format pub \<longleftrightarrow>
     (case pub of CloudPublisher _ \<Rightarrow> format = kPointCloud2Msg | CustomPublisher _ \<Rightarrow> format = kLivoxCustomMsg
      | ImuPublisher _ \<Rightarrow> False)"

definition lddc_wf :: "Lddc \<Rightarrow> bool" where
  "lddc_wf l \<longleftrightarrow> transfer_format l \<in> {kPointCloud2Msg, kLivoxCustomMsg} \<and> output_type l = kOutputToRos \<and>
     (\<forall>i pub. private_pub l i = Some pub \<longrightarrow> cloud_publisher (transfer_format l) pub) \<and>
     (\<forall>pub. global_pub l = Some pub \<longrightarrow> cloud_publisher (transfer_format l) pub)"

definition topic_of :: "('p, 'f) Lds \<Rightarrow> Lddc \<Rightarrow> nat \<Rightarrow> string" where
  "topic_of s l i = (case fst (GetCurrentPublisher i s l) of
     Some (CloudPublisher t) \<Rightarrow> t | Some (CustomPublisher t) \<Rightarrow> t | _ \<Rightarrow> [])"

text \<open>The message for a packet, whose points are as many as it says.\<close>

definition cloud_image :: "machine_floats \<Rightarrow> Lddc \<Rightarrow> PointXyzlt StoragePacket \<Rightarrow> PointCloud2" where
  "cloud_image mf l pkg = fst (the (InitPointcloud2Msg mf l pkg))"

definition custom_image :: "machine_floats \<Rightarrow> ('p, 'f) Lds \<Rightarrow> Lddc \<Rightarrow> nat \<Rightarrow> PointXyzlt StoragePacket \<Rightarrow> CustomMsg" where
  "custom_image mf s l i pkg = the (FillPointsToCustomMsg mf (InitCustomMsg l s pkg i) pkg)"

definition message :: "machine_floats \<Rightarrow> ('p, 'f) Lds \<Rightarrow> Lddc \<Rightarrow> nat \<Rightarrow> PointXyzlt StoragePacket \<Rightarrow> RosMsg" where
  "message mf s l i pkg =
     (if transfer_format l = kPointCloud2Msg then CloudMsg (topic_of s l i) (cloud_image mf l pkg)
      else CustomCloudMsg (topic_of s l i) (custom_image mf s l i pkg))"

definition messages :: "machine_floats \<Rightarrow> (PointXyzlt, 'f) Lds \<Rightarrow> Lddc \<Rightarrow> nat \<Rightarrow> RosMsg list" where
  "messages mf s l i =
     (if connect_state (lidars s ! i) = kConnectStateSampling
      then map (message mf s l i) (filter (\<lambda>p. points p \<noteq> []) (contents s i)) else [])"

lemma CreatePublisher_cloud:
  assumes "lddc_wf l"
  shows "CreatePublisher (transfer_format l) t =
    Some (if transfer_format l = kPointCloud2Msg then CloudPublisher t else CustomPublisher t)"
    and "cloud_publisher (transfer_format l)
      (if transfer_format l = kPointCloud2Msg then CloudPublisher t else CustomPublisher t)"
  using assms
  by (auto simp: lddc_wf_def CreatePublisher_def cloud_publisher_def kPointCloud2Msg_def kLivoxCustomMsg_def)

lemma current_publisher:
  assumes "lddc_wf l" "GetCurrentPublisher i s l = (pub, l')"
  shows "\<exists>p. pub = Some p \<and> cloud_publisher (transfer_format l) p" "lddc_wf l'"
    and "GetCurrentPublisher i s l' = (pub, l')" "transfer_format l' = transfer_format l" "frame_id l' = frame_id l"
    and "topic_of s l' j = topic_of s l j"
proof -
  note create = CreatePublisher_cloud [OF assms(1)]
  have cases: "pub = private_pub l i \<and> private_pub l i \<noteq> None \<and> l' = l \<and> use_multi_topic l \<or>
      pub = global_pub l \<and> global_pub l \<noteq> None \<and> l' = l \<and> \<not> use_multi_topic l \<or>
      (\<exists>p. pub = Some p \<and> cloud_publisher (transfer_format l) p \<and>
        (use_multi_topic l \<and> l' = l\<lparr>private_pub := (private_pub l)(i \<mapsto> p)\<rparr> \<or> \<not> use_multi_topic l \<and> l' = l\<lparr>global_pub := Some p\<rparr>))"
    using assms(2) create(2)
    by (cases "use_multi_topic l"; cases "private_pub l i"; cases "global_pub l")
      (auto simp: GetCurrentPublisher_def Let_def create(1))
  then show "\<exists>p. pub = Some p \<and> cloud_publisher (transfer_format l) p" "lddc_wf l'"
    using assms(1) by (auto simp: lddc_wf_def split: if_splits)
  show "GetCurrentPublisher i s l' = (pub, l')" "transfer_format l' = transfer_format l" "frame_id l' = frame_id l"
    using cases by (auto simp: GetCurrentPublisher_def)
  show "topic_of s l' j = topic_of s l j"
  proof (cases "use_multi_topic l")
    case True
    then show ?thesis
      using assms(2) by (cases "private_pub l i"; cases "private_pub l j"; cases "i = j")
        (auto simp: topic_of_def GetCurrentPublisher_def Let_def create(1))
  next
    case False
    then show ?thesis
      using assms(2) by (cases "global_pub l") (auto simp: topic_of_def GetCurrentPublisher_def Let_def create(1))
  qed
qed

lemma message_cong:
  assumes "transfer_format l' = transfer_format l" "frame_id l' = frame_id l" "\<And>j. topic_of s l' j = topic_of s l j"
  shows "message mf s l' i = message mf s l i"
  by (rule ext)
    (simp add: message_def cloud_image_def custom_image_def InitPointcloud2Msg_def InitPointcloud2MsgHeader_def
      InitCustomMsg_def assms)

lemma publish_message:
  assumes "lddc_wf l" "packet_ok pkg"
  shows "(if transfer_format l = kPointCloud2Msg then publish_cloud mf i pkg s l else publish_custom mf i pkg s l) =
    Some ([message mf s l i pkg], snd (GetCurrentPublisher i s l))"
proof -
  obtain pub l' where g: "GetCurrentPublisher i s l = (pub, l')" by force
  obtain p where p: "pub = Some p" "cloud_publisher (transfer_format l) p" and l': "lddc_wf l'"
    using current_publisher(1,2) [OF assms(1) g] by blast
  have pts: "packet_points pkg = Some (points pkg)" using assms(2) by (simp add: packet_points_def packet_ok_def)
  have ne: "kLivoxCustomMsg \<noteq> kPointCloud2Msg" by (simp add: kPointCloud2Msg_def kLivoxCustomMsg_def)
  show ?thesis
    using p l' assms(1) ne
    by (auto simp: publish_cloud_def publish_custom_def PublishPointcloud2Data_def PublishCustomPointData_def g
        message_def topic_of_def cloud_image_def custom_image_def InitPointcloud2Msg_def FillPointsToCustomMsg_def pts
        cloud_publisher_def lddc_wf_def Let_def split: Publisher.splits)
qed

text \<open>A queue is published to its end, in order, without its empty packets.\<close>

lemma publish_queue_all:
  assumes "ring_wf q" "ring_contents q = ps" "lddc_wf l" "transfer_format l = f"
    and "\<And>pkg l'. lddc_wf l' \<Longrightarrow> transfer_format l' = f \<Longrightarrow> packet_ok pkg \<Longrightarrow>
      publish pkg l' = Some ([message mf s l' i pkg], snd (GetCurrentPublisher i s l'))"
  shows "\<exists>q' l'. publish_queue publish q l = Some (map (message mf s l i) (filter (\<lambda>p. points p \<noteq> []) ps), q', l') \<and>
    ring_wf q' \<and> ring_contents q' = [] \<and> lddc_wf l' \<and> transfer_format l' = transfer_format l \<and>
    frame_id l' = frame_id l \<and> (\<forall>j. topic_of s l' j = topic_of s l j)"
  using assms(1-4)
proof (induction ps arbitrary: q l)
  case Nil
  then have "QueueIsEmpty q" using ring_used [of q] by (simp add: QueueIsEmpty_def QueueUsedSize_def unat_eq_0)
  then show ?case using Nil by (subst publish_queue.simps) auto
next
  case (Cons p ps)
  obtain q1 where pop: "QueuePop q = Some (Some (p, q1))" "ring_wf q1" "ring_contents q1 = ps"
    using ring_pop [OF Cons.prems(1,2)] by blast
  note q1 = QueuePop_update [OF pop(1)]
  have ne: "\<not> QueueIsEmpty q" using pop(1) by (auto simp: QueuePop_def QueuePrePop_def)
  have ok: "packet_ok p" using Cons.prems(1,2) by (auto simp: ring_wf_def)
  obtain pub l1 where g: "GetCurrentPublisher i s l = (pub, l1)" by force
  note cur = current_publisher [OF Cons.prems(3) g]
  show ?case
  proof (cases "points p = []")
    case True
    then show ?thesis
      using Cons.IH [OF pop(2,3) Cons.prems(3,4)] pop(1) ne q1 by (subst publish_queue.simps) auto
  next
    case False
    have "message mf s l1 i = message mf s l i" using cur(4-6) by (rule message_cong)
    then show ?thesis
      using Cons.IH [OF pop(2,3) cur(2)] assms(5) [OF Cons.prems(3,4) ok] Cons.prems(4) pop(1) ne q1 False cur(4-6)
      by (subst publish_queue.simps) (auto simp: g)
  qed
qed

text \<open>Two turns of the outer loop: one that publishes everything, one that sees the empty queue.\<close>

lemma poll_points_all:
  assumes "ring_wf q" "lddc_wf l" "\<not> request_exit s" "2 \<le> n"
  shows "\<exists>q' l'. poll_points n mf i s q l = Some (map (message mf s l i) (filter (\<lambda>p. points p \<noteq> []) (ring_contents q)), q', l') \<and>
    ring_wf q' \<and> ring_contents q' = [] \<and> lddc_wf l' \<and> transfer_format l' = transfer_format l \<and>
    frame_id l' = frame_id l \<and> (\<forall>j. topic_of s l' j = topic_of s l j)"
proof -
  obtain m where n: "n = Suc (Suc m)" using assms(4) by (metis Suc_le_D numeral_2_eq_2 Suc_le_mono)
  have empty: "QueueIsEmpty q'" if "ring_wf q'" "ring_contents q' = []" for q' :: "PointXyzlt LidarDataQueue"
    using ring_used [OF that(1)] that(2) by (simp add: QueueIsEmpty_def QueueUsedSize_def unat_eq_0)
  show ?thesis
  proof (cases "QueueIsEmpty q")
    case True
    then have "ring_contents q = []" using ring_used [OF assms(1)] by (simp add: QueueIsEmpty_def QueueUsedSize_def)
    then show ?thesis using True assms(1,2) by (simp add: n)
  next
    case False
    have fmt: "transfer_format l = kPointCloud2Msg \<or> transfer_format l = kLivoxCustomMsg" "kLivoxCustomMsg \<noteq> kPointCloud2Msg"
      using assms(2) by (auto simp: lddc_wf_def kPointCloud2Msg_def kLivoxCustomMsg_def)
    obtain q' l' where p: "(if transfer_format l = kPointCloud2Msg then PublishPointcloud2 mf q i s l
          else PublishCustomPointcloud mf q i s l) =
        Some (map (message mf s l i) (filter (\<lambda>p. points p \<noteq> []) (ring_contents q)), q', l')"
      and q': "ring_wf q'" "ring_contents q' = []" "lddc_wf l'" "transfer_format l' = transfer_format l"
        "frame_id l' = frame_id l" "\<forall>j. topic_of s l' j = topic_of s l j"
    proof (cases "transfer_format l = kPointCloud2Msg")
      case True
      have "publish_cloud mf i pkg s k = Some ([message mf s k i pkg], snd (GetCurrentPublisher i s k))"
        if "lddc_wf k" "transfer_format k = kPointCloud2Msg" "packet_ok pkg" for k pkg
        using publish_message [OF that(1,3), of mf i s] that(2) by simp
      from publish_queue_all [OF assms(1) refl assms(2) True this] that True show ?thesis
        by (auto simp: PublishPointcloud2_def)
    next
      case False
      then have f: "transfer_format l = kLivoxCustomMsg" using fmt by simp
      have "publish_custom mf i pkg s k = Some ([message mf s k i pkg], snd (GetCurrentPublisher i s k))"
        if "lddc_wf k" "transfer_format k = kLivoxCustomMsg" "packet_ok pkg" for k pkg
        using publish_message [OF that(1,3), of mf i s] that(2) fmt(2) by simp
      from publish_queue_all [OF assms(1) refl assms(2) f this] that f fmt(2) show ?thesis
        by (auto simp: PublishCustomPointcloud_def)
    qed
    show ?thesis
    proof (cases "transfer_format l = kPointCloud2Msg")
      case True
      then show ?thesis using p q' False assms(3) empty [OF q'(1,2)] by (simp add: n)
    next
      case f: False
      then show ?thesis using p q' False assms(3) empty [OF q'(1,2)] fmt by (simp add: n)
    qed
  qed
qed

text \<open>Storing a queue back changes neither names nor the other queues.\<close>

lemma update_data_simps:
  fixes s :: "('p, 'f) Lds"
  assumes "i < length (lidars s)"
  shows "topic_of (update_lidar i (dev_data_update f) s) l j = topic_of s l j"
    and "message mf (update_lidar i (dev_data_update f) s) l j = message mf s l j"
    and "connect_state (lidars (update_lidar i (dev_data_update f) s) ! j) = connect_state (lidars s ! j)"
    and "contents (update_lidar i (dev_data_update f) s) j =
      (if j = i then ring_contents (f (dev_data (lidars s ! i))) else contents s j)"
proof -
  have d: "dev_device_type (lidars (update_lidar i (dev_data_update f) s) ! k) = dev_device_type (lidars s ! k)"
    "dev_handle (lidars (update_lidar i (dev_data_update f) s) ! k) = dev_handle (lidars s ! k)"
    "dev_lidar_type (lidars (update_lidar i (dev_data_update f) s) ! k) = dev_lidar_type (lidars s ! k)"
    "connect_state (lidars (update_lidar i (dev_data_update f) s) ! k) = connect_state (lidars s ! k)"
    "lidar_count (update_lidar i (dev_data_update f) s) = lidar_count s" for k
    using assms by (cases "k = i"; simp add: update_lidar_def)+
  then have t: "topic_of (update_lidar i (dev_data_update f) s) l = topic_of s l"
    by (intro ext) (simp only: topic_of_def GetCurrentPublisher_def Let_def d)
  then show "topic_of (update_lidar i (dev_data_update f) s) l j = topic_of s l j" by simp
  show "message mf (update_lidar i (dev_data_update f) s) l j = message mf s l j"
    by (rule ext) (simp add: message_def custom_image_def InitCustomMsg_def Let_def t d)
  show "connect_state (lidars (update_lidar i (dev_data_update f) s) ! j) = connect_state (lidars s ! j)" by (rule d(4))
  show "contents (update_lidar i (dev_data_update f) s) j =
      (if j = i then ring_contents (f (dev_data (lidars s ! i))) else contents s j)"
    using assms by (auto simp: contents_def update_lidar_def)
qed

lemma messages_cong:
  assumes "transfer_format l' = transfer_format l" "frame_id l' = frame_id l" "\<forall>j. topic_of s l' j = topic_of s l j"
  shows "messages mf s l' i = messages mf s l i"
  using message_cong [of l' l s mf i] assms by (simp add: messages_def)

lemma Polling_all:
  assumes "lds_wf s" "lddc_wf l" "\<not> request_exit s" "2 \<le> n" "i < kMaxSourceLidar"
  shows "\<exists>q' l'. PollingLidarPointCloudData n mf i s l =
      Some (map (message mf s l i) (filter (\<lambda>p. points p \<noteq> []) (contents s i)), q', l') \<and>
    queue_ok q' \<and> ring_contents q' = [] \<and> lddc_wf l' \<and> transfer_format l' = transfer_format l \<and>
    frame_id l' = frame_id l \<and> (\<forall>j. topic_of s l' j = topic_of s l j)"
proof (cases "storage_packet (dev_data (lidars s ! i)) = NullStorage")
  case True
  then show ?thesis
    using assms(2) by (simp add: PollingLidarPointCloudData_def contents_def ring_contents_def queue_ok_def)
next
  case False
  then have "ring_wf (dev_data (lidars s ! i))" using assms(1,5) by (auto simp: lds_wf_def queue_ok_def)
  from poll_points_all [OF this assms(2-4), of mf i] False show ?thesis
    by (auto simp: PollingLidarPointCloudData_def contents_def queue_ok_def)
qed

lemma distribute_points_all:
  assumes "distinct is" "\<forall>i \<in> set is. i < kMaxSourceLidar" "lds_wf s" "lddc_wf l" "\<not> request_exit s" "2 \<le> n"
  shows "\<exists>s' l'. distribute_points n mf is s l = Some (concat (map (messages mf s l) is), s', l') \<and>
    lds_wf s' \<and> lddc_wf l' \<and> (\<forall>j. contents s' j =
      (if j \<in> set is \<and> connect_state (lidars s ! j) = kConnectStateSampling then [] else contents s j))"
  using assms(1-5)
proof (induction "is" arbitrary: s l)
  case (Cons i "is")
  show ?case
  proof (cases "connect_state (lidars s ! i) = kConnectStateSampling")
    case False
    then show ?thesis using Cons.IH [of s l] Cons.prems by (auto simp: messages_def)
  next
    case True
    obtain q' l1 where p: "PollingLidarPointCloudData n mf i s l =
        Some (map (message mf s l i) (filter (\<lambda>p. points p \<noteq> []) (contents s i)), q', l1)"
      "queue_ok q'" "ring_contents q' = []" and l1: "lddc_wf l1" "transfer_format l1 = transfer_format l"
        "frame_id l1 = frame_id l" "\<forall>j. topic_of s l1 j = topic_of s l j"
      using Polling_all [OF Cons.prems(3-5) assms(6), of i mf] Cons.prems(2) by auto
    let ?s = "update_lidar i (dev_data_update (\<lambda>_. q')) s"
    have i: "i < length (lidars s)" using Cons.prems(2,3) by (simp add: lds_wf_def)
    note upd = update_data_simps [OF i, where f = "\<lambda>_. q'"]
    have wf: "lds_wf ?s" "\<not> request_exit ?s" using Cons.prems(3,5) p(2)
      by (auto simp: lds_wf_def update_lidar_def dest!: set_update_subset_insert [THEN subsetD])
    have m: "map (messages mf ?s l1) is = map (messages mf s l) is"
    proof (rule map_cong [OF refl])
      fix j assume "j \<in> set is"
      then have "messages mf ?s l1 j = messages mf s l1 j" using Cons.prems(1) by (auto simp: messages_def upd)
      then show "messages mf ?s l1 j = messages mf s l j" using messages_cong [OF l1(2-4)] by simp
    qed
    obtain s' l' where d: "distribute_points n mf is ?s l1 = Some (concat (map (messages mf ?s l1) is), s', l')"
      "lds_wf s'" "lddc_wf l'" "\<forall>j. contents s' j =
        (if j \<in> set is \<and> connect_state (lidars ?s ! j) = kConnectStateSampling then [] else contents ?s j)"
      using Cons.IH [OF _ _ wf(1) l1(1) wf(2)] Cons.prems(1,2) by auto
    have "messages mf s l i = map (message mf s l i) (filter (\<lambda>p. points p \<noteq> []) (contents s i))"
      using True by (simp add: messages_def)
    then show ?thesis using d p(1,3) True by (auto simp: m upd)
  qed
qed simp

text \<open>A frame that is stored and then published.\<close>

lemma messages_lidars:
  assumes "lidars s' = lidars s" "lidar_count s' = lidar_count s"
  shows "messages mf s' l = messages mf s l"
proof -
  have "topic_of s' l = topic_of s l" by (intro ext) (simp only: topic_of_def GetCurrentPublisher_def Let_def assms)
  then show ?thesis
    by (intro ext) (simp add: messages_def message_def [abs_def] custom_image_def InitCustomMsg_def contents_def assms)
qed

lemma Distribute_all:
  assumes "lds_wf s" "lddc_wf l" "\<not> request_exit s" "0 < pcd_semaphore s" "2 \<le> n"
  shows "\<exists>s' l'. DistributePointCloudData n mf s l =
      Some (concat (map (messages mf s l) [0..<kMaxSourceLidar]), s', l') \<and> lds_wf s' \<and> lddc_wf l' \<and>
    (\<forall>j < kMaxSourceLidar. contents s' j =
      (if connect_state (lidars s ! j) = kConnectStateSampling then [] else contents s j))"
proof -
  let ?s = "s\<lparr>pcd_semaphore := pcd_semaphore s - 1\<rparr>"
  have m: "messages mf ?s l = messages mf s l" by (rule messages_lidars) simp_all
  have wf: "lds_wf ?s" "\<not> request_exit ?s" "lidar_count s = kMaxSourceLidar" using assms by (auto simp: lds_wf_def)
  from distribute_points_all [of "[0..<kMaxSourceLidar]" ?s l n mf] wf assms(2,5) m show ?thesis
    using assms(3,4) by (auto simp: DistributePointCloudData_def Wait_def contents_def)
qed

section \<open>What the driver promises\<close>

text \<open>
  C24. From the callback to ROS, for a well-formed driver that publishes PointCloud2 or custom
  messages over ROS and is not asked to exit: storing a frame of well-formed packets, at least one
  of them of a known lidar, and distributing publishes, lidar by lidar, one message for each
  packet with points of every lidar that is sampling: first for the packets that waited in its
  queue, then for those of the frame, in their order and up to the room of the queue. It leaves
  the queues of those lidars empty, keeps what was accepted for the others, and drops what belongs
  to no known lidar. Two turns of the loop of the distribution are enough for that.
\<close>
theorem frame_delivered:
  assumes "lds_wf s" "lddc_wf l" "\<not> request_exit s" "2 \<le> n"
    and "frame_entries frame = Some ps" "\<forall>p \<in> set ps. packet_ok (stored p)"
    and "\<exists>p \<in> set ps. index_of (cache_index s) p \<noteq> None"
  shows "\<exists>s1 s2 l' q. StoragePointData junk frame s = Some s1 \<and>
    (\<forall>i. q i = accepted (capacity junk s i) (contents s i)
      (map stored (filter (\<lambda>p. index_of (cache_index s) p = Some i) ps))) \<and>
    DistributePointCloudData n mf s1 l = Some (concat (map (\<lambda>i.
        if connect_state (lidars s ! i) = kConnectStateSampling
        then map (message mf s1 l i) (filter (\<lambda>p. points p \<noteq> []) (q i)) else []) [0..<kMaxSourceLidar]), s2, l') \<and>
    lds_wf s2 \<and> lddc_wf l' \<and>
    (\<forall>i < kMaxSourceLidar. contents s2 i =
      (if connect_state (lidars s ! i) = kConnectStateSampling then [] else q i))"
proof -
  obtain s1 where s1: "store_points junk ps s = Some s1" "lds_wf s1" "\<not> request_exit s1" "0 < pcd_semaphore s1"
    "\<forall>j. connect_state (lidars s1 ! j) = connect_state (lidars s ! j)"
    "\<forall>i. contents s1 i = accepted (capacity junk s i) (contents s i)
      (map stored (filter (\<lambda>p. index_of (cache_index s) p = Some i) ps))"
    using store_points_accepts [OF assms(1,6), of junk] assms(3,7) by auto
  have eq: "messages mf s1 l = (\<lambda>i. if connect_state (lidars s ! i) = kConnectStateSampling
      then map (message mf s1 l i) (filter (\<lambda>p. points p \<noteq> []) (contents s1 i)) else [])"
    using s1(5) by (auto simp: messages_def)
  obtain s2 l' where d: "DistributePointCloudData n mf s1 l =
      Some (concat (map (messages mf s1 l) [0..<kMaxSourceLidar]), s2, l')" "lds_wf s2" "lddc_wf l'"
    "\<forall>j < kMaxSourceLidar. contents s2 j =
      (if connect_state (lidars s1 ! j) = kConnectStateSampling then [] else contents s1 j)"
    using Distribute_all [OF s1(2) assms(2) s1(3,4) assms(4), of mf] by blast
  have "StoragePointData junk frame s = Some s1" using s1(1) assms(5) by (simp add: StoragePointData_def)
  with d(1) [unfolded eq] d(2-4) s1(5,6) show ?thesis
    by (intro exI [of _ s1] exI [of _ s2] exI [of _ l'] exI [of _ "contents s1"]) simp
qed

text \<open>One lidar that samples, and one frame with one point of it.\<close>

definition demo_lds :: "(PointXyzlt, u32) Lds" where
  "demo_lds = \<lparr>lidar_count = kMaxSourceLidar,
     lidars = (zero_device 0)\<lparr>connect_state := kConnectStateSampling\<rparr> # replicate 31 (zero_device 0), pcd_semaphore = 0,
     imu_semaphore = 0, cache_index = snd (GetFreeIndex kLivoxLidarType 5 new_CacheIndex), publish_freq = 10,
     lds_data_src = 0, request_exit = False\<rparr>"

definition demo_point :: PointXyzlt where
  "demo_point = \<lparr>pt_x = 1, pt_y = 2, pt_z = 3, pt_intensity = 4, pt_tag = 5, pt_line = 6, pt_offset_time = 7\<rparr>"

definition demo_packet :: "PointXyzlt PointPacket \<times> u64" where
  "demo_packet = (\<lparr>pkt_handle = 5, pkt_lidar_type = kLivoxLidarType, pkt_points_num = 1, pkt_points = [demo_point]\<rparr>, 7)"

definition demo_frame :: "PointXyzlt PointFrame" where
  "demo_frame = \<lparr>frame_base_time = [7], frame_lidar_num = 1, frame_lidar_point = [fst demo_packet]\<rparr>"

lemma demo_lds_wf:
  "lds_wf demo_lds" "i < kMaxSourceLidar \<Longrightarrow> contents demo_lds i = []"
  "connect_state (lidars demo_lds ! 0) = kConnectStateSampling"
  "0 < i \<Longrightarrow> i < kMaxSourceLidar \<Longrightarrow> connect_state (lidars demo_lds ! i) = kConnectStateOff"
  using GetFreeIndex_wf [OF cache_wf_new, of kLivoxLidarType 5]
  by (auto simp: demo_lds_def lds_wf_def contents_def queue_ok_def zero_device_def fresh_queue_def ring_contents_def
    kMaxSourceLidar_def nth_Cons split: nat.splits)

lemma demo_packet_index: "index_of (cache_index demo_lds) demo_packet = Some 0"
proof -
  have "GetIndex kLivoxLidarType 5 (snd (GetFreeIndex kLivoxLidarType 5 new_CacheIndex)) = Some 0" by code_simp
  then show ?thesis by (simp add: index_of_def demo_packet_def demo_lds_def)
qed

lemma demo_capacity: "capacity junk demo_lds 0 = 16"
proof -
  have "RoundupPowerOf2 10 = 16" "\<not> IsPowerOf2 10" by code_simp+
  then show ?thesis
    by (simp add: capacity_def opened_def demo_lds_def zero_device_def fresh_queue_def CalculatePacketQueueSize_def InitQueue_def)
qed

definition demo_floats :: machine_floats where
  "demo_floats = \<lparr>to_double = id, float_to_u8 = ucast\<rparr>"

definition demo_junk :: "PointXyzlt StoragePacket" where
  "demo_junk = \<lparr>base_time = 0, points_num = 0, points = []\<rparr>"

definition demo_lddc :: Lddc where
  "demo_lddc = new_Lddc kPointCloud2Msg True kOutputToRos ''livox_frame'' []"

theorem frame_delivered_witness:
  "\<exists>s1 s2 l'. StoragePointData demo_junk demo_frame demo_lds = Some s1 \<and>
    DistributePointCloudData 2 demo_floats s1 demo_lddc =
      Some ([message demo_floats s1 demo_lddc 0 (stored demo_packet)], s2, l')"
proof -
  have l: "lddc_wf demo_lddc" by (simp add: demo_lddc_def new_Lddc_def lddc_wf_def)
  have f: "frame_entries demo_frame = Some [demo_packet]" by (simp add: frame_entries_def demo_frame_def demo_packet_def)
  have p: "\<forall>p \<in> set [demo_packet]. packet_ok (stored p)" by (simp add: packet_ok_def stored_def demo_packet_def)
  have e: "\<not> request_exit demo_lds" by (simp add: demo_lds_def)
  have k: "\<exists>p \<in> set [demo_packet]. index_of (cache_index demo_lds) p \<noteq> None" using demo_packet_index by simp
  from frame_delivered [OF demo_lds_wf(1) l e order_refl f p k, of demo_junk demo_floats]
  obtain s1 s2 l' q where s: "StoragePointData demo_junk demo_frame demo_lds = Some s1"
    "\<forall>i. q i = accepted (capacity demo_junk demo_lds i) (contents demo_lds i)
      (map stored (filter (\<lambda>p. index_of (cache_index demo_lds) p = Some i) [demo_packet]))"
    "DistributePointCloudData 2 demo_floats s1 demo_lddc = Some (concat (map (\<lambda>i.
        if connect_state (lidars demo_lds ! i) = kConnectStateSampling
        then map (message demo_floats s1 demo_lddc i) (filter (\<lambda>p. points p \<noteq> []) (q i)) else [])
        [0..<kMaxSourceLidar]), s2, l')" by blast
  have q: "q 0 = [stored demo_packet]"
    using s(2) demo_lds_wf(2) [of 0] by (simp add: accepted_def demo_packet_index demo_capacity kMaxSourceLidar_def)
  have "[0..<kMaxSourceLidar] = 0 # [1..<kMaxSourceLidar]" by (simp add: kMaxSourceLidar_def upt_conv_Cons)
  moreover have "concat (map (\<lambda>i. if connect_state (lidars demo_lds ! i) = kConnectStateSampling then f i else [])
      [1..<kMaxSourceLidar]) = []" for f :: "nat \<Rightarrow> RosMsg list"
    using demo_lds_wf(4) by (auto simp: Suc_le_eq)
  moreover have "points (stored demo_packet) \<noteq> []" by (simp add: stored_def demo_packet_def)
  ultimately show ?thesis using s(1,3) q by (simp add: demo_lds_wf(3))
qed

text \<open>
  With any transfer format but the two that ROS 2 supports, polling a lidar whose queue is not
  empty never returns, however many iterations it is given: nothing takes a packet from the queue.
\<close>
theorem pcl_spins:
  assumes "transfer_format l \<notin> {kPointCloud2Msg, kLivoxCustomMsg}" "\<not> request_exit s" "\<not> QueueIsEmpty q"
  shows "poll_points n mf i s q l = None"
proof (induction n)
  case (Suc n)
  then show ?case using assms by (simp add: PublishPclMsg_def)
qed simp

theorem pcl_spins_witness:
  "poll_points 7 demo_floats 0 (\<lparr>lidar_count = 32, lidars = [zero_device 0], pcd_semaphore = 1,
      imu_semaphore = 0, cache_index = new_CacheIndex, publish_freq = 10, lds_data_src = 0, request_exit = False\<rparr> ::
      (PointXyzlt, u32) Lds) (fresh_queue\<lparr>wr_idx := 1\<rparr>) (new_Lddc kPclPxyziMsg False kOutputToRos [] []) = None"
  by (rule pcl_spins)
    (simp_all add: new_Lddc_def kPclPxyziMsg_def kPointCloud2Msg_def kLivoxCustomMsg_def QueueIsEmpty_def fresh_queue_def)

lemma drop_blocks:
  "(\<And>x. length (f x) = n) \<Longrightarrow> drop (n * i) (concat (map f xs)) = concat (map f (drop i xs))"
proof (induction xs arbitrary: i)
  case (Cons x xs)
  then show ?case by (cases i) simp_all
qed simp

lemma length_point_bytes [simp, byte_simps]: "length (point_bytes mf p) = point_size"
  by (simp add: point_bytes_def point_size_def byte_simps)

lemma length_points: "length (concat (map (point_bytes mf) ps)) = point_size * length ps"
  by (induction ps) simp_all

text \<open>A read within the block of one point is a read of its bytes.\<close>

lemma rd_point:
  assumes "i < length ps" "off + k \<le> point_size"
  shows "peek (concat (map (point_bytes mf) ps)) (point_size * i + off) k = peek (point_bytes mf (ps ! i)) off k"
proof -
  have "point_size * Suc i \<le> point_size * length ps" using assms(1) by (intro mult_le_mono) simp_all
  then have "point_size * i + off + k \<le> length (concat (map (point_bytes mf) ps))"
    using assms(2) by (simp add: length_points)
  moreover have "drop (point_size * i + off) (concat (map (point_bytes mf) ps)) =
      drop off (point_bytes mf (ps ! i) @ concat (map (point_bytes mf) (drop (Suc i) ps)))"
    by (simp add: drop_blocks Cons_nth_drop_Suc [OF assms(1), symmetric] flip: drop_drop add.commute)
  ultimately show ?thesis using assms(2) by (simp add: peek_in_bounds)
qed

lemma point_fields:
  "rd32 (point_bytes mf p) 0 = Some (pt_x p)" "rd32 (point_bytes mf p) 4 = Some (pt_y p)"
  "rd32 (point_bytes mf p) 8 = Some (pt_z p)" "rd32 (point_bytes mf p) 12 = Some (pt_intensity p)"
  "rd8 (point_bytes mf p) 16 = Some (pt_tag p)" "rd8 (point_bytes mf p) 17 = Some (pt_line p)"
  "rd64 (point_bytes mf p) 18 = Some (to_double mf (pt_offset_time p))"
  by (simp_all add: rd8_def rd32_def rd64_def peek_def point_bytes_def byte_simps)

text \<open>
  A point cloud as its reader sees it: the value of a field of the point \<open>i\<close>, found by its name in the
  field table and read at its offset in the type it is declared with.
\<close>

datatype field_value = Float32 u32 | Float64 u64 | UInt8 u8

definition cloud_value :: "PointCloud2 \<Rightarrow> nat \<Rightarrow> string \<Rightarrow> field_value option" where
  "cloud_value c i name =
     (case find (\<lambda>f. field_name f = name) (pc_fields c) of
        None \<Rightarrow> None
      | Some f \<Rightarrow>
          if field_count f \<noteq> 1 then None
          else let p = unat (pc_point_step c) * i + field_offset f in
            case field_datatype f of
              FLOAT32 \<Rightarrow> map_option Float32 (rd32 (pc_data c) p)
            | FLOAT64 \<Rightarrow> map_option Float64 (rd64 (pc_data c) p)
            | UINT8 \<Rightarrow> map_option UInt8 (rd8 (pc_data c) p))"

text \<open>
  C27. The data of a published point cloud is read back by its own field table: the fields are x,
  y, z, intensity, tag, line and timestamp; looked up by these names and read in the types they
  are declared with, they give for each point its coordinates and intensity as 32-bit floats, its
  tag and line as bytes and its time as a 64-bit float; and the length is width times point step.
\<close>
theorem cloud_layout:
  assumes "InitPointcloud2Msg mf l pkg = Some (c, t)" "i < unat (points_num pkg)"
  shows "length (pc_data c) = unat (pc_width c) * unat (pc_point_step c) \<and> unat (pc_width c) = unat (points_num pkg) \<and>
    map field_name (pc_fields c) = [''x'', ''y'', ''z'', ''intensity'', ''tag'', ''line'', ''timestamp''] \<and>
    map (cloud_value c i) [''x'', ''y'', ''z'', ''intensity'', ''tag'', ''line'', ''timestamp''] =
      map Some (let p = points pkg ! i in
        [Float32 (pt_x p), Float32 (pt_y p), Float32 (pt_z p), Float32 (pt_intensity p), UInt8 (pt_tag p),
         UInt8 (pt_line p), Float64 (to_double mf (pt_offset_time p))])"
proof -
  have pts: "packet_points pkg = Some (take (unat (points_num pkg)) (points pkg))" "unat (points_num pkg) \<le> length (points pkg)"
    using assms(1) by (auto simp: InitPointcloud2Msg_def packet_points_def split: if_splits)
  let ?ps = "take (unat (points_num pkg)) (points pkg)"
  have c: "pc_data c = concat (map (point_bytes mf) ?ps)" "pc_width c = points_num pkg" "pc_point_step c = 26"
    "pc_fields c = pc_fields (InitPointcloud2MsgHeader l empty_cloud)"
    using assms(1) pts by (auto simp: InitPointcloud2Msg_def point_size_def Let_def)
  have i: "i < length ?ps" "?ps ! i = points pkg ! i" using assms(2) pts(2) by simp_all
  note at = rd_point [OF i(1), of _ _ mf, unfolded i(2) point_size_def]
  have r: "rd8 (pc_data c) (26 * i + off) = rd8 (point_bytes mf (points pkg ! i)) off" if "off + 1 \<le> 26" for off
    using at [OF that] by (simp only: rd8_def c(1))
  have r4: "rd32 (pc_data c) (26 * i + off) = rd32 (point_bytes mf (points pkg ! i)) off" if "off + 4 \<le> 26" for off
    using at [OF that] by (simp only: rd32_def c(1))
  have r8: "rd64 (pc_data c) (26 * i + off) = rd64 (point_bytes mf (points pkg ! i)) off" if "off + 8 \<le> 26" for off
    using at [OF that] by (simp only: rd64_def c(1))
  have "length (pc_data c) = unat (pc_width c) * unat (pc_point_step c)"
    using pts(2) by (simp add: c length_points point_size_def)
  moreover have "rd32 (pc_data c) (26 * i) = Some (pt_x (points pkg ! i))" using r4 [of 0] by (simp add: point_fields)
  ultimately show ?thesis
    by (simp add: c(2-4) cloud_value_def InitPointcloud2MsgHeader_def r r4 r8 point_fields Let_def)
qed

theorem cloud_layout_witness:
  "\<exists>c t. InitPointcloud2Msg demo_floats demo_lddc (stored demo_packet) = Some (c, t) \<and>
    cloud_value c 0 ''timestamp'' = Some (Float64 7)"
proof -
  obtain c t where c: "InitPointcloud2Msg demo_floats demo_lddc (stored demo_packet) = Some (c, t)"
    by (simp add: InitPointcloud2Msg_def packet_points_def stored_def demo_packet_def)
  from cloud_layout [OF c, of 0] c show ?thesis by (auto simp: stored_def demo_packet_def demo_point_def demo_floats_def)
qed

end
