(* ===== verification/Pub_Handler.thy ===== *)
theory Pub_Handler
  imports Lddc Livox_Defs
begin

text \<open>
  The point publisher of the ROS driver (livox\_driver/src/comm/pub\_handler.cpp): it takes the
  packets that the SDK's data thread delivers, converts their points, collects them for each
  lidar, and hands a frame of the collected points to the callback when its time has come. The
  callback of the data thread and one turn of the processing thread are the steps.

  A packet is the datagram in its buffer; a read beyond the buffer is \<open>None\<close>, and so are a division by
  zero and a store beyond the arrays of the frame. Floats and doubles are the words of their bits,
  and what the processor computes with them is the parameter \<open>float_ops\<close>. Times are nanoseconds of
  the host's clock.
\<close>

section \<open>Arithmetic of the points\<close>

record float_ops =
  f_of_int :: "int \<Rightarrow> u32"
  f_add :: "u32 \<Rightarrow> u32 \<Rightarrow> u32"
  f_mul :: "u32 \<Rightarrow> u32 \<Rightarrow> u32"
  f_of_d :: "u64 \<Rightarrow> u32"
  d_of_f :: "u32 \<Rightarrow> u64"
  d_of_int :: "int \<Rightarrow> u64"
  d_add :: "u64 \<Rightarrow> u64 \<Rightarrow> u64"
  d_sub :: "u64 \<Rightarrow> u64 \<Rightarrow> u64"
  d_mul :: "u64 \<Rightarrow> u64 \<Rightarrow> u64"
  d_div :: "u64 \<Rightarrow> u64 \<Rightarrow> u64"
  d_neg :: "u64 \<Rightarrow> u64"
  d_sin :: "u64 \<Rightarrow> u64"
  d_cos :: "u64 \<Rightarrow> u64"

type_synonym 'a vec3 = "'a \<times> 'a \<times> 'a"

record ExtParameterDetailed =
  ext_trans :: "u32 vec3"
  ext_rotation :: "u32 vec3 vec3"

record LidarExtParameter =
  lep_lidar_type :: u8
  lep_handle :: u32
  lep_param :: "u32 ExtParameter"

text \<open>The bits of \<open>PI\<close> and of the float \<open>1\<close>; the bits of zero are zero.\<close>

definition PI_bits :: u64 where "PI_bits = 0x400921FB54442D18"
definition f_one :: u32 where "f_one = 0x3F800000"

definition default_extrinsic :: ExtParameterDetailed where
  "default_extrinsic = \<lparr>ext_trans = (0, 0, 0), ext_rotation = ((f_one, 0, 0), (0, f_one, f_one), (0, 0, f_one))\<rparr>"

definition radians :: "float_ops \<Rightarrow> u32 \<Rightarrow> u64" where
  "radians fl a = d_div fl (d_mul fl (d_of_f fl a) PI_bits) (d_of_int fl 180)"

definition rotation_of :: "float_ops \<Rightarrow> u32 ExtParameter \<Rightarrow> u32 vec3 vec3" where
  "rotation_of fl p =
     (let cos_roll = d_cos fl (radians fl (ext_roll p)); cos_pitch = d_cos fl (radians fl (ext_pitch p));
          cos_yaw = d_cos fl (radians fl (ext_yaw p)); sin_roll = d_sin fl (radians fl (ext_roll p));
          sin_pitch = d_sin fl (radians fl (ext_pitch p)); sin_yaw = d_sin fl (radians fl (ext_yaw p));
          mul = d_mul fl; add = d_add fl; sub = d_sub fl; f = f_of_d fl
      in ((f (mul cos_pitch cos_yaw),
           f (sub (mul (mul sin_roll sin_pitch) cos_yaw) (mul cos_roll sin_yaw)),
           f (add (mul (mul cos_roll sin_pitch) cos_yaw) (mul sin_roll sin_yaw))),
          (f (mul cos_pitch sin_yaw),
           f (add (mul (mul sin_roll sin_pitch) sin_yaw) (mul cos_roll cos_yaw)),
           f (sub (mul (mul cos_roll sin_pitch) sin_yaw) (mul sin_roll cos_yaw))),
          (f (d_neg fl sin_pitch), f (mul sin_roll cos_pitch), f (mul cos_roll cos_pitch))))"

text \<open>
  One coordinate. In the Cartesian formats the integer is converted to a float, the sum is a float,
  and only the division is made in double precision; in the spherical format all is double.
\<close>

definition cartesian_row :: "float_ops \<Rightarrow> int \<Rightarrow> u32 vec3 \<Rightarrow> u32 \<Rightarrow> int vec3 \<Rightarrow> u32" where
  "cartesian_row fl unit row t p = (case row of (r0, r1, r2) \<Rightarrow> case p of (x, y, z) \<Rightarrow>
     f_of_d fl (d_div fl (d_of_f fl
       (f_add fl (f_add fl (f_add fl (f_mul fl (f_of_int fl x) r0) (f_mul fl (f_of_int fl y) r1))
         (f_mul fl (f_of_int fl z) r2)) t)) (d_of_int fl unit)))"

definition cartesian :: "float_ops \<Rightarrow> int \<Rightarrow> bool \<Rightarrow> ExtParameterDetailed \<Rightarrow> int vec3 \<Rightarrow> u32 vec3" where
  "cartesian fl unit enable e p =
     (case p of (x, y, z) \<Rightarrow> case ext_rotation e of (rx, ry, rz) \<Rightarrow> case ext_trans e of (tx, ty, tz) \<Rightarrow>
       if enable
       then (f_of_d fl (d_div fl (d_of_int fl x) (d_of_int fl unit)), f_of_d fl (d_div fl (d_of_int fl y) (d_of_int fl unit)),
             f_of_d fl (d_div fl (d_of_int fl z) (d_of_int fl unit)))
       else (cartesian_row fl unit rx tx p, cartesian_row fl unit ry ty p, cartesian_row fl unit rz tz p))"

definition spherical_row :: "float_ops \<Rightarrow> u32 vec3 \<Rightarrow> u32 \<Rightarrow> u64 vec3 \<Rightarrow> u32" where
  "spherical_row fl row t p = (case row of (r0, r1, r2) \<Rightarrow> case p of (x, y, z) \<Rightarrow>
     f_of_d fl (d_add fl (d_add fl (d_add fl (d_mul fl x (d_of_f fl r0)) (d_mul fl y (d_of_f fl r1)))
       (d_mul fl z (d_of_f fl r2))) (d_div fl (d_of_f fl t) (d_of_int fl 1000))))"

definition spherical_angle :: "float_ops \<Rightarrow> u16 \<Rightarrow> u64" where
  "spherical_angle fl a =
     d_mul fl (d_div fl (d_div fl (d_of_int fl (uint a)) (d_of_int fl 100)) (d_of_int fl 180)) PI_bits"

definition spherical_point :: "float_ops \<Rightarrow> u32 \<Rightarrow> u16 \<Rightarrow> u16 \<Rightarrow> u64 vec3" where
  "spherical_point fl depth theta phi =
     (let radius = d_div fl (d_of_int fl (uint depth)) (d_of_int fl 1000); theta = spherical_angle fl theta;
          phi = spherical_angle fl phi
      in (d_mul fl (d_mul fl radius (d_sin fl theta)) (d_cos fl phi),
          d_mul fl (d_mul fl radius (d_sin fl theta)) (d_sin fl phi), d_mul fl radius (d_cos fl theta)))"

definition spherical :: "float_ops \<Rightarrow> bool \<Rightarrow> ExtParameterDetailed \<Rightarrow> u64 vec3 \<Rightarrow> u32 vec3" where
  "spherical fl enable e p =
     (case p of (x, y, z) \<Rightarrow> case ext_rotation e of (rx, ry, rz) \<Rightarrow> case ext_trans e of (tx, ty, tz) \<Rightarrow>
       if enable then (f_of_d fl x, f_of_d fl y, f_of_d fl z)
       else (spherical_row fl rx tx p, spherical_row fl ry ty p, spherical_row fl rz tz p))"

section \<open>The points of one lidar\<close>

record RawPacket =
  raw_lidar_type :: u8
  raw_handle :: u32
  extrinsic_enable :: bool
  point_num :: u32
  raw_data_type :: u8
  line_num :: u8
  raw_time_stamp :: u64
  point_interval :: u64
  raw_data :: "u8 list"

record LidarPubHandler =
  points_clouds :: "PointXyzlt list"
  extrinsic :: ExtParameterDetailed
  is_set_extrinsic_params :: bool

definition new_LidarPubHandler :: LidarPubHandler where
  "new_LidarPubHandler = \<lparr>points_clouds = [], extrinsic = default_extrinsic, is_set_extrinsic_params = False\<rparr>"

definition SetLidarsExtParam :: "float_ops \<Rightarrow> LidarExtParameter \<Rightarrow> LidarPubHandler \<Rightarrow> LidarPubHandler" where
  "SetLidarsExtParam fl lidar_param h =
     (if is_set_extrinsic_params h then h
      else let p = lep_param lidar_param in
        h\<lparr>extrinsic := \<lparr>ext_trans = (f_of_int fl (sint (ext_x p)), f_of_int fl (sint (ext_y p)), f_of_int fl (sint (ext_z p))),
            ext_rotation = rotation_of fl p\<rparr>, is_set_extrinsic_params := True\<rparr>)"

text \<open>What the three formats have in common, and the number of bytes of a point.\<close>

definition mk_point :: "float_ops \<Rightarrow> RawPacket \<Rightarrow> nat \<Rightarrow> u32 vec3 \<Rightarrow> u8 \<Rightarrow> u8 \<Rightarrow> PointXyzlt option" where
  "mk_point fl pkt i xyz reflectivity tag =
     (if line_num pkt = 0 then None
      else case xyz of (x, y, z) \<Rightarrow> Some
        \<lparr>pt_x = x, pt_y = y, pt_z = z, pt_intensity = f_of_int fl (uint reflectivity), pt_tag = tag,
         pt_line = of_nat (i mod unat (line_num pkt)),
         pt_offset_time = raw_time_stamp pkt + of_nat i * point_interval pkt\<rparr>)"

definition high_point :: "float_ops \<Rightarrow> ExtParameterDetailed \<Rightarrow> RawPacket \<Rightarrow> nat \<Rightarrow> PointXyzlt option" where
  "high_point fl e pkt i = do {
     x \<leftarrow> rd32 (raw_data pkt) (14 * i); y \<leftarrow> rd32 (raw_data pkt) (14 * i + 4); z \<leftarrow> rd32 (raw_data pkt) (14 * i + 8);
     reflectivity \<leftarrow> rd8 (raw_data pkt) (14 * i + 12); tag \<leftarrow> rd8 (raw_data pkt) (14 * i + 13);
     mk_point fl pkt i (cartesian fl 1000 (extrinsic_enable pkt) e (sint x, sint y, sint z)) reflectivity tag }"

definition low_point :: "float_ops \<Rightarrow> ExtParameterDetailed \<Rightarrow> RawPacket \<Rightarrow> nat \<Rightarrow> PointXyzlt option" where
  "low_point fl e pkt i = do {
     x \<leftarrow> rd16 (raw_data pkt) (8 * i); y \<leftarrow> rd16 (raw_data pkt) (8 * i + 2); z \<leftarrow> rd16 (raw_data pkt) (8 * i + 4);
     reflectivity \<leftarrow> rd8 (raw_data pkt) (8 * i + 6); tag \<leftarrow> rd8 (raw_data pkt) (8 * i + 7);
     mk_point fl pkt i (cartesian fl 100 (extrinsic_enable pkt) e (sint x, sint y, sint z)) reflectivity tag }"

definition spher_point :: "float_ops \<Rightarrow> ExtParameterDetailed \<Rightarrow> RawPacket \<Rightarrow> nat \<Rightarrow> PointXyzlt option" where
  "spher_point fl e pkt i = do {
     depth \<leftarrow> rd32 (raw_data pkt) (10 * i); theta \<leftarrow> rd16 (raw_data pkt) (10 * i + 4);
     phi \<leftarrow> rd16 (raw_data pkt) (10 * i + 6);
     reflectivity \<leftarrow> rd8 (raw_data pkt) (10 * i + 8); tag \<leftarrow> rd8 (raw_data pkt) (10 * i + 9);
     mk_point fl pkt i (spherical fl (extrinsic_enable pkt) e (spherical_point fl depth theta phi)) reflectivity tag }"

definition process_points :: "(nat \<Rightarrow> PointXyzlt option) \<Rightarrow> RawPacket \<Rightarrow> LidarPubHandler \<Rightarrow> LidarPubHandler option" where
  "process_points f pkt h = do {
     pts \<leftarrow> those (map f [0..<unat (point_num pkt)]);
     Some (h\<lparr>points_clouds := points_clouds h @ pts\<rparr>) }"

definition ProcessCartesianHighPoint :: "float_ops \<Rightarrow> RawPacket \<Rightarrow> LidarPubHandler \<Rightarrow> LidarPubHandler option" where
  "ProcessCartesianHighPoint fl pkt h = process_points (high_point fl (extrinsic h) pkt) pkt h"

definition ProcessCartesianLowPoint :: "float_ops \<Rightarrow> RawPacket \<Rightarrow> LidarPubHandler \<Rightarrow> LidarPubHandler option" where
  "ProcessCartesianLowPoint fl pkt h = process_points (low_point fl (extrinsic h) pkt) pkt h"

definition ProcessSphericalPoint :: "float_ops \<Rightarrow> RawPacket \<Rightarrow> LidarPubHandler \<Rightarrow> LidarPubHandler option" where
  "ProcessSphericalPoint fl pkt h = process_points (spher_point fl (extrinsic h) pkt) pkt h"

definition LivoxLidarPointCloudProcess :: "float_ops \<Rightarrow> RawPacket \<Rightarrow> LidarPubHandler \<Rightarrow> LidarPubHandler option" where
  "LivoxLidarPointCloudProcess fl pkt h =
     (let t = raw_data_type pkt in
      if t = point_data_type_code kLivoxLidarCartesianCoordinateHighData then ProcessCartesianHighPoint fl pkt h
      else if t = point_data_type_code kLivoxLidarCartesianCoordinateLowData then ProcessCartesianLowPoint fl pkt h
      else if t = point_data_type_code kLivoxLidarSphericalCoordinateData then ProcessSphericalPoint fl pkt h
      else Some h)"

definition PointCloudProcess :: "float_ops \<Rightarrow> RawPacket \<Rightarrow> LidarPubHandler \<Rightarrow> LidarPubHandler option" where
  "PointCloudProcess fl pkt h =
     (if raw_lidar_type pkt = kLivoxLidarType then LivoxLidarPointCloudProcess fl pkt h else Some h)"

definition GetLidarBaseTime :: "LidarPubHandler \<Rightarrow> u64" where
  "GetLidarBaseTime h = (if points_clouds h = [] then 0 else pt_offset_time (hd (points_clouds h)))"

definition GetRecentTimeStamp :: "LidarPubHandler \<Rightarrow> u64" where
  "GetRecentTimeStamp h = (if points_clouds h = [] then 0 else pt_offset_time (last (points_clouds h)))"

definition GetLidarPointCloudsSize :: "LidarPubHandler \<Rightarrow> u32" where
  "GetLidarPointCloudsSize h = of_nat (length (points_clouds h))"

text \<open>The swap with a vector that was cleared before.\<close>

definition GetLidarPointClouds :: "LidarPubHandler \<Rightarrow> PointXyzlt list \<times> LidarPubHandler" where
  "GetLidarPointClouds h = (points_clouds h, h\<lparr>points_clouds := []\<rparr>)"

section \<open>The publisher\<close>

text \<open>
  \<open>first_time\<close> is the static variable of \<open>CheckTimer\<close>, \<open>is_timestamp_sync\<close> a static member. The points of a
  packet of the frame are the list its pointer leads to at the time of the callback; entries from
  \<open>frame_lidar_num\<close> on are left over and nobody reads them.
\<close>

record PubHandler =
  raw_packet_queue :: "RawPacket list"
  lidar_process_handlers :: "(u32 \<times> LidarPubHandler) list"
  lidar_extrinsics :: "(u32 \<times> LidarExtParameter) list"
  pub_frame :: "PointXyzlt PointFrame"
  publish_interval :: u64
  publish_interval_tolerance :: u64
  publish_interval_ms :: u64
  last_pub_time :: int
  first_time :: bool
  is_timestamp_sync :: bool
  points_callback :: bool
  imu_callback :: bool
  is_quit :: bool

definition new_PubHandler :: PubHandler where
  "new_PubHandler = \<lparr>raw_packet_queue = [], lidar_process_handlers = [], lidar_extrinsics = [],
     pub_frame = \<lparr>frame_base_time = replicate kMaxSourceLidar 0, frame_lidar_num = 0,
       frame_lidar_point = replicate kMaxSourceLidar
         \<lparr>pkt_handle = 0, pkt_lidar_type = 0, pkt_points_num = 0, pkt_points = []\<rparr>\<rparr>,
     publish_interval = 100000000, publish_interval_tolerance = 100000000, publish_interval_ms = 100,
     last_pub_time = 0, first_time = True, is_timestamp_sync = False, points_callback = False, imu_callback = False,
     is_quit = False\<rparr>"

datatype PubOut = PublishFrame "PointXyzlt PointFrame" | PublishImu "u32 ImuData"

definition PubHandler_RequestExit :: "PubHandler \<Rightarrow> PubHandler" where
  "PubHandler_RequestExit s = s\<lparr>is_quit := True\<rparr>"

text \<open>\<open>interval\<close> is \<open>(kNsPerSecond / (publish_freq * 10)) * 10\<close>, converted to 64 bits.\<close>

definition SetPointCloudConfig :: "u64 \<Rightarrow> PubHandler \<Rightarrow> PubHandler" where
  "SetPointCloudConfig interval s =
     s\<lparr>publish_interval := interval, publish_interval_tolerance := interval - 1000000,
       publish_interval_ms := interval div 1000000\<rparr>"

definition SetPointCloudsCallback :: "PubHandler \<Rightarrow> PubHandler" where
  "SetPointCloudsCallback s = s\<lparr>points_callback := True\<rparr>"

definition SetImuDataCallback :: "PubHandler \<Rightarrow> PubHandler" where
  "SetImuDataCallback s = s\<lparr>imu_callback := True\<rparr>"

definition GetLidarId :: "u8 \<Rightarrow> u32 \<Rightarrow> u32 \<Rightarrow> bool \<times> u32" where
  "GetLidarId lidar_type handle lidar_id = (if lidar_type = kLivoxLidarType then (True, handle) else (False, lidar_id))"

definition AddLidarsExtParam :: "LidarExtParameter \<Rightarrow> PubHandler \<Rightarrow> PubHandler" where
  "AddLidarsExtParam p s =
     (let (_, lidar_id) = GetLidarId (lep_lidar_type p) (lep_handle p) 0
      in s\<lparr>lidar_extrinsics := map_put lidar_id p (lidar_extrinsics s)\<rparr>)"

definition ClearAllLidarsExtrinsicParams :: "PubHandler \<Rightarrow> PubHandler" where
  "ClearAllLidarsExtrinsicParams s = s\<lparr>lidar_extrinsics := []\<rparr>"

section \<open>Receiving a packet\<close>

text \<open>
  The fields of \<open>LivoxLidarEthernetPacket\<close> in the buffer of the datagram. The points begin at byte 36; the
  size of the struct, which ends in an array of one byte, is 37.
\<close>

definition kTimestampTypeNoSync :: u8 where "kTimestampTypeNoSync = 0"
definition kTimestampTypeGptpOrPtp :: u8 where "kTimestampTypeGptpOrPtp = 1"
definition kTimestampTypeGps :: u8 where "kTimestampTypeGps = 2"

definition GetEthPacketTimestamp :: "int \<Rightarrow> u8 \<Rightarrow> u64 \<Rightarrow> u64" where
  "GetEthPacketTimestamp now timestamp_type stamp =
     (if timestamp_type = kTimestampTypeGptpOrPtp \<or> timestamp_type = kTimestampTypeGps then stamp else of_int now)"

definition line_number :: "u8 \<Rightarrow> u8" where
  "line_number dev_type =
     (if dev_type = dev_type_code kLivoxLidarTypeIndustrialHAP then 6
      else if dev_type = dev_type_code kLivoxLidarTypeMid360 then 4 else 1)"

definition imu_of :: "u8 \<Rightarrow> u32 \<Rightarrow> u64 \<Rightarrow> u8 list \<Rightarrow> u32 ImuData option" where
  "imu_of junk handle t buf = do {
     gx \<leftarrow> rd32 buf 36; gy \<leftarrow> rd32 buf 40; gz \<leftarrow> rd32 buf 44; ax \<leftarrow> rd32 buf 48; ay \<leftarrow> rd32 buf 52; az \<leftarrow> rd32 buf 56;
     Some \<lparr>imu_lidar_type = kLivoxLidarType, imu_handle = handle, imu_slot = junk, imu_time_stamp = t,
       gyro_x = gx, gyro_y = gy, gyro_z = gz, acc_x = ax, acc_y = ay, acc_z = az\<rparr> }"

definition raw_packet_of :: "u32 \<Rightarrow> u8 \<Rightarrow> u64 \<Rightarrow> u8 list \<Rightarrow> RawPacket option" where
  "raw_packet_of handle dev_type t buf = do {
     len \<leftarrow> rd16 buf 1; time_interval \<leftarrow> rd16 buf 3; dot_num \<leftarrow> rd16 buf 5; data_type \<leftarrow> rd8 buf 10;
     raw \<leftarrow> peek buf 36 (unat (ucast len - 37 + 1 :: u32));
     if dot_num = 0 then None
     else Some \<lparr>raw_lidar_type = kLivoxLidarType, raw_handle = handle, extrinsic_enable = False, point_num = ucast dot_num,
       raw_data_type = data_type, line_num = line_number dev_type, raw_time_stamp = t,
       point_interval = of_nat (unat time_interval * 100 div unat dot_num), raw_data = raw\<rparr> }"

definition OnLivoxLidarPointCloudCallback ::
  "u8 \<Rightarrow> int \<Rightarrow> u32 \<Rightarrow> u8 \<Rightarrow> u8 list \<Rightarrow> PubHandler \<Rightarrow> (PubOut list \<times> PubHandler) option" where
  "OnLivoxLidarPointCloudCallback junk now handle dev_type buf s = do {
     time_type \<leftarrow> rd8 buf 11; stamp \<leftarrow> rd64 buf 28; data_type \<leftarrow> rd8 buf 10;
     let t = GetEthPacketTimestamp now time_type stamp;
     let s = s\<lparr>is_timestamp_sync := (time_type \<noteq> kTimestampTypeNoSync)\<rparr>;
     if data_type = point_data_type_code kLivoxLidarImuData
     then if imu_callback s then do { d \<leftarrow> imu_of junk handle t buf; Some ([PublishImu d], s) } else Some ([], s)
     else do { pkt \<leftarrow> raw_packet_of handle dev_type t buf; Some ([], s\<lparr>raw_packet_queue := raw_packet_queue s @ [pkt]\<rparr>) } }"

section \<open>Processing a packet\<close>

definition PublishPointCloud :: "PubHandler \<Rightarrow> PubOut list" where
  "PublishPointCloud s = (if points_callback s then [PublishFrame (pub_frame s)] else [])"

text \<open>The lidar \<open>lidar_id\<close> into the frame, if it has points: the body of the loop and of the other branch.\<close>

definition frame_add :: "u32 \<Rightarrow> LidarPubHandler \<Rightarrow> PointXyzlt PointFrame \<Rightarrow> (PointXyzlt PointFrame \<times> LidarPubHandler) option" where
  "frame_add lidar_id h frame =
     (let n = unat (frame_lidar_num frame) in
      if length (frame_base_time frame) \<le> n then None
      else let frame = frame\<lparr>frame_base_time := (frame_base_time frame)[n := GetLidarBaseTime h]\<rparr>;
               (pts, h) = GetLidarPointClouds h
        in if pts = [] then Some (frame, h)
           else if length (frame_lidar_point frame) \<le> n then None
           else Some (frame\<lparr>frame_lidar_point := (frame_lidar_point frame)[n :=
                 \<lparr>pkt_handle = lidar_id, pkt_lidar_type = kLivoxLidarType, pkt_points_num = of_nat (length pts), pkt_points = pts\<rparr>],
               frame_lidar_num := frame_lidar_num frame + 1\<rparr>, h))"

fun frame_add_all ::
  "(u32 \<times> LidarPubHandler) list \<Rightarrow> PointXyzlt PointFrame \<Rightarrow> (PointXyzlt PointFrame \<times> (u32 \<times> LidarPubHandler) list) option" where
  "frame_add_all [] frame = Some (frame, [])"
| "frame_add_all ((lidar_id, h) # hs) frame = do {
     (frame, h) \<leftarrow> frame_add lidar_id h frame;
     (frame, hs) \<leftarrow> frame_add_all hs frame;
     Some (frame, (lidar_id, h) # hs) }"

definition check_synced :: "u32 \<Rightarrow> LidarPubHandler \<Rightarrow> PubHandler \<Rightarrow> (PubOut list \<times> PubHandler) option" where
  "check_synced lidar_id h s =
     (let recent_time_ms = GetRecentTimeStamp h div 1000000 in
      if publish_interval_ms s = 0 then None
      else if recent_time_ms mod publish_interval_ms s \<noteq> 0 \<or> recent_time_ms = 0 then Some ([], s)
      else if GetRecentTimeStamp h - GetLidarBaseTime h < publish_interval_tolerance s then Some ([], s)
      else do {
        (frame, h') \<leftarrow> frame_add lidar_id h (pub_frame s);
        let s = s\<lparr>pub_frame := frame, lidar_process_handlers := map_put lidar_id h' (lidar_process_handlers s)\<rparr>;
        if points_clouds h = [] then Some ([], s)
        else Some (if frame_lidar_num frame \<noteq> 0 then PublishPointCloud s else [],
          s\<lparr>pub_frame := frame\<lparr>frame_lidar_num := 0\<rparr>\<rparr>) })"

definition check_unsynced :: "int \<Rightarrow> PubHandler \<Rightarrow> (PubOut list \<times> PubHandler) option" where
  "check_unsynced now s =
     (if first_time s then Some ([], s\<lparr>last_pub_time := now, first_time := False\<rparr>)
      else if now - last_pub_time s < sint (publish_interval s) then Some ([], s)
      else do {
        (frame, hs) \<leftarrow> frame_add_all (lidar_process_handlers s) (pub_frame s);
        let s = s\<lparr>last_pub_time := last_pub_time s + sint (publish_interval s), lidar_process_handlers := hs, pub_frame := frame\<rparr>;
        Some (PublishPointCloud s, s\<lparr>pub_frame := frame\<lparr>frame_lidar_num := 0\<rparr>\<rparr>) })"

definition CheckTimer :: "int \<Rightarrow> u32 \<Rightarrow> PubHandler \<Rightarrow> (PubOut list \<times> PubHandler) option" where
  "CheckTimer now lidar_id s =
     (if is_timestamp_sync s
      then case map_of (lidar_process_handlers s) lidar_id of None \<Rightarrow> None | Some h \<Rightarrow> check_synced lidar_id h s
      else check_unsynced now s)"

text \<open>One turn of the processing loop; with an empty queue it waits.\<close>

definition RawDataProcess :: "float_ops \<Rightarrow> int \<Rightarrow> PubHandler \<Rightarrow> (PubOut list \<times> PubHandler) option" where
  "RawDataProcess fl now s =
     (if is_quit s then Some ([], s)
      else case raw_packet_queue s of
        [] \<Rightarrow> Some ([], s)
      | pkt # rest \<Rightarrow>
          let s = s\<lparr>raw_packet_queue := rest\<rparr>;
              (_, lidar_id) = GetLidarId (raw_lidar_type pkt) (raw_handle pkt) 0;
              h = (case map_of (lidar_process_handlers s) lidar_id of None \<Rightarrow> new_LidarPubHandler | Some h \<Rightarrow> h);
              h = (case map_of (lidar_extrinsics s) lidar_id of None \<Rightarrow> h | Some p \<Rightarrow> SetLidarsExtParam fl p h)
          in do {
            h \<leftarrow> PointCloudProcess fl pkt h;
            CheckTimer now lidar_id (s\<lparr>lidar_process_handlers := map_put lidar_id h (lidar_process_handlers s)\<rparr>) })"

section \<open>What a packet's points are\<close>

lemma those_map_Some: "(\<And>x. x \<in> set xs \<Longrightarrow> f x \<noteq> None) \<Longrightarrow> \<exists>ys. those (map f xs) = Some ys"
proof (induction xs)
  case (Cons x xs)
  then obtain y ys where "f x = Some y" "those (map f xs) = Some ys" by force
  then show ?case by simp
qed simp

definition point_bytes_of :: "u8 \<Rightarrow> nat" where
  "point_bytes_of t =
     (if t = point_data_type_code kLivoxLidarCartesianCoordinateHighData then 14
      else if t = point_data_type_code kLivoxLidarCartesianCoordinateLowData then 8
      else if t = point_data_type_code kLivoxLidarSphericalCoordinateData then 10 else 0)"

definition decode_points :: "float_ops \<Rightarrow> ExtParameterDetailed \<Rightarrow> RawPacket \<Rightarrow> PointXyzlt list option" where
  "decode_points fl e pkt =
     (let t = raw_data_type pkt; all = \<lambda>f. those (map (f fl e pkt) [0..<unat (point_num pkt)]) in
      if raw_lidar_type pkt \<noteq> kLivoxLidarType then Some []
      else if t = point_data_type_code kLivoxLidarCartesianCoordinateHighData then all high_point
      else if t = point_data_type_code kLivoxLidarCartesianCoordinateLowData then all low_point
      else if t = point_data_type_code kLivoxLidarSphericalCoordinateData then all spher_point
      else Some [])"

lemma PointCloudProcess_decode:
  "PointCloudProcess fl pkt h =
     map_option (\<lambda>pts. h\<lparr>points_clouds := points_clouds h @ pts\<rparr>) (decode_points fl (extrinsic h) pkt)"
  by (auto simp: PointCloudProcess_def LivoxLidarPointCloudProcess_def ProcessCartesianHighPoint_def
      ProcessCartesianLowPoint_def ProcessSphericalPoint_def process_points_def decode_points_def Let_def
      map_option_case split: option.splits)

text \<open>A packet is complete when its bytes hold the points it announces.\<close>

definition complete_packet :: "RawPacket \<Rightarrow> bool" where
  "complete_packet pkt \<longleftrightarrow> line_num pkt \<noteq> 0 \<and> point_bytes_of (raw_data_type pkt) * unat (point_num pkt) \<le> length (raw_data pkt)"

lemma point_within: "i < n \<Longrightarrow> k * n \<le> m \<Longrightarrow> k * i + k \<le> (m :: nat)"
proof -
  assume "i < n" "k * n \<le> m"
  moreover have "k * Suc i \<le> k * n" using \<open>i < n\<close> by (intro mult_le_mono2) simp
  ultimately show ?thesis by simp
qed

lemma mk_point_Some: "line_num pkt \<noteq> 0 \<Longrightarrow> mk_point fl pkt i xyz r t \<noteq> None"
  by (cases xyz) (simp add: mk_point_def)

lemma high_point_Some:
    "line_num pkt \<noteq> 0 \<Longrightarrow> i < n \<Longrightarrow> 14 * n \<le> length (raw_data pkt) \<Longrightarrow> \<exists>p. high_point fl e pkt i = Some p"
  and low_point_Some:
    "line_num pkt \<noteq> 0 \<Longrightarrow> i < n \<Longrightarrow> 8 * n \<le> length (raw_data pkt) \<Longrightarrow> \<exists>p. low_point fl e pkt i = Some p"
  and spher_point_Some:
    "line_num pkt \<noteq> 0 \<Longrightarrow> i < n \<Longrightarrow> 10 * n \<le> length (raw_data pkt) \<Longrightarrow> \<exists>p. spher_point fl e pkt i = Some p"
  using mk_point_Some [of pkt] unfolding high_point_def low_point_def spher_point_def
  by (auto dest!: point_within simp: rd_in_bounds rd8_nth)

lemma decode_complete: "complete_packet pkt \<Longrightarrow> \<exists>pts. decode_points fl e pkt = Some pts"
  unfolding complete_packet_def decode_points_def point_bytes_of_def Let_def
  by (auto intro!: those_map_Some intro: high_point_Some low_point_Some spher_point_Some split: if_splits)

section \<open>Points of a frame\<close>

definition entries :: "(u32 \<times> LidarPubHandler) list \<Rightarrow> PointXyzlt PointPacket list" where
  "entries hs = map (\<lambda>(i, h). \<lparr>pkt_handle = i, pkt_lidar_type = kLivoxLidarType,
     pkt_points_num = of_nat (length (points_clouds h)), pkt_points = points_clouds h\<rparr>)
     (filter (\<lambda>(i, h). points_clouds h \<noteq> []) hs)"

definition emptied :: "u32 \<times> LidarPubHandler \<Rightarrow> u32 \<times> LidarPubHandler" where
  "emptied p = (fst p, (snd p)\<lparr>points_clouds := []\<rparr>)"

lemma fst_emptied [simp]: "fst (emptied p) = fst p"
  by (simp add: emptied_def)

definition frame_ok :: "PointXyzlt PointFrame \<Rightarrow> bool" where
  "frame_ok frame \<longleftrightarrow> length (frame_base_time frame) = kMaxSourceLidar \<and> length (frame_lidar_point frame) = kMaxSourceLidar"

definition frame_packets :: "PointXyzlt PointFrame \<Rightarrow> PointXyzlt PointPacket list" where
  "frame_packets frame = take (unat (frame_lidar_num frame)) (frame_lidar_point frame)"

lemma unat_Suc_u8: "unat (n :: u8) < 255 \<Longrightarrow> unat (n + 1) = Suc (unat n)"
  by (simp add: unat_word_ariths)

lemma frame_add_ok:
  assumes "frame_ok frame" "unat (frame_lidar_num frame) < kMaxSourceLidar"
  shows "\<exists>frame'. frame_add i h frame = Some (frame', h\<lparr>points_clouds := []\<rparr>) \<and> frame_ok frame' \<and>
    unat (frame_lidar_num frame') = unat (frame_lidar_num frame) + length (entries [(i, h)]) \<and>
    frame_packets frame' = frame_packets frame @ entries [(i, h)]"
  using assms unat_Suc_u8 [of "frame_lidar_num frame"]
  by (auto simp: frame_add_def frame_ok_def Let_def GetLidarPointClouds_def entries_def frame_packets_def kMaxSourceLidar_def
      take_Suc_conv_app_nth)

lemma frame_add_all_ok:
  assumes "frame_ok frame" "unat (frame_lidar_num frame) + length hs \<le> kMaxSourceLidar"
  shows "\<exists>frame'. frame_add_all hs frame = Some (frame', map emptied hs) \<and> frame_ok frame' \<and>
    unat (frame_lidar_num frame') = unat (frame_lidar_num frame) + length (entries hs) \<and>
    frame_packets frame' = frame_packets frame @ entries hs"
  using assms
proof (induction hs arbitrary: frame)
  case Nil
  then show ?case by (simp add: entries_def)
next
  case (Cons p hs)
  obtain i h where p: "p = (i, h)" by (cases p)
  obtain frame1 where f1: "frame_add i h frame = Some (frame1, h\<lparr>points_clouds := []\<rparr>)" "frame_ok frame1"
    "unat (frame_lidar_num frame1) = unat (frame_lidar_num frame) + length (entries [(i, h)])"
    "frame_packets frame1 = frame_packets frame @ entries [(i, h)]"
    using frame_add_ok [of frame i h] Cons.prems by auto
  have e: "entries (p # hs) = entries [p] @ entries hs" "length (entries [p]) \<le> 1" by (auto simp: entries_def p)
  then obtain frame2 where "frame_add_all hs frame1 = Some (frame2, map emptied hs)" "frame_ok frame2"
    "unat (frame_lidar_num frame2) = unat (frame_lidar_num frame1) + length (entries hs)"
    "frame_packets frame2 = frame_packets frame1 @ entries hs"
    using Cons.IH [of frame1] Cons.prems f1 by (auto simp: p)
  then show ?case using f1 e by (simp add: p emptied_def)
qed

text \<open>The points of one lidar among the packets of a frame.\<close>

definition points_of :: "u32 \<Rightarrow> PointXyzlt PointPacket list \<Rightarrow> PointXyzlt list" where
  "points_of i ps = concat (map pkt_points (filter (\<lambda>p. pkt_handle p = i) ps))"

definition published :: "u32 \<Rightarrow> PubOut list \<Rightarrow> PointXyzlt list" where
  "published i outs =
     concat (map (\<lambda>out. case out of PublishFrame f \<Rightarrow> points_of i (frame_packets f) | PublishImu _ \<Rightarrow> []) outs)"

definition held :: "u32 \<Rightarrow> PubHandler \<Rightarrow> PointXyzlt list" where
  "held i s = (case map_of (lidar_process_handlers s) i of None \<Rightarrow> [] | Some h \<Rightarrow> points_clouds h)"

text \<open>A frame as the rest of the driver expects it.\<close>

definition packet_of_points :: "PointXyzlt PointPacket \<Rightarrow> bool" where
  "packet_of_points p \<longleftrightarrow> pkt_lidar_type p = kLivoxLidarType \<and> pkt_points_num p = of_nat (length (pkt_points p))"

definition out_ok :: "PubOut \<Rightarrow> bool" where
  "out_ok out = (case out of
     PublishFrame f \<Rightarrow> frame_ok f \<and> unat (frame_lidar_num f) \<le> kMaxSourceLidar \<and> list_all packet_of_points (frame_packets f)
   | PublishImu d \<Rightarrow> imu_lidar_type d = kLivoxLidarType)"

lemma entries_packets: "list_all packet_of_points (entries hs)"
  by (auto simp: entries_def packet_of_points_def list_all_iff)

lemma entries_le: "length (entries hs) \<le> length hs"
  by (simp add: entries_def)

lemma points_of_append [simp]: "points_of i (xs @ ys) = points_of i xs @ points_of i ys"
  by (simp add: points_of_def)

lemma published_append [simp]: "published i (xs @ ys) = published i xs @ published i ys"
  by (simp add: published_def)

lemma points_of_absent: "i \<notin> fst ` set hs \<Longrightarrow> points_of i (entries hs) = []"
  by (induction hs) (auto simp: entries_def points_of_def)

lemma points_of_entries:
  "distinct (map fst hs) \<Longrightarrow>
   points_of i (entries hs) = (case map_of hs i of None \<Rightarrow> [] | Some h \<Rightarrow> points_clouds h)"
proof (induction hs)
  case (Cons p hs)
  have "entries (p # hs) = entries [p] @ entries hs" by (simp add: entries_def)
  then show ?case using Cons points_of_absent [of i hs]
    by (cases p) (auto simp: entries_def points_of_def)
qed (simp add: entries_def points_of_def)

lemma map_of_emptied: "map_of (map emptied hs) i = map_option (\<lambda>h. h\<lparr>points_clouds := []\<rparr>) (map_of hs i)"
  by (induction hs) (auto simp: emptied_def)


section \<open>The timer\<close>

definition pub_wf :: "u32 set \<Rightarrow> PubHandler \<Rightarrow> bool" where
  "pub_wf L s \<longleftrightarrow> finite L \<and> card L \<le> kMaxSourceLidar \<and> frame_ok (pub_frame s) \<and> frame_lidar_num (pub_frame s) = 0 \<and>
     keys_sorted (lidar_process_handlers s) \<and> fst ` set (lidar_process_handlers s) \<subseteq> L \<and>
     points_callback s \<and> publish_interval_ms s \<noteq> 0 \<and>
     (\<forall>pkt \<in> set (raw_packet_queue s). complete_packet pkt \<and> raw_lidar_type pkt = kLivoxLidarType \<and> raw_handle pkt \<in> L)"

text \<open>What the timer leaves of a lidar's handler, and of the rest of the state.\<close>

definition settings :: "u32 \<Rightarrow> PubHandler \<Rightarrow> (ExtParameterDetailed \<times> bool) option" where
  "settings i s = map_option (\<lambda>h. (extrinsic h, is_set_extrinsic_params h)) (map_of (lidar_process_handlers s) i)"

definition timer_keeps :: "PubHandler \<Rightarrow> PubHandler \<Rightarrow> bool" where
  "timer_keeps s s' \<longleftrightarrow> raw_packet_queue s' = raw_packet_queue s \<and> lidar_extrinsics s' = lidar_extrinsics s \<and>
     (\<forall>i. settings i s' = settings i s)"

lemma handlers_bound: "pub_wf L s \<Longrightarrow> length (lidar_process_handlers s) \<le> kMaxSourceLidar"
proof -
  assume wf: "pub_wf L s"
  let ?hs = "lidar_process_handlers s"
  have "distinct (map fst ?hs)" using wf by (simp add: pub_wf_def keys_sorted_distinct)
  from distinct_card [OF this] have "length ?hs = card (fst ` set ?hs)" by simp
  also have "\<dots> \<le> card L" using wf by (auto simp: pub_wf_def intro: card_mono)
  finally show ?thesis using wf by (simp add: pub_wf_def)
qed

lemma packets_start: "frame_lidar_num frame = 0 \<Longrightarrow> frame_packets frame = []"
  by (simp add: frame_packets_def)

lemma check_synced_ok:
  assumes wf: "pub_wf L s" and i: "map_of (lidar_process_handlers s) i = Some h"
  shows "\<exists>outs s'. check_synced i h s = Some (outs, s') \<and> pub_wf L s' \<and> timer_keeps s s' \<and>
    list_all out_ok outs \<and> (\<forall>j. published j outs @ held j s' = held j s)"
proof -
  obtain frame where f: "frame_add i h (pub_frame s) = Some (frame, h\<lparr>points_clouds := []\<rparr>)" "frame_ok frame"
    "unat (frame_lidar_num frame) = length (entries [(i, h)])" "frame_packets frame = entries [(i, h)]"
    using frame_add_ok [of "pub_frame s" i h] wf by (auto simp: pub_wf_def packets_start kMaxSourceLidar_def)
  let ?hs = "map_put i (h\<lparr>points_clouds := []\<rparr>) (lidar_process_handlers s)"
  have mem: "i \<in> L" using map_of_SomeD [OF i] wf by (force simp: pub_wf_def)
  have keys: "fst ` set ?hs \<subseteq> L" using keys_map_put [of i _ "lidar_process_handlers s"] wf mem by (auto simp: pub_wf_def)
  show ?thesis
  proof (cases "points_clouds h = []")
    case True
    then show ?thesis using wf by (simp add: check_synced_def GetRecentTimeStamp_def pub_wf_def timer_keeps_def published_def)
  next
    case False
    then have "frame_lidar_num frame \<noteq> 0" using f(3) by (auto simp: entries_def)
    moreover have "frame_ok (frame\<lparr>frame_lidar_num := 0\<rparr>)" using f(2) by (simp add: frame_ok_def)
    ultimately show ?thesis
      using wf f keys False i keys_sorted_put [of "lidar_process_handlers s" i]
      by (auto simp: check_synced_def Let_def pub_wf_def timer_keeps_def settings_def held_def PublishPointCloud_def
          published_def points_of_def out_ok_def packet_of_points_def entries_def kMaxSourceLidar_def)
  qed
qed

lemma check_unsynced_ok:
  assumes wf: "pub_wf L s"
  shows "\<exists>outs s'. check_unsynced now s = Some (outs, s') \<and> pub_wf L s' \<and> timer_keeps s s' \<and>
    list_all out_ok outs \<and> (\<forall>j. published j outs @ held j s' = held j s)"
proof -
  let ?hs = "lidar_process_handlers s"
  obtain frame where f: "frame_add_all ?hs (pub_frame s) = Some (frame, map emptied ?hs)" "frame_ok frame"
    "frame_packets frame = entries ?hs" "unat (frame_lidar_num frame) \<le> kMaxSourceLidar"
    using frame_add_all_ok [of "pub_frame s" ?hs] wf handlers_bound [OF wf] entries_le [of ?hs]
    by (auto simp: pub_wf_def packets_start)
  have "distinct (map fst ?hs)" using wf by (simp add: pub_wf_def keys_sorted_distinct)
  moreover have "frame_ok (frame\<lparr>frame_lidar_num := 0\<rparr>)" using f(2) by (simp add: frame_ok_def)
  ultimately show ?thesis using wf f
    by (auto simp: check_unsynced_def Let_def pub_wf_def timer_keeps_def settings_def held_def PublishPointCloud_def
        published_def out_ok_def entries_packets points_of_entries map_of_emptied option.map_comp comp_def split: option.splits)
qed

lemma CheckTimer_ok:
  assumes "pub_wf L s" "map_of (lidar_process_handlers s) i \<noteq> None"
  shows "\<exists>outs s'. CheckTimer now i s = Some (outs, s') \<and> pub_wf L s' \<and> timer_keeps s s' \<and>
    list_all out_ok outs \<and> (\<forall>j. published j outs @ held j s' = held j s)"
  using assms check_synced_ok [OF assms(1)] check_unsynced_ok [OF assms(1)] by (auto simp: CheckTimer_def)


section \<open>No point is lost, repeated or reordered\<close>

definition ready_handler :: "float_ops \<Rightarrow> u32 \<Rightarrow> PubHandler \<Rightarrow> LidarPubHandler" where
  "ready_handler fl i s =
     (let h = (case map_of (lidar_process_handlers s) i of None \<Rightarrow> new_LidarPubHandler | Some h \<Rightarrow> h)
      in case map_of (lidar_extrinsics s) i of None \<Rightarrow> h | Some p \<Rightarrow> SetLidarsExtParam fl p h)"

text \<open>The extrinsic parameters the next packet of a lidar is converted with, and the points of packets.\<close>

definition ext_for :: "float_ops \<Rightarrow> u32 \<Rightarrow> PubHandler \<Rightarrow> ExtParameterDetailed" where
  "ext_for fl i s = extrinsic (ready_handler fl i s)"

definition decoded :: "float_ops \<Rightarrow> ExtParameterDetailed \<Rightarrow> u32 \<Rightarrow> RawPacket list \<Rightarrow> PointXyzlt list" where
  "decoded fl e i pkts = concat (map (\<lambda>pkt. the (decode_points fl e pkt)) (filter (\<lambda>pkt. raw_handle pkt = i) pkts))"

lemma ready_points: "points_clouds (ready_handler fl i s) = held i s"
  by (auto simp: ready_handler_def held_def SetLidarsExtParam_def Let_def new_LidarPubHandler_def split: option.splits)

lemma ext_for_settings:
  "lidar_extrinsics s = lidar_extrinsics s' \<Longrightarrow> settings i s = settings i s' \<Longrightarrow> ext_for fl i s = ext_for fl i s'"
  by (auto simp: ext_for_def ready_handler_def settings_def SetLidarsExtParam_def Let_def new_LidarPubHandler_def
      split: option.splits)

lemma ext_for_ready:
  "map_of (lidar_process_handlers s') i = Some ((ready_handler fl i s)\<lparr>points_clouds := pts\<rparr>) \<Longrightarrow>
   lidar_extrinsics s' = lidar_extrinsics s \<Longrightarrow> ext_for fl i s' = ext_for fl i s"
  by (auto simp: ext_for_def ready_handler_def SetLidarsExtParam_def Let_def split: option.splits)

lemma decoded_simps [simp]:
  "decoded fl e i [] = []"
  "decoded fl e i (pkt # pkts) = (if raw_handle pkt = i then the (decode_points fl e pkt) else []) @ decoded fl e i pkts"
  "decoded fl e i (xs @ ys) = decoded fl e i xs @ decoded fl e i ys"
  by (simp_all add: decoded_def)

lemma turn_ok:
  assumes wf: "pub_wf L s"
  shows "\<exists>outs s'. RawDataProcess fl now s = Some (outs, s') \<and> pub_wf L s' \<and> lidar_extrinsics s' = lidar_extrinsics s \<and>
    (\<forall>j. ext_for fl j s' = ext_for fl j s) \<and> list_all out_ok outs \<and>
    (\<forall>j. published j outs @ held j s' @ decoded fl (ext_for fl j s) j (raw_packet_queue s') =
       held j s @ decoded fl (ext_for fl j s) j (raw_packet_queue s))"
proof (cases "is_quit s \<or> raw_packet_queue s = []")
  case True
  then show ?thesis using wf by (auto simp: RawDataProcess_def published_def split: list.splits)
next
  case False
  then obtain pkt rest where q: "raw_packet_queue s = pkt # rest" by (cases "raw_packet_queue s") auto
  let ?i = "raw_handle pkt" and ?h = "ready_handler fl (raw_handle pkt) s"
  have ok: "complete_packet pkt" "raw_lidar_type pkt = kLivoxLidarType" "?i \<in> L" using wf q by (auto simp: pub_wf_def)
  obtain pts where pts: "decode_points fl (ext_for fl ?i s) pkt = Some pts" using decode_complete [OF ok(1)] by blast
  let ?h' = "?h\<lparr>points_clouds := held ?i s @ pts\<rparr>"
  let ?s = "s\<lparr>raw_packet_queue := rest, lidar_process_handlers := map_put ?i ?h' (lidar_process_handlers s)\<rparr>"
  have "RawDataProcess fl now s = do { h \<leftarrow> PointCloudProcess fl pkt ?h;
      CheckTimer now ?i (s\<lparr>raw_packet_queue := rest, lidar_process_handlers := map_put ?i h (lidar_process_handlers s)\<rparr>) }"
    using False ok(2) by (simp add: RawDataProcess_def q GetLidarId_def Let_def ready_handler_def cong: option.case_cong)
  moreover have "PointCloudProcess fl pkt ?h = Some ?h'"
    using pts by (simp add: PointCloudProcess_decode ext_for_def ready_points)
  ultimately have step: "RawDataProcess fl now s = CheckTimer now ?i ?s" by simp
  have "pub_wf L ?s"
    using wf q ok keys_map_put [of ?i ?h' "lidar_process_handlers s"] keys_sorted_put [of "lidar_process_handlers s" ?i ?h']
    by (auto simp: pub_wf_def)
  then obtain outs s' where s': "CheckTimer now ?i ?s = Some (outs, s')" "pub_wf L s'" "timer_keeps ?s s'" "list_all out_ok outs"
    "\<forall>j. published j outs @ held j s' = held j ?s"
    using CheckTimer_ok [of L ?s ?i now] by auto
  have ext: "ext_for fl j s' = ext_for fl j s" for j
  proof -
    have "ext_for fl j s' = ext_for fl j ?s" using s'(3) by (intro ext_for_settings) (simp_all add: timer_keeps_def)
    also have "\<dots> = ext_for fl j s"
      using ext_for_ready [of ?s ?i "held ?i s @ pts" fl s] by (cases "j = ?i") (auto intro!: ext_for_settings simp: settings_def)
    finally show ?thesis .
  qed
  have "held j ?s = held j s @ (if ?i = j then pts else [])" for j by (simp add: held_def)
  with s' ext pts show ?thesis by (auto simp: step q timer_keeps_def append_assoc [symmetric] simp del: append_assoc)
qed


text \<open>The two threads: a datagram arrives, or the processing thread takes a turn.\<close>

datatype pub_event = Arrive int u32 u8 "u8 list" | Turn int

fun pub_step :: "float_ops \<Rightarrow> u8 \<Rightarrow> pub_event \<Rightarrow> PubHandler \<Rightarrow> (PubOut list \<times> PubHandler) option" where
  "pub_step fl junk (Arrive now handle dev_type buf) s = OnLivoxLidarPointCloudCallback junk now handle dev_type buf s"
| "pub_step fl junk (Turn now) s = RawDataProcess fl now s"

fun pub_run :: "float_ops \<Rightarrow> u8 \<Rightarrow> pub_event list \<Rightarrow> PubHandler \<Rightarrow> (PubOut list \<times> PubHandler) option" where
  "pub_run fl junk [] s = Some ([], s)"
| "pub_run fl junk (ev # evs) s = do {
     (outs, s) \<leftarrow> pub_step fl junk ev s;
     (outs', s) \<leftarrow> pub_run fl junk evs s;
     Some (outs @ outs', s) }"

text \<open>
  The datagrams a lidar sends: the length it announces lies within the buffer, and a packet of points
  announces at least one point and holds as many as it announces.
\<close>

definition good_datagram :: "u8 list \<Rightarrow> bool" where
  "good_datagram buf \<longleftrightarrow> 60 \<le> length buf \<and>
     (let len = unat (the (rd16 buf 1)); dot_num = unat (the (rd16 buf 5)); t = the (rd8 buf 10) in
      36 \<le> len \<and> len \<le> length buf \<and> (t \<noteq> 0 \<longrightarrow> 0 < dot_num \<and> point_bytes_of t * dot_num + 36 \<le> len))"

fun good_event :: "u32 set \<Rightarrow> pub_event \<Rightarrow> bool" where
  "good_event L (Arrive now handle dev_type buf) \<longleftrightarrow> handle \<in> L \<and> good_datagram buf"
| "good_event L (Turn now) \<longleftrightarrow> True"

fun arrived :: "pub_event \<Rightarrow> RawPacket list" where
  "arrived (Arrive now handle dev_type buf) =
     (if rd8 buf 10 = Some (point_data_type_code kLivoxLidarImuData) then []
      else case raw_packet_of handle dev_type (GetEthPacketTimestamp now (the (rd8 buf 11)) (the (rd64 buf 28))) buf of
        None \<Rightarrow> [] | Some pkt \<Rightarrow> [pkt])"
| "arrived (Turn now) = []"

lemma data_length: "36 \<le> unat (n :: u16) \<Longrightarrow> unat (ucast n - 36 :: u32) = unat n - 36"
  using unat_sub [of 36 "ucast n :: u32"] by (simp add: word_le_nat_alt)

lemma raw_packet_good:
  assumes "good_datagram buf" "the (rd8 buf 10) \<noteq> 0"
  shows "\<exists>pkt. raw_packet_of handle dev_type t buf = Some pkt \<and> complete_packet pkt \<and>
    raw_lidar_type pkt = kLivoxLidarType \<and> raw_handle pkt = handle"
proof -
  let ?len = "from_le (take 2 (drop 1 buf)) :: u16"
  let ?raw = "take (unat ?len - 36) (drop 36 buf)"
  have len: "60 \<le> length buf" "36 \<le> unat ?len" "unat ?len \<le> length buf" "unat ?len < 65536"
    using assms unat_u16 [of ?len] by (auto simp: good_datagram_def rd_in_bounds Let_def)
  have n: "unat (ucast ?len - 36 :: u32) = unat ?len - 36" using len(2) by (rule data_length)
  let ?dot = "from_le (take 2 (drop 5 buf)) :: u16"
  have d: "0 < unat ?dot" "point_bytes_of (buf ! 10) * unat ?dot + 36 \<le> unat ?len"
    using assms len(1) by (auto simp: good_datagram_def rd_in_bounds rd8_nth Let_def)
  then have "?dot \<noteq> 0" by auto
  moreover have "line_number dev_type \<noteq> 0" by (simp add: line_number_def)
  moreover have "length ?raw = unat ?len - 36" using len by simp
  ultimately show ?thesis using len d n
    by (simp add: raw_packet_of_def rd_in_bounds rd8_nth peek_in_bounds complete_packet_def)
qed

lemma arrive_ok:
  assumes wf: "pub_wf L s" and good: "handle \<in> L" "good_datagram buf"
  shows "\<exists>outs s'. OnLivoxLidarPointCloudCallback junk now handle dev_type buf s = Some (outs, s') \<and> pub_wf L s' \<and>
    lidar_extrinsics s' = lidar_extrinsics s \<and> (\<forall>j. settings j s' = settings j s) \<and> list_all out_ok outs \<and>
    (\<forall>j. published j outs = [] \<and> held j s' = held j s) \<and>
    raw_packet_queue s' = raw_packet_queue s @ arrived (Arrive now handle dev_type buf)"
proof -
  have len: "60 \<le> length buf" using good by (simp add: good_datagram_def)
  show ?thesis
  proof (cases "buf ! 10 = 0")
    case True
    then show ?thesis using len wf
      by (auto simp: OnLivoxLidarPointCloudCallback_def rd_in_bounds rd8_nth imu_of_def published_def settings_def
          pub_wf_def held_def out_ok_def Let_def)
  next
    case False
    let ?t = "GetEthPacketTimestamp now (buf ! 11) (from_le (take 8 (drop 28 buf)))"
    obtain pkt where "raw_packet_of handle dev_type ?t buf = Some pkt" "complete_packet pkt"
      "raw_lidar_type pkt = kLivoxLidarType" "raw_handle pkt = handle"
      using raw_packet_good [OF good(2), of handle dev_type ?t] False len by (auto simp: rd8_nth)
    then show ?thesis using False len wf good(1)
      by (auto simp: OnLivoxLidarPointCloudCallback_def rd_in_bounds rd8_nth published_def settings_def
          pub_wf_def held_def Let_def)
  qed
qed

lemma pub_run_ok:
  assumes "pub_wf L s" "\<forall>ev \<in> set evs. good_event L ev"
  shows "\<exists>outs s'. pub_run fl junk evs s = Some (outs, s') \<and> pub_wf L s' \<and>
    (\<forall>i. ext_for fl i s' = ext_for fl i s) \<and> list_all out_ok outs \<and>
    (\<forall>i. published i outs @ held i s' @ decoded fl (ext_for fl i s) i (raw_packet_queue s') =
       held i s @ decoded fl (ext_for fl i s) i (raw_packet_queue s @ concat (map arrived evs)))"
  using assms
proof (induction evs arbitrary: s)
  case Nil
  then show ?case by (simp add: published_def)
next
  case (Cons ev evs)
  have "\<exists>outs s1. pub_step fl junk ev s = Some (outs, s1) \<and> pub_wf L s1 \<and> (\<forall>i. ext_for fl i s1 = ext_for fl i s) \<and> list_all out_ok outs \<and>
    (\<forall>i. published i outs @ held i s1 @ decoded fl (ext_for fl i s) i (raw_packet_queue s1) =
       held i s @ decoded fl (ext_for fl i s) i (raw_packet_queue s @ arrived ev))"
  proof (cases ev)
    case (Arrive now handle dev_type buf)
    then show ?thesis using arrive_ok [OF Cons.prems(1), of handle buf junk now dev_type] Cons.prems(2)
      by (fastforce intro: ext_for_settings)
  next
    case (Turn now)
    then show ?thesis using turn_ok [OF Cons.prems(1), of fl now] by auto
  qed
  then obtain outs s1 where s1: "pub_step fl junk ev s = Some (outs, s1)" "pub_wf L s1" "\<And>i. ext_for fl i s1 = ext_for fl i s" "list_all out_ok outs"
    "\<And>i. published i outs @ held i s1 @ decoded fl (ext_for fl i s) i (raw_packet_queue s1) =
       held i s @ decoded fl (ext_for fl i s) i (raw_packet_queue s @ arrived ev)"
    by blast
  obtain outs' s2 where "pub_run fl junk evs s1 = Some (outs', s2)" "pub_wf L s2" "\<And>i. ext_for fl i s2 = ext_for fl i s1" "list_all out_ok outs'"
    "\<And>i. published i outs' @ held i s2 @ decoded fl (ext_for fl i s1) i (raw_packet_queue s2) =
       held i s1 @ decoded fl (ext_for fl i s1) i (raw_packet_queue s1 @ concat (map arrived evs))"
    using Cons.IH [OF s1(2)] Cons.prems(2) by auto
  then have eq: "published i outs' @ held i s2 @ decoded fl (ext_for fl i s) i (raw_packet_queue s2) =
      held i s1 @ decoded fl (ext_for fl i s) i (raw_packet_queue s1) @ decoded fl (ext_for fl i s) i (concat (map arrived evs))"
    and run: "pub_run fl junk evs s1 = Some (outs', s2)" and ext: "ext_for fl i s2 = ext_for fl i s" and wf: "pub_wf L s2" "list_all out_ok outs'" for i
    using s1(3) by simp_all
  have "published i (outs @ outs') @ held i s2 @ decoded fl (ext_for fl i s) i (raw_packet_queue s2) =
      (published i outs @ held i s1 @ decoded fl (ext_for fl i s) i (raw_packet_queue s1)) @
      decoded fl (ext_for fl i s) i (concat (map arrived evs))" for i
    using eq [of i] by simp
  with s1 run ext wf show ?case by auto
qed


section \<open>Into the queues of the driver\<close>

text \<open>What the callbacks do with the frames and samples.\<close>

fun hand_over ::
  "PointXyzlt StoragePacket \<Rightarrow> u8 \<Rightarrow> PubOut list \<Rightarrow> (PointXyzlt, u32) Lds \<Rightarrow> (PointXyzlt, u32) Lds option" where
  "hand_over junk junk8 [] d = Some d"
| "hand_over junk junk8 (PublishFrame f # outs) d = do {
     d \<leftarrow> OnLidarPointClounCb True junk (Some f) d; hand_over junk junk8 outs d }"
| "hand_over junk junk8 (PublishImu m # outs) d = do {
     d \<leftarrow> LidarImuDataCallback True junk8 (Some m) d; hand_over junk junk8 outs d }"

definition frame_rows :: "PointXyzlt PointFrame \<Rightarrow> (PointXyzlt PointPacket \<times> u64) list" where
  "frame_rows f = zip (frame_packets f) (take (unat (frame_lidar_num f)) (frame_base_time f))"

definition rows :: "PubOut list \<Rightarrow> (PointXyzlt PointPacket \<times> u64) list" where
  "rows outs = concat (map (\<lambda>out. case out of PublishFrame f \<Rightarrow> frame_rows f | PublishImu _ \<Rightarrow> []) outs)"

lemma frame_rows_fst: "out_ok (PublishFrame f) \<Longrightarrow> map fst (frame_rows f) = frame_packets f"
  by (simp add: out_ok_def frame_rows_def frame_packets_def frame_ok_def)

lemma frame_entries_ok: "out_ok (PublishFrame f) \<Longrightarrow> frame_entries f = Some (frame_rows f)"
  by (simp add: out_ok_def frame_rows_def frame_packets_def frame_ok_def frame_entries_def Let_def)

lemma callback_frame: "out_ok (PublishFrame f) \<Longrightarrow> OnLidarPointClounCb True junk (Some f) d = store_points junk (frame_rows f) d"
  by (simp add: OnLidarPointClounCb_def StoragePointData_def frame_entries_ok) (simp add: frame_rows_def frame_packets_def)

lemma accepted_append: "accepted cap (accepted cap q xs) ys = accepted cap q (xs @ ys)"
  by (simp add: accepted_def min_def)

text \<open>Storing a sample leaves the points alone.\<close>

lemma callback_imu:
  assumes "lds_wf d"
  shows "\<exists>d'. LidarImuDataCallback True junk8 (Some m) d = Some d' \<and> lds_wf d' \<and> cache_index d' = cache_index d \<and>
    (\<forall>i. contents d' i = contents d i \<and> capacity junk d' i = capacity junk d i)"
proof (cases "imu_lidar_type m = kLivoxLidarType \<and> GetIndex (imu_lidar_type m) (imu_handle m) (cache_index d) \<noteq> None")
  case False
  then show ?thesis using assms by (auto simp: LidarImuDataCallback_def StorageImuData_def split: option.splits)
next
  case True
  then obtain index where index: "GetIndex (imu_lidar_type m) (imu_handle m) (cache_index d) = Some index" by blast
  let ?d = "update_lidar (unat index) (dev_imu_data_update (imu_Push junk8 m)) d"
  have len: "unat index < length (lidars d)"
    using index GetIndex_distinct [of "cache_index d"] assms by (fastforce simp: lds_wf_def)
  have wf: "lds_wf ?d" "lds_wf (?d\<lparr>imu_semaphore := signal_if_zero (imu_semaphore ?d)\<rparr>)"
    using assms len signal_if_zero_pos [of "imu_semaphore d"]
    by (auto simp: lds_wf_def update_lidar_def dest!: set_update_subset_insert [THEN subsetD])
  have same: "dev_data (lidars ?d ! i) = dev_data (lidars d ! i)" for i
    using len by (cases "i = unat index") (simp_all add: update_lidar_def)
  have "publish_freq ?d = publish_freq d" "cache_index ?d = cache_index d" by (simp_all add: update_lidar_def)
  with True index len wf same show ?thesis
    by (auto simp: LidarImuDataCallback_def StorageImuData_def Let_def contents_def capacity_def)
qed

lemma hand_over_ok:
  assumes "lds_wf d" "list_all out_ok outs" "\<forall>p \<in> set (rows outs). packet_ok (stored p)"
  shows "\<exists>d'. hand_over junk junk8 outs d = Some d' \<and> lds_wf d' \<and> cache_index d' = cache_index d \<and>
    (\<forall>i. capacity junk d' i = capacity junk d i \<and> contents d' i = accepted (capacity junk d i) (contents d i)
      (map stored (filter (\<lambda>p. index_of (cache_index d) p = Some i) (rows outs))))"
  using assms
proof (induction outs arbitrary: d)
  case Nil
  then show ?case by (simp add: rows_def)
next
  case (Cons out outs)
  have outs: "list_all out_ok outs" "\<forall>p \<in> set (rows outs). packet_ok (stored p)" using Cons.prems by (simp_all add: rows_def)
  show ?case
  proof (cases out)
    case (PublishFrame f)
    then have f: "out_ok (PublishFrame f)" "\<forall>p \<in> set (frame_rows f). packet_ok (stored p)"
      using Cons.prems by (simp_all add: rows_def)
    obtain d1 where "store_points junk (frame_rows f) d = Some d1" "lds_wf d1" "cache_index d1 = cache_index d"
      "\<forall>i. capacity junk d1 i = capacity junk d i \<and> contents d1 i = accepted (capacity junk d i) (contents d i)
        (map stored (filter (\<lambda>p. index_of (cache_index d) p = Some i) (frame_rows f)))"
      using store_points_accepts [OF Cons.prems(1) f(2), of junk] by blast
    then show ?thesis using Cons.IH [of d1] outs f(1)
      by (auto simp: PublishFrame callback_frame rows_def accepted_append)
  next
    case (PublishImu m)
    obtain d1 where "LidarImuDataCallback True junk8 (Some m) d = Some d1" "lds_wf d1" "cache_index d1 = cache_index d"
      "\<forall>i. contents d1 i = contents d i \<and> capacity junk d1 i = capacity junk d i"
      using callback_imu [OF Cons.prems(1), of junk8 m junk] by blast
    then show ?thesis using Cons.IH [of d1] outs by (auto simp: PublishImu rows_def)
  qed
qed

text \<open>The packets that go to the slot of a lidar are those with its handle.\<close>

lemma rows_packets: "list_all out_ok outs \<Longrightarrow> p \<in> set (rows outs) \<Longrightarrow> packet_of_points (fst p)"
proof (induction outs)
  case (Cons out outs)
  show ?case
  proof (cases out)
    case (PublishFrame f)
    then have "set (map fst (frame_rows f)) = set (frame_packets f)" using frame_rows_fst Cons.prems(1) by simp
    then show ?thesis using Cons PublishFrame by (auto simp: rows_def out_ok_def list_all_iff)
  next
    case (PublishImu m)
    then show ?thesis using Cons by (simp add: rows_def)
  qed
qed (simp add: rows_def)

lemma rows_points:
  "list_all out_ok outs \<Longrightarrow> concat (map (\<lambda>p. pkt_points (fst p)) (filter (\<lambda>p. pkt_handle (fst p) = h) (rows outs))) = published h outs"
proof (induction outs)
  case (Cons out outs)
  show ?case
  proof (cases out)
    case (PublishFrame f)
    then have "points_of h (frame_packets f) = points_of h (map fst (frame_rows f))" using frame_rows_fst Cons.prems by simp
    also have "\<dots> = concat (map (\<lambda>p. pkt_points (fst p)) (filter (\<lambda>p. pkt_handle (fst p) = h) (frame_rows f)))"
      by (simp add: points_of_def filter_map comp_def)
    finally show ?thesis using Cons PublishFrame by (simp add: rows_def published_def)
  next
    case (PublishImu m)
    then show ?thesis using Cons by (simp add: rows_def published_def)
  qed
qed (simp add: rows_def published_def)

lemma rows_slot:
  assumes "list_all out_ok outs" "cache_wf c" "GetIndex kLivoxLidarType h c = Some index"
  shows "filter (\<lambda>p. index_of c p = Some (unat index)) (rows outs) = filter (\<lambda>p. pkt_handle (fst p) = h) (rows outs)"
proof (rule filter_cong)
  fix p assume "p \<in> set (rows outs)"
  then have t: "pkt_lidar_type (fst p) = kLivoxLidarType" using rows_packets [OF assms(1)] by (simp add: packet_of_points_def)
  have "GetIndex kLivoxLidarType (pkt_handle (fst p)) c = Some index \<longleftrightarrow> pkt_handle (fst p) = h"
    using GetIndex_distinct [OF assms(2,3), of kLivoxLidarType "pkt_handle (fst p)"] assms(3) by blast
  moreover have "index_of c p = Some (unat index) \<longleftrightarrow> GetIndex kLivoxLidarType (pkt_handle (fst p)) c = Some index"
    by (cases "GetIndex kLivoxLidarType (pkt_handle (fst p)) c") (simp_all add: index_of_def t word_unat_eq_iff)
  ultimately show "(index_of c p = Some (unat index)) = (pkt_handle (fst p) = h)" by simp
qed simp


section \<open>What the publisher promises\<close>

text \<open>
  C35. From the datagrams to the frames no point is lost, repeated or reordered: for well-formed
  datagrams of at most 32 lidars, in any order with the turns of the processing thread, nothing is
  undefined, and for every lidar the points published, those still collected and those of the
  packets still queued are together the points of the datagrams that arrived, in order.
\<close>
theorem points_delivered:
  assumes "pub_wf L s" "\<forall>ev \<in> set evs. good_event L ev"
  shows "\<exists>outs s'. pub_run fl junk evs s = Some (outs, s') \<and>
    (\<forall>h. published h outs @ held h s' @ decoded fl (ext_for fl h s) h (raw_packet_queue s') =
       held h s @ decoded fl (ext_for fl h s) h (raw_packet_queue s @ concat (map arrived evs)))"
  using pub_run_ok [OF assms, of fl junk] by blast

definition demo_arith :: float_ops where
  "demo_arith = \<lparr>f_of_int = of_int, f_add = (+), f_mul = (*), f_of_d = ucast, d_of_f = ucast, d_of_int = of_int,
     d_add = (+), d_sub = (-), d_mul = (*), d_div = (div), d_neg = uminus, d_sin = (\<lambda>_. 0), d_cos = (\<lambda>_. 1)\<rparr>"

text \<open>One point in the format of low resolution, of a lidar that keeps no time.\<close>

definition demo_datagram :: "u8 list" where
  "demo_datagram = [0] @ le16 44 @ le16 1 @ le16 1 @ le16 0 @ [0, 2, 0] @ replicate 24 0 @ [1, 0, 2, 0, 3, 0, 7, 9] @ replicate 16 0"

definition demo_pub :: PubHandler where
  "demo_pub = SetPointCloudsCallback new_PubHandler"

lemma demo_pub_wf: "pub_wf {5} demo_pub"
  by (simp add: pub_wf_def demo_pub_def SetPointCloudsCallback_def new_PubHandler_def frame_ok_def kMaxSourceLidar_def)

lemma demo_datagram_good: "good_datagram demo_datagram"
  by (simp add: good_datagram_def) code_simp

theorem points_delivered_witness:
  "\<exists>outs s'. pub_run demo_arith 0 [Arrive 0 5 9 demo_datagram, Turn 0, Turn 100000000] demo_pub = Some (outs, s') \<and>
    published 5 outs @ held 5 s' @ decoded demo_arith (ext_for demo_arith 5 demo_pub) 5 (raw_packet_queue s') =
      decoded demo_arith (ext_for demo_arith 5 demo_pub) 5 (arrived (Arrive 0 5 9 demo_datagram))"
proof -
  have "held 5 demo_pub = []" "raw_packet_queue demo_pub = []"
    by (simp_all add: held_def demo_pub_def SetPointCloudsCallback_def new_PubHandler_def)
  then show ?thesis
    using points_delivered [OF demo_pub_wf, of "[Arrive 0 5 9 demo_datagram, Turn 0, Turn 100000000]" demo_arith 0]
      demo_datagram_good by (auto simp del: pub_run.simps arrived.simps) (auto simp: good_event.simps)
qed

text \<open>
  C36. The publisher and the driver's store together: handing every frame to the callback of the
  store leaves, for a lidar with a slot and room in its ring, exactly the points of its datagrams
  in the ring (behind what was there), in the publisher or in the queue between, in order.
\<close>
theorem points_to_rings:
  assumes "pub_wf L s" "\<forall>ev \<in> set evs. good_event L ev" "lds_wf d"
    and "\<forall>h. length (held h s @ decoded fl (ext_for fl h s) h (raw_packet_queue s @ concat (map arrived evs))) < 2 ^ 32"
  shows "\<exists>outs s' d'. pub_run fl junk8 evs s = Some (outs, s') \<and> hand_over junk junk8 outs d = Some d' \<and> lds_wf d' \<and>
    (\<forall>h index. GetIndex kLivoxLidarType h (cache_index d) = Some index \<longrightarrow>
       length (contents d (unat index)) + length (filter (\<lambda>p. pkt_handle (fst p) = h) (rows outs)) \<le> capacity junk d (unat index) \<longrightarrow>
       concat (map points (contents d' (unat index))) @ held h s' @ decoded fl (ext_for fl h s) h (raw_packet_queue s') =
       concat (map points (contents d (unat index))) @ held h s @
         decoded fl (ext_for fl h s) h (raw_packet_queue s @ concat (map arrived evs)))"
proof -
  obtain outs s' where run: "pub_run fl junk8 evs s = Some (outs, s')" "list_all out_ok outs"
    and pts: "\<And>h. published h outs @ held h s' @ decoded fl (ext_for fl h s) h (raw_packet_queue s') =
       held h s @ decoded fl (ext_for fl h s) h (raw_packet_queue s @ concat (map arrived evs))"
    using pub_run_ok [OF assms(1,2), of fl junk8] by blast
  have "packet_ok (stored p)" if p: "p \<in> set (rows outs)" for p
  proof -
    have "length (pkt_points (fst p)) \<le> length (published (pkt_handle (fst p)) outs)"
      using p unfolding rows_points [OF run(2), symmetric] length_concat
      by (intro member_le_sum_list) (auto intro!: image_eqI [of _ _ p])
    also have "\<dots> \<le> length (published (pkt_handle (fst p)) outs @ held (pkt_handle (fst p)) s' @
        decoded fl (ext_for fl (pkt_handle (fst p)) s) (pkt_handle (fst p)) (raw_packet_queue s'))" by simp
    also have "\<dots> < 2 ^ 32" unfolding pts using assms(4) by blast
    finally show ?thesis using rows_packets [OF run(2) p] by (simp add: packet_ok_def stored_def packet_of_points_def unat_of_nat_eq)
  qed
  then obtain d' where d': "hand_over junk junk8 outs d = Some d'" "lds_wf d'"
    "\<And>i. contents d' i = accepted (capacity junk d i) (contents d i)
      (map stored (filter (\<lambda>p. index_of (cache_index d) p = Some i) (rows outs)))"
    using hand_over_ok [OF assms(3) run(2), of junk junk8] by blast
  have "concat (map points (contents d' (unat index))) = concat (map points (contents d (unat index))) @ published h outs"
    if "GetIndex kLivoxLidarType h (cache_index d) = Some index"
      "length (contents d (unat index)) + length (filter (\<lambda>p. pkt_handle (fst p) = h) (rows outs)) \<le> capacity junk d (unat index)"
    for h index
    using that rows_slot [OF run(2) _ that(1)] assms(3)
    by (simp add: d'(3) accepted_def lds_wf_def rows_points [OF run(2), symmetric] stored_def comp_def)
  with run(1) d'(1,2) pts show ?thesis by (intro exI [of _ outs] exI [of _ s'] exI [of _ d']) auto
qed


text \<open>A frame of one point reaches the slot of its lidar.\<close>

theorem points_to_rings_witness:
  "\<exists>outs s' d'. pub_run demo_arith 0 [Arrive 0 5 9 demo_datagram, Turn 0] demo_pub = Some (outs, s') \<and>
    hand_over demo_junk 0 outs demo_lds = Some d' \<and> lds_wf d'"
proof -
  let ?evs = "[Arrive 0 5 9 demo_datagram, Turn 0]"
  have "held h demo_pub = []" "raw_packet_queue demo_pub = []" for h
    by (simp_all add: held_def demo_pub_def SetPointCloudsCallback_def new_PubHandler_def)
  moreover have "map (\<lambda>pkt. unat (point_num pkt)) (concat (map arrived ?evs)) = [1]"
    "list_all complete_packet (concat (map arrived ?evs))" by code_simp+
  then obtain pkt where pkt: "concat (map arrived ?evs) = [pkt]" "unat (point_num pkt) = 1" "complete_packet pkt" by auto
  moreover have "length (decoded demo_arith e h [pkt]) \<le> 1" for e h
  proof -
    obtain pts where pts: "decode_points demo_arith e pkt = Some pts" using decode_complete [OF pkt(3)] by blast
    then have "length pts \<le> 1" using pkt(2) by (auto simp: decode_points_def Let_def split: if_splits option.splits)
    then show ?thesis by (simp add: pts)
  qed
  ultimately have small: "\<forall>h. length (held h demo_pub @ decoded demo_arith (ext_for demo_arith h demo_pub) h
      (raw_packet_queue demo_pub @ concat (map arrived ?evs))) < 2 ^ 32"
    by (metis append_Nil le_less_trans one_less_numeral_iff one_less_power pos2 semiring_norm(76) zero_less_numeral)
  have "\<forall>ev \<in> set ?evs. good_event {5} ev" using demo_datagram_good by simp
  from points_to_rings [OF demo_pub_wf this demo_lds_wf(1) small, of 0 demo_junk] show ?thesis by blast
qed

text \<open>
  Without synchronisation the frames keep to the interval: the time of the last one has moved by
  exactly one interval for each frame, and never past the present.
\<close>

definition unsynced_event :: "int \<Rightarrow> pub_event \<Rightarrow> bool" where
  "unsynced_event T ev = (case ev of Arrive now h t buf \<Rightarrow> rd8 buf 11 = Some kTimestampTypeNoSync | Turn now \<Rightarrow> now \<le> T)"

definition frames :: "PubOut list \<Rightarrow> nat" where
  "frames outs = length (filter (\<lambda>out. case out of PublishFrame f \<Rightarrow> True | PublishImu d \<Rightarrow> False) outs)"

definition unsynced :: "int \<Rightarrow> PubHandler \<Rightarrow> bool" where
  "unsynced T s \<longleftrightarrow> \<not> is_timestamp_sync s \<and> \<not> first_time s \<and> points_callback s \<and> last_pub_time s \<le> T"

lemma frames_append [simp]: "frames (xs @ ys) = frames xs + frames ys"
  by (simp add: frames_def)

lemma check_unsynced_rate:
  assumes "check_unsynced now s = Some (outs, s')" "unsynced T s" "now \<le> T"
  shows "unsynced T s' \<and> publish_interval s' = publish_interval s \<and>
    last_pub_time s' = last_pub_time s + int (frames outs) * sint (publish_interval s)"
  using assms by (auto simp: check_unsynced_def unsynced_def Let_def bind_eq_Some_conv PublishPointCloud_def frames_def split: if_splits)

lemma step_rate:
  assumes "pub_step fl junk ev s = Some (outs, s')" "unsynced T s" "unsynced_event T ev"
  shows "unsynced T s' \<and> publish_interval s' = publish_interval s \<and>
    last_pub_time s' = last_pub_time s + int (frames outs) * sint (publish_interval s)"
proof (cases ev)
  case (Arrive now h t buf)
  then show ?thesis using assms
    by (auto simp: OnLivoxLidarPointCloudCallback_def unsynced_def unsynced_event_def Let_def bind_eq_Some_conv frames_def
        split: if_splits)
next
  case (Turn now)
  show ?thesis
  proof (cases "is_quit s \<or> raw_packet_queue s = []")
    case True
    then show ?thesis using assms Turn by (auto simp: RawDataProcess_def frames_def split: list.splits if_splits)
  next
    case False
    then obtain pkt rest where "raw_packet_queue s = pkt # rest" by (cases "raw_packet_queue s") auto
    with assms(1) Turn False obtain i hs where
      "CheckTimer now i (s\<lparr>raw_packet_queue := rest, lidar_process_handlers := hs\<rparr>) = Some (outs, s')"
      by (auto simp: RawDataProcess_def Let_def bind_eq_Some_conv split: prod.splits)
    then show ?thesis
      using check_unsynced_rate [of now "s\<lparr>raw_packet_queue := rest, lidar_process_handlers := hs\<rparr>" outs s' T] assms(2,3) Turn
      by (auto simp: CheckTimer_def unsynced_def unsynced_event_def)
  qed
qed

text \<open>
  Without time synchronisation the time of the last frame moves by exactly one interval for each
  frame and never past the present, so frames are never more frequent than configured on average.
\<close>
theorem frame_rate:
  assumes "pub_run fl junk evs s = Some (outs, s')" "unsynced T s" "\<forall>ev \<in> set evs. unsynced_event T ev"
  shows "last_pub_time s' = last_pub_time s + int (frames outs) * sint (publish_interval s) \<and>
    int (frames outs) * sint (publish_interval s) \<le> T - last_pub_time s"
proof -
  have "unsynced T s' \<and> publish_interval s' = publish_interval s \<and>
      last_pub_time s' = last_pub_time s + int (frames outs) * sint (publish_interval s)"
    using assms
  proof (induction evs arbitrary: s outs)
    case Nil
    then show ?case by (simp add: frames_def)
  next
    case (Cons ev evs)
    then obtain outs1 s1 outs2 where "pub_step fl junk ev s = Some (outs1, s1)" "pub_run fl junk evs s1 = Some (outs2, s')"
      "outs = outs1 @ outs2" by (auto simp: bind_eq_Some_conv)
    with Cons step_rate [of fl junk ev s outs1 s1 T] show ?case by (force simp: algebra_simps)
  qed
  then show ?thesis by (simp add: unsynced_def)
qed


theorem frame_rate_witness:
  "\<exists>outs s'. pub_run demo_arith 0 [Arrive 0 5 9 demo_datagram, Turn 250000000, Turn 300000000]
     (demo_pub\<lparr>first_time := False\<rparr>) = Some (outs, s') \<and> int (frames outs) * 100000000 \<le> 300000000"
proof -
  let ?evs = "[Arrive 0 5 9 demo_datagram, Turn 250000000, Turn 300000000]" and ?s = "demo_pub\<lparr>first_time := False\<rparr>"
  have "pub_wf {5} ?s" using demo_pub_wf by (simp add: pub_wf_def)
  then obtain outs s' where run: "pub_run demo_arith 0 ?evs ?s = Some (outs, s')"
    using points_delivered [of "{5}" ?s ?evs demo_arith 0] demo_datagram_good by (auto simp del: pub_run.simps)
  moreover have "unsynced 300000000 ?s" "last_pub_time ?s = 0" "sint (publish_interval ?s) = 100000000"
    by (simp_all add: unsynced_def demo_pub_def SetPointCloudsCallback_def new_PubHandler_def)
  moreover have "rd8 demo_datagram 11 = Some kTimestampTypeNoSync" by code_simp
  ultimately show ?thesis using frame_rate [OF run, of 300000000] by (auto simp: unsynced_event_def simp del: pub_run.simps)
qed

text \<open>
  The frame has room for 32 lidars, and nothing keeps the number of handlers below that.
\<close>

lemma frame_add_None:
  "frame_ok frame \<Longrightarrow> kMaxSourceLidar \<le> unat (frame_lidar_num frame) \<Longrightarrow> frame_add i h frame = None"
  by (simp add: frame_add_def frame_ok_def Let_def)

lemma frame_add_all_None:
  assumes "frame_ok frame" "unat (frame_lidar_num frame) \<le> kMaxSourceLidar"
    "kMaxSourceLidar < unat (frame_lidar_num frame) + length (entries hs)"
  shows "frame_add_all hs frame = None"
  using assms
proof (induction hs arbitrary: frame)
  case (Cons p hs)
  obtain i h where p: "p = (i, h)" by (cases p)
  show ?case
  proof (cases "unat (frame_lidar_num frame) < kMaxSourceLidar")
    case True
    obtain frame1 where f1: "frame_add i h frame = Some (frame1, h\<lparr>points_clouds := []\<rparr>)" "frame_ok frame1"
      "unat (frame_lidar_num frame1) = unat (frame_lidar_num frame) + length (entries [(i, h)])"
      using frame_add_ok [OF Cons.prems(1) True, of i h] by blast
    have "length (entries (p # hs)) = length (entries [p]) + length (entries hs)" "length (entries [p]) \<le> 1"
      by (simp_all add: entries_def split: prod.splits)
    then have "frame_add_all hs frame1 = None" using Cons.IH [OF f1(2)] Cons.prems f1(3) True p by simp
    then show ?thesis using f1(1) p by simp
  next
    case False
    then show ?thesis using frame_add_None Cons.prems p by simp
  qed
qed (simp add: entries_def)

text \<open>
  The arrays of a frame hold 32 lidars: with points of more than 32, an unsynchronised frame
  writes beyond them.
\<close>
theorem frame_overflow:
  assumes "frame_ok (pub_frame s)" "frame_lidar_num (pub_frame s) = 0" "\<not> is_timestamp_sync s" "\<not> first_time s"
    and "last_pub_time s + sint (publish_interval s) \<le> now"
    and "32 < length (filter (\<lambda>(i, h). points_clouds h \<noteq> []) (lidar_process_handlers s))"
  shows "CheckTimer now i s = None"
proof -
  have "frame_add_all (lidar_process_handlers s) (pub_frame s) = None"
    by (rule frame_add_all_None) (use assms in \<open>simp_all add: entries_def kMaxSourceLidar_def\<close>)
  then show ?thesis using assms by (simp add: CheckTimer_def check_unsynced_def)
qed

theorem frame_overflow_witness:
  "CheckTimer 100000000 0 (demo_pub\<lparr>first_time := False, lidar_process_handlers :=
     map (\<lambda>i. (of_nat i, new_LidarPubHandler\<lparr>points_clouds := [demo_point]\<rparr>)) [0..<33]\<rparr>) = None"
  by (rule frame_overflow)
    (simp_all add: demo_pub_def SetPointCloudsCallback_def new_PubHandler_def frame_ok_def filter_map comp_def)

text \<open>What a datagram may do wrong. The buffer of a datagram has 8192 bytes.\<close>

lemma those_None: "those xs = None \<longleftrightarrow> None \<in> set xs"
  by (induction xs) (auto split: option.splits)

lemma point_beyond:
  "length (raw_data pkt) < 14 * i + 14 \<Longrightarrow> high_point fl e pkt i = None"
  "length (raw_data pkt) < 8 * i + 8 \<Longrightarrow> low_point fl e pkt i = None"
  "length (raw_data pkt) < 10 * i + 10 \<Longrightarrow> spher_point fl e pkt i = None"
  by (auto simp: high_point_def low_point_def spher_point_def bind_eq_None_conv)

lemma those_last_None: "0 < n \<Longrightarrow> f (n - 1) = None \<Longrightarrow> those (map f [0..<n]) = None"
  by (auto simp: those_None intro!: rev_image_eqI [of "n - 1"])

lemma decode_None_iff:
  assumes "raw_lidar_type pkt = kLivoxLidarType" "line_num pkt \<noteq> 0"
  shows "decode_points fl e pkt = None \<longleftrightarrow>
    length (raw_data pkt) < point_bytes_of (raw_data_type pkt) * unat (point_num pkt)"
proof (cases "length (raw_data pkt) < point_bytes_of (raw_data_type pkt) * unat (point_num pkt)")
  case True
  then have n: "0 < unat (point_num pkt)" by (cases "unat (point_num pkt)") simp_all
  then have "k * (unat (point_num pkt) - 1) + k = k * unat (point_num pkt)" for k
    by (metis Suc_pred' mult_Suc_right add.commute)
  with True n show ?thesis using assms(1)
    by (auto simp: decode_points_def point_bytes_of_def Let_def point_beyond those_last_None split: if_splits)
next
  case False
  then have "complete_packet pkt" using assms by (simp add: complete_packet_def)
  with False show ?thesis using decode_complete [of pkt fl e] by auto
qed

lemma length_underflow:
  assumes "unat (n :: u16) < 36"
  shows "32768 < unat (ucast n - 36 :: u32)"
proof -
  have "unat (ucast n - 36 :: u32) = 2 ^ 32 - (36 - unat n)"
    using assms by (simp add: unat_sub_if')
  then show ?thesis by simp
qed

text \<open>
  C37. The callback trusts the datagram: for data that are not inertial it divides by zero or
  reads out of its buffer exactly when the announced number of points is zero, the length is below
  36 or the length is beyond the buffer; and the decoding overreads the copied bytes exactly when
  the number of points does not fit the length.
\<close>
theorem bad_datagrams:
  assumes "60 \<le> length buf" "length buf \<le> 8192" "rd16 buf 1 = Some len" "rd16 buf 5 = Some dot_num"
    and "rd8 buf 10 = Some data_type"
  shows "(OnLivoxLidarPointCloudCallback junk now handle dev_type buf s = None \<longleftrightarrow>
      data_type \<noteq> 0 \<and> (dot_num = 0 \<or> unat len < 36 \<or> length buf < unat len)) \<and>
    (\<forall>pkt. raw_packet_of handle dev_type t buf = Some pkt \<longrightarrow>
      (decode_points fl e pkt = None \<longleftrightarrow> unat len - 36 < point_bytes_of data_type * unat dot_num))"
proof
  have raw: "raw_packet_of handle dev_type t buf = None \<longleftrightarrow> dot_num = 0 \<or> unat len < 36 \<or> length buf < unat len" for t
  proof (cases "unat len < 36")
    case True
    then show ?thesis using assms length_underflow [of len] by (auto simp: raw_packet_of_def bind_eq_None_conv)
  next
    case False
    then show ?thesis using assms data_length [of len] by (auto simp: raw_packet_of_def rd_in_bounds bind_eq_None_conv)
  qed
  show "OnLivoxLidarPointCloudCallback junk now handle dev_type buf s = None \<longleftrightarrow>
      data_type \<noteq> 0 \<and> (dot_num = 0 \<or> unat len < 36 \<or> length buf < unat len)"
    using assms raw by (auto simp: OnLivoxLidarPointCloudCallback_def imu_of_def bind_eq_None_conv Let_def rd_in_bounds rd8_nth)
  show "\<forall>pkt. raw_packet_of handle dev_type t buf = Some pkt \<longrightarrow>
      (decode_points fl e pkt = None \<longleftrightarrow> unat len - 36 < point_bytes_of data_type * unat dot_num)"
  proof (intro allI impI)
    fix pkt assume pkt: "raw_packet_of handle dev_type t buf = Some pkt"
    then have "36 \<le> unat len" using raw [of t] by auto
    with pkt assms data_length [of len] have "raw_lidar_type pkt = kLivoxLidarType" "line_num pkt \<noteq> 0"
      "length (raw_data pkt) = unat len - 36" "raw_data_type pkt = data_type" "unat (point_num pkt) = unat dot_num"
      by (auto simp: raw_packet_of_def bind_eq_Some_conv line_number_def length_peek split: if_splits)
    then show "decode_points fl e pkt = None \<longleftrightarrow> unat len - 36 < point_bytes_of data_type * unat dot_num"
      by (simp add: decode_None_iff)
  qed
qed

text \<open>A packet without points ends the process: its interval is divided by their number.\<close>

theorem bad_datagrams_witness:
  "OnLivoxLidarPointCloudCallback 0 0 5 9 (demo_datagram[5 := 0]) demo_pub = None"
proof -
  have "rd16 (demo_datagram[5 := 0]) 1 = Some 44" "rd16 (demo_datagram[5 := 0]) 5 = Some 0" "rd8 (demo_datagram[5 := 0]) 10 = Some 2"
    "length (demo_datagram[5 := 0]) = 60" by code_simp+
  then show ?thesis using bad_datagrams [of "demo_datagram[5 := 0]" 44 0 2 0 0 5 9 demo_pub] by simp
qed

text \<open>
  With exact arithmetic on the numbers at hand, a lidar without extrinsic parameters gets the sum
  of its second and third coordinate as the second.
\<close>
lemma default_extrinsic_shears:
  assumes "\<And>a. f_mul fl a f_one = a" "\<And>a. f_mul fl a 0 = 0" "\<And>a. f_add fl a 0 = a" "\<And>a. f_add fl 0 a = a"
  shows "cartesian fl unit False (extrinsic new_LidarPubHandler) (x, y, z) =
    (let m = \<lambda>a. f_of_d fl (d_div fl (d_of_f fl a) (d_of_int fl unit))
     in (m (f_of_int fl x), m (f_add fl (f_of_int fl y) (f_of_int fl z)), m (f_of_int fl z)))"
  by (simp add: cartesian_def cartesian_row_def new_LidarPubHandler_def default_extrinsic_def assms Let_def)

end
