(* ===== verification/Driver_Callbacks.thy ===== *)
theory Driver_Callbacks
  imports Lds "HOL-Library.Signed_Division"
begin

text \<open>
  The configuration of the lidars by the ROS driver
  (livox\_driver/src/call\_back/livox\_lidar\_callback.cpp, the setup loop of lds\_lidar.cpp and
  parse\_cfg\_file/parse\_livox\_lidar\_cfg.cpp): when a lidar appears the driver sends it the settings
  of its configuration, remembers in \<open>set_bits\<close> which of them are still open, and lets its data be
  published once all of them have been acknowledged. The calls to the SDK are requests in a list.
\<close>

datatype 'f DriverRequest =
    ReqPclDataType u32 "8 word"
  | ReqScanPattern u32 "8 word"
  | ReqBlindSpot u32 u32
  | ReqDualEmit u32 bool
  | ReqInstallAttitude u32 "'f ExtParameter"
  | ReqWorkModeNormal u32
  | ReqEnableImuData u32

text \<open>\<open>None\<close> is undefined behaviour.\<close>

type_synonym ('p, 'f) handler = "('p, 'f) Lds \<Rightarrow> (('p, 'f) Lds \<times> 'f DriverRequest list) option"

definition kConfigDataType :: u32 where "kConfigDataType = 1"
definition kConfigScanPattern :: u32 where "kConfigScanPattern = 2"
definition kConfigBlindSpot :: u32 where "kConfigBlindSpot = 4"
definition kConfigDualEmit :: u32 where "kConfigDualEmit = 8"

section \<open>The configuration file\<close>

text \<open>The members of one entry of the JSON array, as far as they are present.\<close>

record 'f JsonExtrinsic =
  json_roll :: "'f option"
  json_pitch :: "'f option"
  json_yaw :: "'f option"
  json_x :: "int option"
  json_y :: "int option"
  json_z :: "int option"

record 'f JsonConfig =
  json_ip :: "u32 option"
  json_pcl_data_type :: "int option"
  json_pattern_mode :: "int option"
  json_blind_spot_set :: "int option"
  json_dual_emit_en :: "int option"
  json_extrinsic :: "'f JsonExtrinsic option"

definition or_default :: "'a \<Rightarrow> 'a option \<Rightarrow> 'a" where
  "or_default d x = (case x of None \<Rightarrow> d | Some v \<Rightarrow> v)"

definition ParseExtrinsics :: "'f \<Rightarrow> 'f JsonExtrinsic \<Rightarrow> 'f ExtParameter" where
  "ParseExtrinsics zero v = \<lparr>ext_roll = or_default zero (json_roll v), ext_pitch = or_default zero (json_pitch v),
     ext_yaw = or_default zero (json_yaw v), ext_x = of_int (or_default 0 (json_x v)),
     ext_y = of_int (or_default 0 (json_y v)), ext_z = of_int (or_default 0 (json_z v))\<rparr>"

text \<open>The casts to 8-bit fields wrap; the blind spot distance is cut to 8 bits and widened again.\<close>

definition user_config :: "'f \<Rightarrow> u32 \<Rightarrow> 'f JsonConfig \<Rightarrow> 'f UserLivoxLidarConfig" where
  "user_config zero handle config = \<lparr>cfg_handle = handle,
     pcl_data_type = of_int (or_default (-1) (json_pcl_data_type config)),
     pattern_mode = of_int (or_default (-1) (json_pattern_mode config)),
     blind_spot_set = scast (of_int (or_default (-1) (json_blind_spot_set config)) :: 8 word),
     dual_emit_en = of_int (or_default (-1) (json_dual_emit_en config)),
     extrinsic_param = (case json_extrinsic config of
        None \<Rightarrow> \<lparr>ext_roll = zero, ext_pitch = zero, ext_yaw = zero, ext_x = 0, ext_y = 0, ext_z = 0\<rparr>
      | Some v \<Rightarrow> ParseExtrinsics zero v),
     set_bits = 0, get_bits = 0\<rparr>"

fun ParseUserConfigs :: "'f \<Rightarrow> 'f JsonConfig list \<Rightarrow> 'f UserLivoxLidarConfig list" where
  "ParseUserConfigs zero [] = []"
| "ParseUserConfigs zero (c # cs) = (case json_ip c of
     None \<Rightarrow> ParseUserConfigs zero cs
   | Some handle \<Rightarrow> user_config zero handle c # ParseUserConfigs zero cs)"

section \<open>Setting up the devices\<close>

text \<open>
  The loop of \<open>InitLivoxLidar\<close> over the configurations; the second result are the extrinsic
  parameters given to the point cloud handler, in centimetres for the low-precision format.
\<close>

definition kLivoxLidarCartesianCoordinateLowData :: "8 word" where
  "kLivoxLidarCartesianCoordinateLowData = 2"

definition lidar_ext_param :: "'f UserLivoxLidarConfig \<Rightarrow> 'f ExtParameter" where
  "lidar_ext_param config =
     (let e = extrinsic_param config in
      if pcl_data_type config = kLivoxLidarCartesianCoordinateLowData
      then e\<lparr>ext_x := of_int (sint (ext_x e) sdiv 10), ext_y := of_int (sint (ext_y e) sdiv 10),
             ext_z := of_int (sint (ext_z e) sdiv 10)\<rparr>
      else e)"

fun init_devices ::
  "'f UserLivoxLidarConfig list \<Rightarrow> ('p, 'f) Lds \<Rightarrow> ('p, 'f) Lds \<times> (u32 \<times> 'f ExtParameter) list" where
  "init_devices [] s = (s, [])"
| "init_devices (config # cs) s = (case GetFreeIndex kLivoxLidarType (cfg_handle config) (cache_index s) of
     (None, c) \<Rightarrow> init_devices cs (s\<lparr>cache_index := c\<rparr>)
   | (Some index, c) \<Rightarrow>
       (let s = update_lidar (unat index) (\<lambda>d. d\<lparr>dev_lidar_type := kLivoxLidarType, dev_device_type := 0,
              livox_config := config, dev_handle := cfg_handle config\<rparr>) (s\<lparr>cache_index := c\<rparr>);
            (s, es) = init_devices cs s
        in (s, (cfg_handle config, lidar_ext_param config) # es)))"

section \<open>The callbacks\<close>

definition GetLidarDevice :: "bool \<Rightarrow> u32 \<Rightarrow> ('p, 'f) Lds \<Rightarrow> nat option" where
  "GetLidarDevice client handle s =
     (if \<not> client then None else map_option unat (GetIndex kLivoxLidarType handle (cache_index s)))"

text \<open>The settings that are sent: the bits they set, and the requests, in the order of the code.\<close>

definition config_bits :: "'f UserLivoxLidarConfig \<Rightarrow> u32" where
  "config_bits c =
     (if pcl_data_type c \<noteq> -1 then kConfigDataType else 0) OR
     (if pattern_mode c \<noteq> -1 then kConfigScanPattern else 0) OR
     (if blind_spot_set c \<noteq> -1 then kConfigBlindSpot else 0) OR
     (if dual_emit_en c \<noteq> -1 then kConfigDualEmit else 0)"

definition config_requests :: "u32 \<Rightarrow> 'f UserLivoxLidarConfig \<Rightarrow> 'f DriverRequest list" where
  "config_requests handle c =
     (if pcl_data_type c \<noteq> -1 then [ReqPclDataType handle (pcl_data_type c)] else []) @
     (if pattern_mode c \<noteq> -1 then [ReqScanPattern handle (pattern_mode c)] else []) @
     (if blind_spot_set c \<noteq> -1 then [ReqBlindSpot handle (blind_spot_set c)] else []) @
     (if dual_emit_en c \<noteq> -1 then [ReqDualEmit handle (dual_emit_en c \<noteq> 0)] else [])"

text \<open>\<open>info\<close> is the device type in the information that the SDK passes, if it is not null.\<close>

definition LidarInfoChangeCallback :: "u32 \<Rightarrow> u8 option \<Rightarrow> bool \<Rightarrow> ('p, 'f) handler" where
  "LidarInfoChangeCallback handle info client s =
     (if \<not> client then Some (s, [])
      else case GetLidarDevice client handle s of
        None \<Rightarrow> (case GetFreeIndex kLivoxLidarType handle (cache_index s) of
            (None, c) \<Rightarrow> Some (s\<lparr>cache_index := c\<rparr>, [])
          | (Some index, c) \<Rightarrow> do {
              dev_type \<leftarrow> info;
              Some (update_lidar (unat index) (\<lambda>d. d\<lparr>dev_lidar_type := kLivoxLidarType, dev_device_type := dev_type\<rparr>)
                  (s\<lparr>cache_index := c\<rparr>),
                [ReqWorkModeNormal handle, ReqEnableImuData handle]) })
      | Some i \<Rightarrow> do {
          dev_type \<leftarrow> info;
          let config = livox_config (lidars s ! i);
          Some (update_lidar i (\<lambda>d. d\<lparr>dev_device_type := dev_type,
                livox_config := config\<lparr>set_bits := set_bits config OR config_bits config\<rparr>\<rparr>) s,
            config_requests handle config @ [ReqInstallAttitude (cfg_handle config) (extrinsic_param config),
              ReqWorkModeNormal handle, ReqEnableImuData handle]) })"

definition WorkModeChangedCallback :: "LivoxLidarStatus \<Rightarrow> u32 \<Rightarrow> ('p, 'f) handler" where
  "WorkModeChangedCallback status handle s =
     Some (s, if status \<noteq> kLivoxLidarStatusSuccess then [ReqWorkModeNormal handle] else [])"

text \<open>
  The four callbacks of the settings differ in the bit they clear and in the request they
  repeat. On another failure the response is printed: it is null when the request could not be
  sent. The code returned by the lidar (the first part of the response) is not looked at.
\<close>

definition config_callback ::
  "u32 \<Rightarrow> (u32 \<Rightarrow> 'f UserLivoxLidarConfig \<Rightarrow> 'f DriverRequest) \<Rightarrow>
   LivoxLidarStatus \<Rightarrow> u32 \<Rightarrow> (u8 \<times> u16) option \<Rightarrow> bool \<Rightarrow> ('p, 'f) handler" where
  "config_callback b again status handle response client s = (case GetLidarDevice client handle s of
     None \<Rightarrow> Some (s, [])
   | Some i \<Rightarrow>
       (let config = livox_config (lidars s ! i) in
        if status = kLivoxLidarStatusSuccess then
          let bits = set_bits config AND NOT b in
          Some (update_lidar i (\<lambda>d. d\<lparr>livox_config := config\<lparr>set_bits := bits\<rparr>,
              connect_state := (if bits = 0 then kConnectStateSampling else connect_state d)\<rparr>) s, [])
        else if status = kLivoxLidarStatusTimeout then Some (s, [again handle config])
        else case response of None \<Rightarrow> None | Some _ \<Rightarrow> Some (s, [])))"

definition SetDataTypeCallback ::
  "LivoxLidarStatus \<Rightarrow> u32 \<Rightarrow> (u8 \<times> u16) option \<Rightarrow> bool \<Rightarrow> ('p, 'f) handler" where
  "SetDataTypeCallback = config_callback kConfigDataType (\<lambda>h c. ReqPclDataType h (pcl_data_type c))"

definition SetPatternModeCallback ::
  "LivoxLidarStatus \<Rightarrow> u32 \<Rightarrow> (u8 \<times> u16) option \<Rightarrow> bool \<Rightarrow> ('p, 'f) handler" where
  "SetPatternModeCallback = config_callback kConfigScanPattern (\<lambda>h c. ReqScanPattern h (pattern_mode c))"

definition SetBlindSpotCallback ::
  "LivoxLidarStatus \<Rightarrow> u32 \<Rightarrow> (u8 \<times> u16) option \<Rightarrow> bool \<Rightarrow> ('p, 'f) handler" where
  "SetBlindSpotCallback = config_callback kConfigBlindSpot (\<lambda>h c. ReqBlindSpot h (blind_spot_set c))"

definition SetDualEmitCallback ::
  "LivoxLidarStatus \<Rightarrow> u32 \<Rightarrow> (u8 \<times> u16) option \<Rightarrow> bool \<Rightarrow> ('p, 'f) handler" where
  "SetDualEmitCallback = config_callback kConfigDualEmit (\<lambda>h c. ReqDualEmit h (dual_emit_en c \<noteq> 0))"

definition SetAttitudeCallback :: "LivoxLidarStatus \<Rightarrow> u32 \<Rightarrow> bool \<Rightarrow> ('p, 'f) handler" where
  "SetAttitudeCallback status handle client s = (case GetLidarDevice client handle s of
     None \<Rightarrow> Some (s, [])
   | Some i \<Rightarrow>
       (let config = livox_config (lidars s ! i) in
        Some (s, if status = kLivoxLidarStatusTimeout then [ReqInstallAttitude (cfg_handle config) (extrinsic_param config)]
                 else [])))"

definition EnableLivoxLidarImuDataCallback ::
  "LivoxLidarStatus \<Rightarrow> u32 \<Rightarrow> (u8 \<times> u16) option \<Rightarrow> bool \<Rightarrow> ('p, 'f) handler" where
  "EnableLivoxLidarImuDataCallback status handle response client s = (case GetLidarDevice client handle s of
     None \<Rightarrow> Some (s, [])
   | Some i \<Rightarrow>
       Some (s, if response = None then []
                else if status = kLivoxLidarStatusTimeout then [ReqEnableImuData handle] else []))"

section \<open>When a lidar is published\<close>

datatype Setting = DataType | ScanPattern | BlindSpot | DualEmit

fun setting_bit :: "Setting \<Rightarrow> u32" where
  "setting_bit DataType = kConfigDataType"
| "setting_bit ScanPattern = kConfigScanPattern"
| "setting_bit BlindSpot = kConfigBlindSpot"
| "setting_bit DualEmit = kConfigDualEmit"

fun requested :: "'f UserLivoxLidarConfig \<Rightarrow> Setting \<Rightarrow> bool" where
  "requested c DataType \<longleftrightarrow> pcl_data_type c \<noteq> -1"
| "requested c ScanPattern \<longleftrightarrow> pattern_mode c \<noteq> -1"
| "requested c BlindSpot \<longleftrightarrow> blind_spot_set c \<noteq> -1"
| "requested c DualEmit \<longleftrightarrow> dual_emit_en c \<noteq> -1"

fun setting_callback ::
  "Setting \<Rightarrow> LivoxLidarStatus \<Rightarrow> u32 \<Rightarrow> (u8 \<times> u16) option \<Rightarrow> bool \<Rightarrow> ('p, 'f) handler" where
  "setting_callback DataType = SetDataTypeCallback"
| "setting_callback ScanPattern = SetPatternModeCallback"
| "setting_callback BlindSpot = SetBlindSpotCallback"
| "setting_callback DualEmit = SetDualEmitCallback"

text \<open>The answers of the lidar with a given handle, one after another.\<close>

fun answers :: "u32 \<Rightarrow> (Setting \<times> LivoxLidarStatus \<times> (u8 \<times> u16) option) list \<Rightarrow> ('p, 'f) Lds \<Rightarrow> ('p, 'f) Lds option" where
  "answers handle [] s = Some s"
| "answers handle ((k, status, response) # as) s = do {
     (s, _) \<leftarrow> setting_callback k status handle response True s;
     answers handle as s }"

definition acknowledged :: "(Setting \<times> LivoxLidarStatus \<times> (u8 \<times> u16) option) list \<Rightarrow> Setting \<Rightarrow> bool" where
  "acknowledged as k \<longleftrightarrow> (k, kLivoxLidarStatusSuccess) \<in> (\<lambda>(k, status, _). (k, status)) ` set as"

definition bits_of :: "(Setting \<Rightarrow> bool) \<Rightarrow> u32" where
  "bits_of P = (if P DataType then kConfigDataType else 0) OR (if P ScanPattern then kConfigScanPattern else 0) OR
     (if P BlindSpot then kConfigBlindSpot else 0) OR (if P DualEmit then kConfigDualEmit else 0)"

lemmas config_bit_defs = kConfigDataType_def kConfigScanPattern_def kConfigBlindSpot_def kConfigDualEmit_def

lemma config_bits_of: "config_bits c = bits_of (requested c)"
  by (simp add: config_bits_def bits_of_def)

lemma Setting_all: "(\<forall>k. P k) \<longleftrightarrow> P DataType \<and> P ScanPattern \<and> P BlindSpot \<and> P DualEmit"
  by (metis Setting.exhaust)

lemma bits_of_0: "bits_of P = 0 \<longleftrightarrow> (\<forall>k. \<not> P k)"
  by (simp add: bits_of_def config_bit_defs Setting_all)

lemma bits_of_clear: "bits_of P AND NOT (setting_bit k) = bits_of (P(k := False))"
  by (cases k) (simp_all add: bits_of_def config_bit_defs)

lemma setting_callback_def: "\<exists>again. setting_callback k = config_callback (setting_bit k) again"
  by (cases k) (auto simp: SetDataTypeCallback_def SetPatternModeCallback_def SetBlindSpotCallback_def SetDualEmitCallback_def)

text \<open>The open settings, and whether the lidar samples, after some answers.\<close>

definition config_state :: "('p, 'f) Lds \<Rightarrow> u32 \<Rightarrow> nat \<Rightarrow> (Setting \<Rightarrow> bool) \<Rightarrow> bool" where
  "config_state s handle i P \<longleftrightarrow> i < length (lidars s) \<and> GetLidarDevice True handle s = Some i \<and>
     set_bits (livox_config (lidars s ! i)) = bits_of P \<and>
     (connect_state (lidars s ! i) = kConnectStateSampling \<longleftrightarrow> (\<forall>k. \<not> P k))"

lemma setting_callback_state:
  assumes "config_state s handle i P"
    and "status = kLivoxLidarStatusSuccess \<or> status = kLivoxLidarStatusTimeout \<or> response \<noteq> None"
  shows "\<exists>s' rs. setting_callback k status handle response True s = Some (s', rs) \<and>
    config_state s' handle i (if status = kLivoxLidarStatusSuccess then P(k := False) else P)"
proof -
  obtain again where "setting_callback k = (config_callback (setting_bit k) again ::
      LivoxLidarStatus \<Rightarrow> u32 \<Rightarrow> (u8 \<times> u16) option \<Rightarrow> bool \<Rightarrow> ('a, 'b) handler)"
    using setting_callback_def by blast
  then show ?thesis
    using assms
    by (auto simp: config_callback_def config_state_def Let_def update_lidar_def GetLidarDevice_def bits_of_clear bits_of_0)
qed

lemma answers_state:
  assumes "config_state s handle i P"
    and "\<forall>(k, status, response) \<in> set as. status = kLivoxLidarStatusSuccess \<or> status = kLivoxLidarStatusTimeout \<or> response \<noteq> None"
  shows "\<exists>s'. answers handle as s = Some s' \<and> config_state s' handle i (\<lambda>k. P k \<and> \<not> acknowledged as k)"
  using assms
proof (induction "as" arbitrary: s P)
  case Nil
  then show ?case by (simp add: acknowledged_def)
next
  case (Cons a "as")
  obtain k status response where a: "a = (k, status, response)" by (cases a)
  let ?P = "if status = kLivoxLidarStatusSuccess then P(k := False) else P"
  obtain s1 rs where s1: "setting_callback k status handle response True s = Some (s1, rs)" "config_state s1 handle i ?P"
    using setting_callback_state [OF Cons.prems(1), of status response k] Cons.prems(2) a by auto
  have "(\<lambda>j. ?P j \<and> \<not> acknowledged as j) = (\<lambda>j. P j \<and> \<not> acknowledged (a # as) j)"
    by (auto simp: acknowledged_def a fun_eq_iff)
  then show ?case using Cons.IH [OF s1(2)] Cons.prems(2) s1(1) by (auto simp: a)
qed

text \<open>
  C26. A configured lidar that is not sampling and has no setting outstanding appears, and the
  user has asked for at least one setting. The settings are then answered, in any order and with
  repetitions (an answer that is neither success nor a timeout has a response): the driver counts
  the lidar as sampling exactly when every setting the user asked for has been acknowledged with
  success.
\<close>
theorem config_sampling:
  assumes "GetLidarDevice True handle s = Some i" "i < length (lidars s)"
    and "connect_state (lidars s ! i) \<noteq> kConnectStateSampling" "set_bits (livox_config (lidars s ! i)) = 0"
    and "requested (livox_config (lidars s ! i)) k"
    and "LidarInfoChangeCallback handle (Some dev_type) True s = Some (s1, reqs)"
    and "\<forall>(k, status, response) \<in> set as. status = kLivoxLidarStatusSuccess \<or> status = kLivoxLidarStatusTimeout \<or> response \<noteq> None"
  shows "\<exists>s2. answers handle as s1 = Some s2 \<and>
    (connect_state (lidars s2 ! i) = kConnectStateSampling \<longleftrightarrow>
      (\<forall>j. requested (livox_config (lidars s ! i)) j \<longrightarrow> acknowledged as j))"
proof -
  have "config_state s1 handle i (requested (livox_config (lidars s ! i)))"
    using assms(1-6) by (auto simp: LidarInfoChangeCallback_def config_state_def update_lidar_def GetLidarDevice_def
        Let_def config_bits_of split: if_splits)
  from answers_state [OF this assms(7)] show ?thesis by (auto simp: config_state_def)
qed

lemma update_lidar_map:
  assumes "\<And>d. f (g d) = f d"
  shows "map f (lidars (update_lidar i g s)) = map f (lidars s)"
  using assms by (cases "i < length (lidars s)") (simp_all add: update_lidar_def map_update list_update_same_conv list_update_beyond not_less)

text \<open>
  A lidar that is not in the configuration is asked to work and to send IMU data, but no device is
  ever counted as sampling for it and its handle is not stored.
\<close>
theorem unlisted_lidar:
  assumes "GetLidarDevice True handle s = None" "LidarInfoChangeCallback handle (Some dev_type) True s = Some (s', reqs)"
  shows "set reqs \<subseteq> {ReqWorkModeNormal handle, ReqEnableImuData handle} \<and>
    map connect_state (lidars s') = map connect_state (lidars s) \<and> map dev_handle (lidars s') = map dev_handle (lidars s)"
proof -
  obtain r c where g: "GetFreeIndex kLivoxLidarType handle (cache_index s) = (r, c)" by force
  show ?thesis using assms g by (cases r) (auto simp: LidarInfoChangeCallback_def update_lidar_map)
qed

text \<open>
  The repetition of the request for IMU data is never reached: the SDK passes no response with a
  timeout.
\<close>

lemma imu_timeout_not_repeated:
  "EnableLivoxLidarImuDataCallback kLivoxLidarStatusTimeout handle None client s = Some (s, [])"
  by (simp add: EnableLivoxLidarImuDataCallback_def split: option.splits)

text \<open>A blind spot distance of 150 cm arrives as a negative number.\<close>

lemma blind_spot_wraps:
  "blind_spot_set (user_config 0 handle \<lparr>json_ip = Some handle, json_pcl_data_type = None, json_pattern_mode = None,
     json_blind_spot_set = Some 150, json_dual_emit_en = None, json_extrinsic = None\<rparr>) = - 106"
  by (simp add: user_config_def or_default_def)

lemma LidarInfoChangeCallback_Some:
  "\<exists>s' reqs. LidarInfoChangeCallback handle (Some dev_type) client s = Some (s', reqs)"
proof -
  obtain r c where "GetFreeIndex kLivoxLidarType handle (cache_index s) = (r, c)" by force
  then show ?thesis by (cases r) (auto simp: LidarInfoChangeCallback_def Let_def split: option.splits)
qed

section \<open>One lidar as an example\<close>

definition demo_config :: "nat UserLivoxLidarConfig" where
  "demo_config = user_config 0 5 \<lparr>json_ip = Some 5, json_pcl_data_type = Some 1, json_pattern_mode = None,
     json_blind_spot_set = None, json_dual_emit_en = Some 1, json_extrinsic = None\<rparr>"

definition demo_driver :: "(nat, nat) Lds" where
  "demo_driver = fst (init_devices [demo_config] \<lparr>lidar_count = 1, lidars = [zero_device 0], pcd_semaphore = 0,
     imu_semaphore = 0, cache_index = new_CacheIndex, publish_freq = 10, lds_data_src = 0, request_exit = False\<rparr>)"

theorem config_sampling_witness:
  "\<exists>s1 reqs s2. LidarInfoChangeCallback 5 (Some 9) True demo_driver = Some (s1, reqs) \<and>
    answers 5 [(DualEmit, kLivoxLidarStatusSuccess, None), (DataType, kLivoxLidarStatusTimeout, None)] s1 = Some s2 \<and>
    connect_state (lidars s2 ! 0) \<noteq> kConnectStateSampling"
proof -
  have d: "GetLidarDevice True 5 demo_driver = Some 0" "connect_state (lidars demo_driver ! 0) \<noteq> kConnectStateSampling"
    "set_bits (livox_config (lidars demo_driver ! 0)) = 0" "requested (livox_config (lidars demo_driver ! 0)) DataType"
    "0 < length (lidars demo_driver)"
    by code_simp+
  obtain s1 reqs where s1: "LidarInfoChangeCallback 5 (Some 9) True demo_driver = Some (s1, reqs)"
    using LidarInfoChangeCallback_Some by blast
  let ?as = "[(DualEmit, kLivoxLidarStatusSuccess, None), (DataType, kLivoxLidarStatusTimeout, None)]"
  obtain s2 where "answers 5 ?as s1 = Some s2" "connect_state (lidars s2 ! 0) = kConnectStateSampling \<longleftrightarrow>
      (\<forall>j. requested (livox_config (lidars demo_driver ! 0)) j \<longrightarrow> acknowledged ?as j)"
    using config_sampling [OF d(1,5,2-4) s1, of ?as] by auto
  moreover have "\<not> acknowledged ?as DataType" by (simp add: acknowledged_def)
  ultimately show ?thesis using s1 d(4) by blast
qed

theorem unlisted_lidar_witness:
  "\<exists>s' reqs. LidarInfoChangeCallback 7 (Some 9) True demo_driver = Some (s', reqs) \<and>
    set reqs \<subseteq> {ReqWorkModeNormal 7, ReqEnableImuData 7} \<and>
    map connect_state (lidars s') = map connect_state (lidars demo_driver) \<and>
    map dev_handle (lidars s') = map dev_handle (lidars demo_driver)"
proof -
  have d: "GetLidarDevice True 7 demo_driver = None" by code_simp
  obtain s' reqs where s: "LidarInfoChangeCallback 7 (Some 9) True demo_driver = Some (s', reqs)"
    using LidarInfoChangeCallback_Some by blast
  with unlisted_lidar [OF d s] show ?thesis by blast
qed

end
