(* ===== verification/Ping_Parser.thy ===== *)
theory Ping_Parser
  imports Prelude
begin

text \<open>
  The message layer of the Ping360 sonar (ping360\_sonar/src/ping-cpp/src/message): the buffer
  of a message with its checksum (ping-message.h) and the parser that takes the bytes of the
  serial line one at a time (ping-parser.h). A message is \<open>BR\<close>, the payload length, the message
  id, two device ids, the payload and the sum of all bytes before it.
\<close>

section \<open>Messages\<close>

text \<open>The buffer holds \<open>bufferLength\<close> bytes; an access beyond it is \<open>None\<close>.\<close>

record ping_message =
  bufferLength :: u16
  msgData :: "u8 list"

definition headerLength :: nat where "headerLength = 8"
definition checksumLength :: nat where "checksumLength = 2"

text \<open>Allocation leaves the bytes as they are (\<open>junk\<close>), but for the two start bytes.\<close>

definition new_message :: "(nat \<Rightarrow> u8) \<Rightarrow> u16 \<Rightarrow> ping_message" where
  "new_message junk n = (let buf = map junk [0..<unat n] in
     \<lparr>bufferLength = n, msgData = (if 2 \<le> n then buf[0 := 66, 1 := 82] else buf)\<rparr>)"

definition payload_length :: "ping_message \<Rightarrow> u16 option" where
  "payload_length m = rd16 (msgData m) 2"

definition message_id :: "ping_message \<Rightarrow> u16 option" where
  "message_id m = rd16 (msgData m) 4"

definition source_device_id :: "ping_message \<Rightarrow> u8 option" where
  "source_device_id m = rd8 (msgData m) 6"

definition destination_device_id :: "ping_message \<Rightarrow> u8 option" where
  "destination_device_id m = rd8 (msgData m) 7"

text \<open>The sum of three lengths is cut to 16 bits.\<close>

definition msgDataLength :: "ping_message \<Rightarrow> u16 option" where
  "msgDataLength m = do { n \<leftarrow> payload_length m; Some (of_nat headerLength + n + of_nat checksumLength) }"

text \<open>An index that is computed as an \<open>int\<close> and may be negative.\<close>

definition at_int :: "u8 list \<Rightarrow> int \<Rightarrow> u8 option" where
  "at_int buf i = (if 0 \<le> i then rd8 buf (nat i) else None)"

definition checksum :: "ping_message \<Rightarrow> u16 option" where
  "checksum m = do {
     n \<leftarrow> msgDataLength m;
     l \<leftarrow> at_int (msgData m) (uint n - 2);
     h \<leftarrow> at_int (msgData m) (uint n - 1);
     Some (ucast l + push_bit 8 (ucast h)) }"

text \<open>
  The loop counter is unsigned with 32 bits: for a message length below two its bound wraps to a
  huge number.
\<close>

fun sum_bytes :: "u8 list \<Rightarrow> u16" where
  "sum_bytes [] = 0"
| "sum_bytes (b # bs) = ucast b + sum_bytes bs"

definition calculateChecksum :: "ping_message \<Rightarrow> u16 option" where
  "calculateChecksum m = do {
     n \<leftarrow> msgDataLength m;
     bs \<leftarrow> peek (msgData m) 0 (unat (of_int (uint n - 2) :: u32));
     Some (sum_bytes bs) }"

definition verifyChecksum :: "ping_message \<Rightarrow> bool option" where
  "verifyChecksum m = do {
     n \<leftarrow> msgDataLength m;
     if bufferLength m < n then Some False
     else do { c \<leftarrow> checksum m; d \<leftarrow> calculateChecksum m; Some (c = d) } }"

definition set_checksum :: "u16 \<Rightarrow> ping_message \<Rightarrow> ping_message option" where
  "set_checksum c m = do {
     n \<leftarrow> msgDataLength m;
     if uint n < 2 then None
     else do { buf \<leftarrow> poke (msgData m) (unat n - 2) [ucast c, ucast (drop_bit 8 c)]; Some (m\<lparr>msgData := buf\<rparr>) } }"

definition updateChecksum :: "ping_message \<Rightarrow> ping_message option" where
  "updateChecksum m = do {
     n \<leftarrow> msgDataLength m;
     if n \<le> bufferLength m then do { c \<leftarrow> calculateChecksum m; set_checksum c m } else Some m }"

section \<open>The parser\<close>

datatype State =
    NEW_MESSAGE | WAIT_START | WAIT_HEADER | WAIT_LENGTH_L | WAIT_LENGTH_H | WAIT_MSG_ID_L | WAIT_MSG_ID_H
  | WAIT_SRC_ID | WAIT_DST_ID | WAIT_PAYLOAD | WAIT_CHECKSUM_L | WAIT_CHECKSUM_H | ERROR

text \<open>The operator \<open>++\<close> of the enumeration; the last value has no successor.\<close>

primrec next_state :: "State \<Rightarrow> State option" where
  "next_state NEW_MESSAGE = Some WAIT_START"
| "next_state WAIT_START = Some WAIT_HEADER"
| "next_state WAIT_HEADER = Some WAIT_LENGTH_L"
| "next_state WAIT_LENGTH_L = Some WAIT_LENGTH_H"
| "next_state WAIT_LENGTH_H = Some WAIT_MSG_ID_L"
| "next_state WAIT_MSG_ID_L = Some WAIT_MSG_ID_H"
| "next_state WAIT_MSG_ID_H = Some WAIT_SRC_ID"
| "next_state WAIT_SRC_ID = Some WAIT_DST_ID"
| "next_state WAIT_DST_ID = Some WAIT_PAYLOAD"
| "next_state WAIT_PAYLOAD = Some WAIT_CHECKSUM_L"
| "next_state WAIT_CHECKSUM_L = Some WAIT_CHECKSUM_H"
| "next_state WAIT_CHECKSUM_H = Some ERROR"
| "next_state ERROR = None"

text \<open>\<open>rxBufferLength\<close> is never written by the constructor: it is what the memory held.\<close>

record PingParser =
  rxMessage :: ping_message
  parsed :: u32
  errors :: u32
  rxBufferLength :: u32
  rxCount :: u32
  payloadLength :: u16
  parser_state :: State

definition new_PingParser :: "(nat \<Rightarrow> u8) \<Rightarrow> u32 \<Rightarrow> u16 \<Rightarrow> PingParser" where
  "new_PingParser junk garbage n = \<lparr>rxMessage = new_message junk n, parsed = 0, errors = 0, rxBufferLength = garbage,
     rxCount = 0, payloadLength = 0, parser_state = WAIT_START\<rparr>"

definition reset :: "PingParser \<Rightarrow> PingParser" where
  "reset p = p\<lparr>parser_state := WAIT_START\<rparr>"

text \<open>\<open>rxBuffer_[rxCount_++] = data\<close>, and \<open>state_++\<close>.\<close>

definition push_byte :: "u8 \<Rightarrow> PingParser \<Rightarrow> PingParser option" where
  "push_byte d p =
     (if unat (rxCount p) < length (msgData (rxMessage p))
      then Some (p\<lparr>rxMessage := (rxMessage p)\<lparr>msgData := (msgData (rxMessage p))[unat (rxCount p) := d]\<rparr>,
        rxCount := rxCount p + 1\<rparr>)
      else None)"

definition advance :: "PingParser \<Rightarrow> PingParser option" where
  "advance p = do { s \<leftarrow> next_state (parser_state p); Some (p\<lparr>parser_state := s\<rparr>) }"

definition parse_id :: "u8 \<Rightarrow> PingParser \<Rightarrow> PingParser option" where
  "parse_id d p = do {
     p \<leftarrow> push_byte d p;
     p \<leftarrow> advance p;
     if payloadLength p = 0 then advance p else Some p }"

definition parseByte :: "u8 \<Rightarrow> PingParser \<Rightarrow> (State \<times> PingParser) option" where
  "parseByte d p = (case parser_state p of
     WAIT_START \<Rightarrow> do {
       let p = p\<lparr>rxCount := 0\<rparr>;
       p \<leftarrow> (if d = 66 then do { p \<leftarrow> push_byte d p; advance p } else Some p);
       Some (parser_state p, p) }
   | WAIT_HEADER \<Rightarrow> do {
       p \<leftarrow> (if d = 82 then do { p \<leftarrow> push_byte d p; advance p } else Some (reset p));
       Some (parser_state p, p) }
   | WAIT_LENGTH_L \<Rightarrow> do {
       p \<leftarrow> push_byte d p;
       p \<leftarrow> advance (p\<lparr>payloadLength := ucast d\<rparr>);
       Some (parser_state p, p) }
   | WAIT_LENGTH_H \<Rightarrow> do {
       p \<leftarrow> push_byte d p;
       let p = p\<lparr>payloadLength := push_bit 8 (ucast d) OR payloadLength p\<rparr>;
       p \<leftarrow> (if ucast (payloadLength p) \<le> rxBufferLength p - 8 - 2 then advance p else Some (reset p));
       Some (parser_state p, p) }
   | WAIT_MSG_ID_L \<Rightarrow> do { p \<leftarrow> parse_id d p; Some (parser_state p, p) }
   | WAIT_MSG_ID_H \<Rightarrow> do { p \<leftarrow> parse_id d p; Some (parser_state p, p) }
   | WAIT_SRC_ID \<Rightarrow> do { p \<leftarrow> parse_id d p; Some (parser_state p, p) }
   | WAIT_DST_ID \<Rightarrow> do { p \<leftarrow> parse_id d p; Some (parser_state p, p) }
   | WAIT_PAYLOAD \<Rightarrow> do {
       p \<leftarrow> push_byte d p;
       let p = p\<lparr>payloadLength := payloadLength p - 1\<rparr>;
       p \<leftarrow> (if payloadLength p = 0 then advance p else Some p);
       Some (parser_state p, p) }
   | WAIT_CHECKSUM_L \<Rightarrow> do {
       p \<leftarrow> push_byte d p;
       p \<leftarrow> advance p;
       Some (parser_state p, p) }
   | WAIT_CHECKSUM_H \<Rightarrow> do {
       p \<leftarrow> push_byte d p;
       let p = p\<lparr>parser_state := WAIT_START\<rparr>;
       ok \<leftarrow> verifyChecksum (rxMessage p);
       Some (if ok then (NEW_MESSAGE, p\<lparr>parsed := parsed p + 1\<rparr>) else (ERROR, p\<lparr>errors := errors p + 1\<rparr>)) }
   | _ \<Rightarrow> Some (parser_state p, p))"

text \<open>
  \<open>PingDevice::read\<close> of a byte of the line: the message it completes, if any; and the messages
  of a sequence of bytes.
\<close>

definition read :: "u8 \<Rightarrow> PingParser \<Rightarrow> (ping_message option \<times> PingParser) option" where
  "read d p = do {
     r \<leftarrow> parseByte d p;
     Some (if fst r = NEW_MESSAGE then Some (rxMessage (snd r)) else None, snd r) }"

fun read_bytes :: "u8 list \<Rightarrow> PingParser \<Rightarrow> (ping_message list \<times> PingParser) option" where
  "read_bytes [] p = Some ([], p)"
| "read_bytes (d # ds) p = do {
     r \<leftarrow> read d p;
     t \<leftarrow> read_bytes ds (snd r);
     Some ((case fst r of None \<Rightarrow> fst t | Some m \<Rightarrow> m # fst t), snd t) }"

section \<open>A message on the wire\<close>

text \<open>A complete message, and its bytes before the checksum.\<close>

definition body :: "u16 \<Rightarrow> u8 \<Rightarrow> u8 \<Rightarrow> u8 list \<Rightarrow> u8 list" where
  "body i src dst payload = [66, 82] @ le16 (of_nat (length payload)) @ le16 i @ [src, dst] @ payload"

definition frame :: "u16 \<Rightarrow> u8 \<Rightarrow> u8 \<Rightarrow> u8 list \<Rightarrow> u8 list" where
  "frame i src dst payload = body i src dst payload @ le16 (sum_bytes (body i src dst payload))"

lemma length_body [simp]: "length (body i src dst payload) = 8 + length payload"
  by (simp add: body_def)

lemma length_ping_frame [simp]: "length (frame i src dst payload) = 10 + length payload"
  by (simp add: frame_def)

lemma le16_bytes: "le16 c = [ucast c, ucast (drop_bit 8 c)]"
  by (simp add: le16_def numeral_2_eq_2)

lemma checksum_bytes: "ucast (ucast c :: u8) + push_bit 8 (ucast (ucast (drop_bit 8 c) :: u8)) = (c :: u16)"
proof -
  have "ucast (ucast c :: u8) + push_bit 8 (ucast (ucast (drop_bit 8 c) :: u8)) =
      (ucast (ucast c :: u8) OR push_bit 8 (ucast (ucast (drop_bit 8 c) :: u8)) :: u16)"
    by (rule disjunctive_add) (auto simp: bit_simps)
  also have "\<dots> = from_le (le16 c)" by (simp add: le16_bytes)
  finally show ?thesis by simp
qed

lemma unat_of_nat_u16: "n < 2 ^ 16 \<Longrightarrow> unat (of_nat n :: u16) = n"
  by (simp add: unat_of_nat take_bit_nat_eq_self)

text \<open>Reading the header of a buffer that starts with a message.\<close>

lemma body_fields:
  assumes "msgData m = body i src dst payload @ rest"
  shows "payload_length m = Some (of_nat (length payload))" "message_id m = Some i"
    and "source_device_id m = Some src" "destination_device_id m = Some dst"
  using assms
  by (simp_all add: payload_length_def message_id_def source_device_id_def destination_device_id_def rd8_def rd16_def
      peek_def body_def)

lemma msgDataLength_body:
  assumes "msgData m = body i src dst payload @ rest" "length payload + 10 < 2 ^ 16"
  obtains n where "msgDataLength m = Some n" "unat n = length payload + 10" "uint n = int (length payload + 10)"
proof
  show "msgDataLength m = Some (of_nat (length payload + 10))"
    using body_fields(1) [OF assms(1)] by (simp add: msgDataLength_def headerLength_def checksumLength_def)
  show u: "unat (of_nat (length payload + 10) :: u16) = length payload + 10" using assms(2) by (rule unat_of_nat_u16)
  show "uint (of_nat (length payload + 10) :: u16) = int (length payload + 10)" by (simp only: uint_nat u)
qed

lemma calculateChecksum_body:
  assumes "msgData m = body i src dst payload @ rest" "length payload + 10 < 2 ^ 16"
  shows "calculateChecksum m = Some (sum_bytes (body i src dst payload))"
proof -
  obtain n where n: "msgDataLength m = Some n" "uint n = int (length payload + 10)"
    using msgDataLength_body [OF assms] by blast
  have "uint n - 2 = int (length payload + 8)" using n(2) by simp
  moreover have "unat (of_int (int (length payload + 8)) :: u32) = length payload + 8"
    unfolding of_int_of_nat_eq using assms(2) by (intro unat_of_nat_eq) simp
  ultimately have "unat (of_int (uint n - 2) :: u32) = length payload + 8" by (simp only:)
  then show ?thesis using assms(1) by (simp add: calculateChecksum_def n(1) peek_def)
qed

lemma checksum_frame:
  assumes "msgData m = frame i src dst payload @ rest" "length payload + 10 < 2 ^ 16"
  shows "checksum m = Some (sum_bytes (body i src dst payload))"
proof -
  let ?b = "body i src dst payload"
  have b: "msgData m = ?b @ (le16 (sum_bytes ?b) @ rest)" using assms(1) by (simp add: frame_def)
  obtain n where n: "msgDataLength m = Some n" "uint n = int (length payload + 10)"
    using msgDataLength_body [OF b assms(2)] by blast
  then have u: "uint n - 2 = int (length ?b)" "uint n - 1 = int (Suc (length ?b))" by simp_all
  have "at_int (msgData m) (int (length ?b)) = Some (ucast (sum_bytes ?b))"
    "at_int (msgData m) (int (Suc (length ?b))) = Some (ucast (drop_bit 8 (sum_bytes ?b)))"
    by (simp_all only: at_int_def of_nat_0_le_iff if_True nat_int)
      (simp_all add: b le16_bytes rd8_def peek_def del: length_body)
  then show ?thesis by (simp only: checksum_def n(1) u bind.bind_lunit checksum_bytes)
qed

lemma verifyChecksum_frame:
  assumes "msgData m = frame i src dst payload @ rest" "length payload + 10 \<le> unat (bufferLength m)"
  shows "verifyChecksum m = Some True"
proof -
  have len: "length payload + 10 < 2 ^ 16" using assms(2) unat_u16 [of "bufferLength m"] by simp
  have b: "msgData m = body i src dst payload @ (le16 (sum_bytes (body i src dst payload)) @ rest)"
    using assms(1) by (simp add: frame_def)
  obtain n where n: "msgDataLength m = Some n" "unat n = length payload + 10"
    using msgDataLength_body [OF b len] by blast
  then have "\<not> bufferLength m < n" using assms(2) by (simp add: word_less_nat_alt)
  then show ?thesis
    by (simp add: verifyChecksum_def n(1) calculateChecksum_body [OF b len] checksum_frame [OF assms(1) len])
qed

text \<open>Writing a message whose buffer has just its length puts the checksum behind the body.\<close>

lemma updateChecksum_frame:
  assumes "msgData m = body i src dst payload @ [l, h]" "length payload + 10 \<le> unat (bufferLength m)"
  shows "updateChecksum m = Some (m\<lparr>msgData := frame i src dst payload\<rparr>)"
proof -
  have len: "length payload + 10 < 2 ^ 16" using assms(2) unat_u16 [of "bufferLength m"] by simp
  obtain n where n: "msgDataLength m = Some n" "unat n = length payload + 10" "uint n = int (length payload + 10)"
    using msgDataLength_body [OF assms(1) len] by blast
  have "set_checksum c m = Some (m\<lparr>msgData := body i src dst payload @ le16 c\<rparr>)" for c
    unfolding le16_bytes using assms(1) by (simp add: set_checksum_def n poke_def)
  moreover have "n \<le> bufferLength m" using assms(2) n(2) by (simp add: word_le_nat_alt)
  ultimately show ?thesis
    using calculateChecksum_body [OF assms(1) len] by (simp add: updateChecksum_def n(1) frame_def)
qed

section \<open>The parser accepts every message\<close>

lemma read_bytes_append:
  "read_bytes (xs @ ys) p = Option.bind (read_bytes xs p)
     (\<lambda>r. Option.bind (read_bytes ys (snd r)) (\<lambda>t. Some (fst r @ fst t, snd t)))"
proof (induction xs arbitrary: p)
  case (Cons x xs)
  then show ?case by (cases "read x p") (auto simp: Option.bind_assoc split: option.splits intro!: Option.bind_cong)
qed (simp add: Option.bind_runit)

lemma read_step: "parseByte d p = Some (s, q) \<Longrightarrow> s \<noteq> NEW_MESSAGE \<Longrightarrow> read d p = Some (None, q)"
  by (simp add: read_def)

text \<open>
  What the parser has put into its buffer, within \<open>n\<close> bytes, and what a step inside a message
  leaves as it is.
\<close>

definition wrote :: "u8 list \<Rightarrow> PingParser \<Rightarrow> bool" where
  "wrote pre p \<longleftrightarrow> unat (rxCount p) = length pre \<and> (\<exists>rest. msgData (rxMessage p) = pre @ rest)"

definition kept :: "PingParser \<Rightarrow> PingParser \<Rightarrow> bool" where
  "kept p q \<longleftrightarrow> bufferLength (rxMessage q) = bufferLength (rxMessage p) \<and> parsed q = parsed p \<and> errors q = errors p \<and>
     length (msgData (rxMessage q)) = length (msgData (rxMessage p)) \<and> rxBufferLength q = rxBufferLength p"

lemma kept_refl [simp]: "kept p p"
  by (simp add: kept_def)

lemma kept_trans [trans]: "kept p q \<Longrightarrow> kept q r \<Longrightarrow> kept p r"
  by (simp add: kept_def)

lemma wrote_state [simp]:
  "wrote pre (p\<lparr>parser_state := s\<rparr>) = wrote pre p" "wrote pre (p\<lparr>payloadLength := n\<rparr>) = wrote pre p"
  by (simp_all add: wrote_def)

lemma kept_state [simp]:
  "kept p (q\<lparr>parser_state := s\<rparr>) = kept p q" "kept p (q\<lparr>payloadLength := n\<rparr>) = kept p q"
  "kept p (q\<lparr>rxCount := k\<rparr>) = kept p q"
  "kept (p\<lparr>rxCount := k\<rparr>) q = kept p q"
  by (simp_all add: kept_def)

lemma push_byte_wrote:
  assumes "wrote pre p" "length pre < length (msgData (rxMessage p))" "length (msgData (rxMessage p)) < 2 ^ 32"
  obtains q where "push_byte d p = Some q" "wrote (pre @ [d]) q" "kept p q" "payloadLength q = payloadLength p"
    "parser_state q = parser_state p"
proof -
  obtain rest where r: "unat (rxCount p) = length pre" "msgData (rxMessage p) = pre @ rest"
    using assms(1) by (auto simp: wrote_def)
  then obtain x xs where x: "rest = x # xs" using assms(2) by (cases rest) auto
  have u: "unat (rxCount p + 1) = length pre + 1"
  proof -
    have "rxCount p + 1 = of_nat (unat (rxCount p) + 1)" by simp
    then have "rxCount p + 1 = of_nat (length pre + 1)" unfolding r(1) .
    then show ?thesis using assms(2,3) by (simp only: unat_of_nat_eq)
  qed
  let ?q = "p\<lparr>rxMessage := (rxMessage p)\<lparr>msgData := (pre @ x # xs)[length pre := d]\<rparr>, rxCount := rxCount p + 1\<rparr>"
  show thesis
  proof (rule that [of ?q])
    show "push_byte d p = Some ?q" using r x by (simp add: push_byte_def)
    show "wrote (pre @ [d]) ?q" using u by (simp add: wrote_def)
    show "kept p ?q" using r x by (simp add: kept_def)
  qed simp_all
qed

text \<open>
  The parser in the middle of a message: its state, what it has stored since it was \<open>p\<close>, and the
  length it has read.
\<close>

definition midway :: "PingParser \<Rightarrow> State \<Rightarrow> u8 list \<Rightarrow> u16 \<Rightarrow> PingParser \<Rightarrow> bool" where
  "midway p s pre n q \<longleftrightarrow> parser_state q = s \<and> wrote pre q \<and> kept p q \<and> payloadLength q = n"

lemma midway_push:
  assumes "midway p s pre n q" "length pre < length (msgData (rxMessage p))" "length (msgData (rxMessage p)) < 2 ^ 32"
  obtains r where "push_byte d q = Some r" "midway p s (pre @ [d]) n r"
proof -
  have "length (msgData (rxMessage q)) = length (msgData (rxMessage p))" using assms(1) by (simp add: midway_def kept_def)
  then obtain r where "push_byte d q = Some r" "wrote (pre @ [d]) r" "kept q r" "payloadLength r = payloadLength q"
    "parser_state r = parser_state q"
    using push_byte_wrote [of pre q] assms by (auto simp: midway_def)
  then show thesis using assms(1) kept_trans by (intro that [of r]) (auto simp: midway_def)
qed

text \<open>One byte of a message.\<close>

lemma read_length_l:
  assumes "midway p WAIT_LENGTH_L pre n q" "length pre < length (msgData (rxMessage p))" "length (msgData (rxMessage p)) < 2 ^ 32"
  shows "\<exists>r. read d q = Some (None, r) \<and> midway p WAIT_LENGTH_H (pre @ [d]) (ucast d) r"
proof -
  obtain r where "push_byte d q = Some r" "midway p WAIT_LENGTH_L (pre @ [d]) n r" using midway_push [OF assms] .
  then show ?thesis using assms(1) by (simp add: read_def parseByte_def advance_def midway_def)
qed

lemma read_length_h:
  assumes "midway p WAIT_LENGTH_H pre (ucast l) q" "length pre < length (msgData (rxMessage p))" "length (msgData (rxMessage p)) < 2 ^ 32"
    and "ucast (from_le [l, d] :: u16) \<le> rxBufferLength p - 10"
  shows "\<exists>r. read d q = Some (None, r) \<and> midway p WAIT_MSG_ID_L (pre @ [d]) (from_le [l, d]) r"
proof -
  obtain r where "push_byte d q = Some r" "midway p WAIT_LENGTH_H (pre @ [d]) (ucast l) r" using midway_push [OF assms(1-3)] .
  moreover have "push_bit 8 (ucast d) OR ucast l = (from_le [l, d] :: u16)" by (simp add: or.commute)
  ultimately show ?thesis using assms(1,4)
    by (simp add: read_def parseByte_def advance_def midway_def kept_def del: from_le.simps)
qed

lemma read_id:
  assumes "midway p s pre n q" "length pre < length (msgData (rxMessage p))" "length (msgData (rxMessage p)) < 2 ^ 32"
    and "s \<in> {WAIT_MSG_ID_L, WAIT_MSG_ID_H, WAIT_SRC_ID, WAIT_DST_ID}" "n \<noteq> 0" "next_state s = Some s'"
  shows "\<exists>r. read d q = Some (None, r) \<and> midway p s' (pre @ [d]) n r"
proof -
  obtain r where "push_byte d q = Some r" "midway p s (pre @ [d]) n r" using midway_push [OF assms(1-3)] .
  then show ?thesis using assms(1,4-6) by (auto simp: read_def parseByte_def parse_id_def advance_def midway_def)
qed

lemma read_Cons:
  assumes "\<exists>r. read d q = Some (None, r) \<and> P r" "\<And>r. P r \<Longrightarrow> \<exists>t. read_bytes ds r = Some ([], t) \<and> Q t"
  shows "\<exists>t. read_bytes (d # ds) q = Some ([], t) \<and> Q t"
  using assms by fastforce

lemma read_start:
  assumes "parser_state p = WAIT_START" "8 < length (msgData (rxMessage p))" "length (msgData (rxMessage p)) < 2 ^ 32"
  shows "\<exists>r. read 66 p = Some (None, r) \<and> midway p WAIT_HEADER [66] (payloadLength p) r"
proof -
  have "midway p WAIT_START [] (payloadLength p) (p\<lparr>rxCount := 0\<rparr>)" using assms(1) by (simp add: midway_def wrote_def)
  moreover have "length [] < length (msgData (rxMessage p))" using assms(2) by auto
  ultimately obtain r where "push_byte 66 (p\<lparr>rxCount := 0\<rparr>) = Some r" "midway p WAIT_START ([] @ [66]) (payloadLength p) r"
    using midway_push assms(3) by blast
  then show ?thesis using assms(1) by (simp add: read_def parseByte_def advance_def midway_def)
qed

lemma read_R:
  assumes "midway p WAIT_HEADER pre n q" "length pre < length (msgData (rxMessage p))" "length (msgData (rxMessage p)) < 2 ^ 32"
  shows "\<exists>r. read 82 q = Some (None, r) \<and> midway p WAIT_LENGTH_L (pre @ [82]) n r"
proof -
  obtain r where "push_byte 82 q = Some r" "midway p WAIT_HEADER (pre @ [82]) n r" using midway_push [OF assms] .
  then show ?thesis using assms(1) by (simp add: read_def parseByte_def advance_def midway_def)
qed

text \<open>The eight bytes of a header, for a message with a payload that fits.\<close>

lemma read_header:
  assumes "parser_state p = WAIT_START" "n \<noteq> 0" "ucast n \<le> rxBufferLength p - 10"
    and "8 < length (msgData (rxMessage p))" "length (msgData (rxMessage p)) < 2 ^ 32"
  shows "\<exists>q. read_bytes ([66, 82] @ le16 n @ le16 i @ [src, dst]) p = Some ([], q) \<and>
    midway p WAIT_PAYLOAD ([66, 82] @ le16 n @ le16 i @ [src, dst]) n q"
proof -
  have n: "from_le [ucast n, ucast (drop_bit 8 n)] = n" using from_le16 [of n] unfolding le16_bytes .
  have fits: "ucast (from_le [ucast n, ucast (drop_bit 8 n)] :: u16) \<le> rxBufferLength p - 10" unfolding n by (rule assms(3))
  show ?thesis
    unfolding le16_bytes append.simps
    apply (rule read_Cons [OF read_start [OF assms(1,4,5)]])
    apply (rule read_Cons, erule read_R [OF _ _ assms(5)])
    using assms(4) apply simp
    apply (rule read_Cons, erule read_length_l [OF _ _ assms(5)])
    using assms(4) apply simp
    apply (rule read_Cons, erule read_length_h [OF _ _ assms(5) fits])
    using assms(4) apply simp
    unfolding n
    apply ((rule read_Cons, erule read_id [OF _ _ assms(5) _ assms(2)], (use assms(4) in simp_all)[3])+)
    apply simp
    done
qed


lemma read_payload:
  assumes "midway p WAIT_PAYLOAD pre n q" "payload \<noteq> []" "unat n = length payload"
    and "length pre + length payload \<le> length (msgData (rxMessage p))" "length (msgData (rxMessage p)) < 2 ^ 32"
  shows "\<exists>r. read_bytes payload q = Some ([], r) \<and> midway p WAIT_CHECKSUM_L (pre @ payload) 0 r"
  using assms
proof (induction payload arbitrary: pre n q)
  case (Cons d ds)
  have "length pre < length (msgData (rxMessage p))" using Cons.prems(4) by simp
  then obtain r where r: "push_byte d q = Some r" "midway p WAIT_PAYLOAD (pre @ [d]) n r"
    using midway_push [OF Cons.prems(1) _ Cons.prems(5)] by blast
  have n0: "n \<noteq> 0" using Cons.prems(3) by auto
  then have n: "unat (n - 1) = length ds" using Cons.prems(3) by (simp add: unat_minus_one)
  show ?case
  proof (cases "ds = []")
    case True
    then have "n = 1" using n by (simp add: unat_eq_0)
    then show ?thesis using True r Cons.prems(1) by (simp add: read_def parseByte_def advance_def midway_def)
  next
    case False
    then have "n - 1 \<noteq> 0" using n by auto
    then have "n \<noteq> 1" by auto
    then have step: "\<exists>t. read d q = Some (None, t) \<and> midway p WAIT_PAYLOAD (pre @ [d]) (n - 1) t"
      using r Cons.prems(1) by (simp add: read_def parseByte_def midway_def)
    have "\<exists>u. read_bytes ds t = Some ([], u) \<and> midway p WAIT_CHECKSUM_L ((pre @ [d]) @ ds) 0 u"
      if "midway p WAIT_PAYLOAD (pre @ [d]) (n - 1) t" for t
      using that False n Cons.prems(4,5) by (intro Cons.IH) simp_all
    from read_Cons [OF step this] show ?thesis by simp
  qed
qed simp

lemma read_checksum_l:
  assumes "midway p WAIT_CHECKSUM_L pre n q" "length pre < length (msgData (rxMessage p))" "length (msgData (rxMessage p)) < 2 ^ 32"
  shows "\<exists>r. read d q = Some (None, r) \<and> midway p WAIT_CHECKSUM_H (pre @ [d]) n r"
proof -
  obtain r where "push_byte d q = Some r" "midway p WAIT_CHECKSUM_L (pre @ [d]) n r" using midway_push [OF assms] .
  then show ?thesis using assms(1) by (simp add: read_def parseByte_def advance_def midway_def)
qed

text \<open>The last byte completes the message.\<close>

definition holds_frame :: "u16 \<Rightarrow> u8 \<Rightarrow> u8 \<Rightarrow> u8 list \<Rightarrow> ping_message \<Rightarrow> bool" where
  "holds_frame i src dst payload m \<longleftrightarrow> take (length payload + 10) (msgData m) = frame i src dst payload"

lemma read_checksum_h:
  assumes "midway p WAIT_CHECKSUM_H pre n q" "pre @ [d] = frame i src dst payload"
    and "length payload + 10 \<le> unat (bufferLength (rxMessage p))" "length (msgData (rxMessage p)) = unat (bufferLength (rxMessage p))"
  shows "\<exists>m r. read d q = Some (Some m, r) \<and> holds_frame i src dst payload m \<and> rxMessage r = m \<and>
    parser_state r = WAIT_START \<and> parsed r = parsed p + 1 \<and> errors r = errors p \<and> rxBufferLength r = rxBufferLength p \<and>
    length (msgData m) = length (msgData (rxMessage p)) \<and> bufferLength m = bufferLength (rxMessage p)"
proof -
  have len: "length (msgData (rxMessage p)) < 2 ^ 32" using assms(4) unat_u16 [of "bufferLength (rxMessage p)"] by simp
  have "length (pre @ [d]) = length payload + 10" unfolding assms(2) by simp
  then have "length pre < length (msgData (rxMessage p))" using assms(3,4) by simp
  from midway_push [OF assms(1) this len]
  obtain r where r: "push_byte d q = Some r" "midway p WAIT_CHECKSUM_H (pre @ [d]) n r" .
  then obtain rest where rest: "msgData (rxMessage r) = frame i src dst payload @ rest"
    unfolding assms(2) midway_def wrote_def by blast
  have "verifyChecksum (rxMessage r) = Some True"
    using r(2) assms(3) by (intro verifyChecksum_frame [OF rest]) (simp add: midway_def kept_def)
  then show ?thesis
    using assms(1) r rest by (simp add: read_def parseByte_def midway_def kept_def holds_frame_def)
qed

text \<open>A message as the accessors show it, a payload the parser has room for, and a parser between messages.\<close>

definition carries :: "u16 \<Rightarrow> u8 \<Rightarrow> u8 \<Rightarrow> u8 list \<Rightarrow> ping_message \<Rightarrow> bool" where
  "carries i src dst payload m \<longleftrightarrow> message_id m = Some i \<and> source_device_id m = Some src \<and>
     destination_device_id m = Some dst \<and> payload_length m = Some (of_nat (length payload)) \<and>
     peek (msgData m) headerLength (length payload) = Some payload"

definition fits :: "PingParser \<Rightarrow> u8 list \<Rightarrow> bool" where
  "fits p payload \<longleftrightarrow> payload \<noteq> [] \<and> length payload + 10 \<le> unat (bufferLength (rxMessage p)) \<and>
     of_nat (length payload) \<le> rxBufferLength p - 10"

definition between :: "PingParser \<Rightarrow> bool" where
  "between p \<longleftrightarrow> parser_state p = WAIT_START \<and> length (msgData (rxMessage p)) = unat (bufferLength (rxMessage p))"

lemma holds_frame_carries: "holds_frame i src dst payload m \<Longrightarrow> carries i src dst payload m"
proof -
  assume "holds_frame i src dst payload m"
  then obtain rest where rest: "msgData m = frame i src dst payload @ rest"
    unfolding holds_frame_def by (metis append_take_drop_id)
  then have "msgData m = body i src dst payload @ (le16 (sum_bytes (body i src dst payload)) @ rest)"
    by (simp add: frame_def)
  from body_fields [OF this] show ?thesis
    by (simp add: carries_def rest frame_def body_def peek_def headerLength_def)
qed

lemma read_frame:
  assumes "between p" "fits p payload"
  shows "\<exists>m r. read_bytes (frame i src dst payload) p = Some ([m], r) \<and> carries i src dst payload m \<and> between r \<and>
    parsed r = parsed p + 1 \<and> errors r = errors p \<and> rxBufferLength r = rxBufferLength p \<and>
    bufferLength (rxMessage r) = bufferLength (rxMessage p)"
proof -
  let ?n = "of_nat (length payload) :: u16" and ?N = "length (msgData (rxMessage p))"
  let ?b = "body i src dst payload" and ?c = "sum_bytes (body i src dst payload)"
  have N: "length payload + 10 \<le> ?N" "?N < 2 ^ 32"
    using assms unat_u16 [of "bufferLength (rxMessage p)"] by (simp_all add: between_def fits_def)
  have n: "unat ?n = length payload"
    using assms(2) unat_u16 [of "bufferLength (rxMessage p)"] by (intro unat_of_nat_u16) (simp add: fits_def)
  have "x = of_nat (unat x)" for x :: u32 by simp
  from this [of "ucast ?n"] have "ucast ?n = (of_nat (length payload) :: u32)" unfolding unat_ucast_u16_u32 n .
  moreover have "?n \<noteq> 0" using n assms(2) by (auto simp: fits_def)
  ultimately obtain q1 where q1: "read_bytes ([66, 82] @ le16 ?n @ le16 i @ [src, dst]) p = Some ([], q1)"
    "midway p WAIT_PAYLOAD ([66, 82] @ le16 ?n @ le16 i @ [src, dst]) ?n q1"
    using read_header [of p ?n i src dst] assms N by (auto simp: between_def fits_def)
  obtain q2 where q2: "read_bytes payload q1 = Some ([], q2)" "midway p WAIT_CHECKSUM_L ?b 0 q2"
    using read_payload [OF q1(2) _ n _ N(2)] assms(2) N(1) by (auto simp: body_def fits_def)
  obtain q3 where q3: "read (ucast ?c) q2 = Some (None, q3)" "midway p WAIT_CHECKSUM_H (?b @ [ucast ?c]) 0 q3"
    using read_checksum_l [OF q2(2) _ N(2)] N(1) by auto
  have "(?b @ [ucast ?c]) @ [ucast (drop_bit 8 ?c)] = frame i src dst payload" by (simp add: frame_def le16_bytes)
  from read_checksum_h [OF q3(2) this] assms obtain m r where r:
    "read (ucast (drop_bit 8 ?c)) q3 = Some (Some m, r)" "holds_frame i src dst payload m" "rxMessage r = m"
    "parser_state r = WAIT_START" "parsed r = parsed p + 1" "errors r = errors p" "rxBufferLength r = rxBufferLength p"
    "length (msgData m) = ?N" "bufferLength m = bufferLength (rxMessage p)"
    by (auto simp: fits_def between_def)
  have "frame i src dst payload = ([66, 82] @ le16 ?n @ le16 i @ [src, dst]) @ payload @ [ucast ?c, ucast (drop_bit 8 ?c)]"
    by (simp add: frame_def le16_bytes body_def)
  moreover have "read_bytes (payload @ [ucast ?c, ucast (drop_bit 8 ?c)]) q1 = Some ([m], r)"
    by (simp add: read_bytes_append q2 q3 r)
  ultimately have "read_bytes (frame i src dst payload) p = Some ([m], r)"
    by (simp only: read_bytes_append [of "[66, 82] @ le16 ?n @ le16 i @ [src, dst]" "payload @ [ucast ?c, ucast (drop_bit 8 ?c)]"]
      q1 bind.bind_lunit fst_conv snd_conv append_Nil)
  then show ?thesis using r assms holds_frame_carries by (auto simp: between_def)
qed

text \<open>Bytes that are no \<open>B\<close> are skipped between messages.\<close>

lemma read_noise:
  assumes "between p" "66 \<notin> set noise"
  shows "\<exists>r. read_bytes noise p = Some ([], r) \<and> between r \<and> kept p r"
  using assms
proof (induction noise arbitrary: p)
  case (Cons d ds)
  let ?q = "p\<lparr>rxCount := 0\<rparr>"
  have "read d p = Some (None, ?q)" using Cons.prems by (auto simp: read_def parseByte_def between_def)
  moreover obtain r where "read_bytes ds ?q = Some ([], r)" "between r" "kept ?q r"
    using Cons.IH [of ?q] Cons.prems by (auto simp: between_def)
  ultimately show ?case by simp
qed simp

type_synonym transmission = "u8 list \<times> u16 \<times> u8 \<times> u8 \<times> u8 list"

definition line_bytes :: "transmission list \<Rightarrow> u8 list" where
  "line_bytes ts = concat (map (\<lambda>(noise, i, src, dst, payload). noise @ frame i src dst payload) ts)"

text \<open>
  C28. The Ping parser finds every message with a payload that fits its buffer: from a line that
  carries such messages, with any bytes but B between them, it returns exactly these messages in
  order, each with its id, device ids and payload, and counts no errors.
\<close>
theorem ping_stream:
  assumes "between p" "\<forall>(noise, i, src, dst, payload) \<in> set ts. 66 \<notin> set noise \<and> fits p payload"
  shows "\<exists>ms r. read_bytes (line_bytes ts) p = Some (ms, r) \<and>
    list_all2 (\<lambda>(noise, i, src, dst, payload) m. carries i src dst payload m) ts ms \<and>
    between r \<and> parsed r = parsed p + of_nat (length ts) \<and> errors r = errors p"
  using assms
proof (induction ts arbitrary: p)
  case Nil
  then show ?case by (simp add: line_bytes_def)
next
  case (Cons t ts)
  obtain noise i src dst payload where t: "t = (noise, i, src, dst, payload)" by (cases t)
  obtain q where q: "read_bytes noise p = Some ([], q)" "between q" "kept p q"
    using read_noise [of p noise] Cons.prems t by auto
  have fits: "fits q x = fits p x" for x using q(3) by (simp add: kept_def fits_def)
  then have now: "66 \<notin> set noise" "fits q payload" using Cons.prems(2) by (simp_all add: t)
  obtain m r where r: "read_bytes (frame i src dst payload) q = Some ([m], r)" "carries i src dst payload m" "between r"
    "parsed r = parsed q + 1" "errors r = errors q" "rxBufferLength r = rxBufferLength q"
    "bufferLength (rxMessage r) = bufferLength (rxMessage q)"
    using read_frame [OF q(2) now(2), of i src dst] by blast
  have "fits r x = fits p x" for x using r(6,7) fits by (simp add: fits_def)
  then have "\<forall>(noise, i, src, dst, payload) \<in> set ts. 66 \<notin> set noise \<and> fits r payload" using Cons.prems(2) by auto
  from Cons.IH [OF r(3) this] obtain ms u where u: "read_bytes (line_bytes ts) r = Some (ms, u)"
    "list_all2 (\<lambda>(noise, i, src, dst, payload) m. carries i src dst payload m) ts ms"
    "between u" "parsed u = parsed r + of_nat (length ts)" "errors u = errors r" by blast
  have "read_bytes (line_bytes (t # ts)) p = Some (m # ms, u)"
    using q r u by (simp add: line_bytes_def t read_bytes_append)
  moreover have "parsed u = parsed p + of_nat (length (t # ts))" "errors u = errors p"
    using u r q(3) by (simp_all add: kept_def)
  ultimately show ?case using u r by (auto simp: t)
qed

text \<open>Two messages with noise between them, through a parser of 512 bytes whose length field is set.\<close>

definition demo_parser :: PingParser where
  "demo_parser = new_PingParser (\<lambda>_. 0) 512 512"

definition demo_line :: "transmission list" where
  "demo_line = [([1, 2], 1, 3, 4, [5, 6]), ([82], 2, 3, 4, [66, 82, 0])]"

lemma demo_parser_between: "between demo_parser"
  by (simp add: demo_parser_def new_PingParser_def new_message_def between_def Let_def)

theorem ping_stream_witness:
  "\<exists>ms r. read_bytes (line_bytes demo_line) demo_parser = Some (ms, r) \<and>
    list_all2 (\<lambda>(noise, i, src, dst, payload) m. carries i src dst payload m) demo_line ms \<and>
    between r \<and> parsed r = 2 \<and> errors r = 0"
proof -
  have "\<forall>(noise, i, src, dst, payload) \<in> set demo_line. 66 \<notin> set noise \<and> fits demo_parser payload"
    by (simp add: demo_line_def demo_parser_def new_PingParser_def new_message_def fits_def Let_def)
  from ping_stream [OF demo_parser_between this] show ?thesis
    by (simp add: demo_line_def demo_parser_def new_PingParser_def)
qed

section \<open>A message without payload\<close>

text \<open>
  In all four states before the payload the parser skips a state when the length is zero, so it
  waits for a payload after six bytes, and its counter wraps to 65535: no more than the end of the
  buffer stops it.
\<close>

lemma push_byte_full: "wrote pre q \<Longrightarrow> length (msgData (rxMessage q)) \<le> length pre \<Longrightarrow> push_byte d q = None"
  by (simp add: push_byte_def wrote_def)

lemma read_endless:
  assumes "midway p WAIT_PAYLOAD pre n q" "length (msgData (rxMessage p)) \<le> length pre + unat (n - 1)"
    and "length pre \<le> length (msgData (rxMessage p))" "length (msgData (rxMessage p)) < 2 ^ 32"
  shows "map_option fst (read_bytes xs q) =
    (if length pre + length xs \<le> length (msgData (rxMessage p)) then Some [] else None)"
  using assms
proof (induction xs arbitrary: pre n q)
  case (Cons d ds)
  let ?N = "length (msgData (rxMessage p))"
  show ?case
  proof (cases "length pre < ?N")
    case True
    obtain r where r: "push_byte d q = Some r" "midway p WAIT_PAYLOAD (pre @ [d]) n r"
      using midway_push [OF Cons.prems(1) True Cons.prems(4)] by blast
    have n: "n - 1 \<noteq> 0" using True Cons.prems(2) by auto
    then have "n \<noteq> 1" by auto
    then have step: "\<exists>t. read d q = Some (None, t) \<and> midway p WAIT_PAYLOAD (pre @ [d]) (n - 1) t"
      using r Cons.prems(1) by (simp add: read_def parseByte_def midway_def)
    then obtain t where t: "read d q = Some (None, t)" "midway p WAIT_PAYLOAD (pre @ [d]) (n - 1) t" by blast
    have "unat (n - 1) = unat (n - 1 - 1) + 1" using n unat_minus_one [of "n - 1"] by (simp add: unat_gt_0)
    then have "map_option fst (read_bytes ds t) = (if length (pre @ [d]) + length ds \<le> ?N then Some [] else None)"
      using Cons.prems True by (intro Cons.IH [OF t(2)]) simp_all
    then show ?thesis using t by (auto split: if_splits)
  next
    case False
    then have "push_byte d q = None" using Cons.prems by (intro push_byte_full [of pre]) (auto simp: midway_def kept_def)
    then show ?thesis using Cons.prems False by (simp add: read_def parseByte_def midway_def)
  qed
qed simp

lemma read_id_zero:
  assumes "midway p s pre 0 q" "length pre < length (msgData (rxMessage p))" "length (msgData (rxMessage p)) < 2 ^ 32"
    and "s \<in> {WAIT_MSG_ID_L, WAIT_MSG_ID_H, WAIT_SRC_ID, WAIT_DST_ID}" "next_state s = Some s'" "next_state s' = Some s''"
  shows "\<exists>r. read d q = Some (None, r) \<and> midway p s'' (pre @ [d]) 0 r"
proof -
  obtain r where "push_byte d q = Some r" "midway p s (pre @ [d]) 0 r" using midway_push [OF assms(1-3)] .
  then show ?thesis using assms(1,4-6)
    by (auto simp: read_def parseByte_def parse_id_def advance_def midway_def)
qed

text \<open>
  C29. A message without payload, correct as it is, is never recognised: the parser skips two
  header fields and then stores every further byte as payload, whatever it is, until the byte
  after the end of its buffer, which is written out of bounds.
\<close>
theorem zero_payload_stuck:
  assumes "between p" "10 \<le> unat (bufferLength (rxMessage p))"
  shows "map_option fst (read_bytes (frame i src dst [] @ xs) p) =
    (if 10 + length xs \<le> unat (bufferLength (rxMessage p)) then Some [] else None)"
proof -
  let ?N = "length (msgData (rxMessage p))"
  have N: "?N = unat (bufferLength (rxMessage p))" "10 \<le> ?N" "?N < 65536"
    using assms unat_u16 [of "bufferLength (rxMessage p)"] by (simp_all add: between_def)
  then have N': "8 < ?N" "?N < 2 ^ 32" by simp_all
  have z: "ucast (from_le [0, 0] :: u16) \<le> rxBufferLength p - 10" "ucast (0 :: u8) = (0 :: u16)" by simp_all
  have st: "parser_state p = WAIT_START" using assms by (simp add: between_def)
  have "\<exists>q. read_bytes ([66, 82, 0, 0] @ le16 i) p = Some ([], q) \<and> midway p WAIT_PAYLOAD ([66, 82, 0, 0] @ le16 i) 0 q"
    unfolding le16_bytes append.simps
    apply (rule read_Cons [OF read_start [OF st N'(1,2)]])
    apply (rule read_Cons, erule read_R [OF _ _ N'(2)])
    using N'(1) apply simp
    apply (rule read_Cons, erule read_length_l [OF _ _ N'(2)])
    using N'(1) apply simp
    apply (rule read_Cons, erule read_length_h [OF _ _ N'(2) z(1)])
    using N'(1) apply simp
    apply (rule read_Cons, rule read_id_zero [of _ WAIT_MSG_ID_L _ _ WAIT_MSG_ID_H WAIT_SRC_ID, OF _ _ N'(2)], simp, (use N'(1) in simp_all)[4])
    apply (rule read_Cons, rule read_id_zero [of _ WAIT_SRC_ID _ _ WAIT_DST_ID WAIT_PAYLOAD, OF _ _ N'(2)], simp, (use N'(1) in simp_all)[4])
    apply simp
    done
  then obtain q where q: "read_bytes ([66, 82, 0, 0] @ le16 i) p = Some ([], q)"
    "midway p WAIT_PAYLOAD ([66, 82, 0, 0] @ le16 i) 0 q" by blast
  have "unat (0 - 1 :: u16) = 65535" by (simp add: unsigned_minus_1_eq_mask mask_eq_exp_minus_1)
  then have "map_option fst (read_bytes ys q) = (if 6 + length ys \<le> ?N then Some [] else None)" for ys
    using read_endless [OF q(2), of ys] N by simp
  moreover obtain ys where ys: "frame i src dst [] @ xs = ([66, 82, 0, 0] @ le16 i) @ ys" "length ys = 4 + length xs"
    by (simp add: frame_def body_def le16_bytes)
  moreover have "map_option fst (read_bytes (([66, 82, 0, 0] @ le16 i) @ ys) p) = map_option fst (read_bytes ys q)"
    by (simp only: read_bytes_append [of "[66, 82, 0, 0] @ le16 i"] q(1)) (cases "read_bytes ys q"; simp)
  ultimately show ?thesis using N(1) by simp
qed

theorem zero_payload_stuck_witness:
  "map_option fst (read_bytes (frame 2903 0 0 [] @ replicate 502 0) demo_parser) = Some [] \<and>
   map_option fst (read_bytes (frame 2903 0 0 [] @ replicate 503 0) demo_parser) = None"
proof -
  have b: "unat (bufferLength (rxMessage demo_parser)) = 512"
    by (simp add: demo_parser_def new_PingParser_def new_message_def Let_def)
  then have "10 \<le> unat (bufferLength (rxMessage demo_parser))" by simp
  from zero_payload_stuck [OF demo_parser_between this] show ?thesis by (simp only: b) simp
qed

section \<open>The parser stays in its buffer\<close>

text \<open>
  With the length of the buffer in \<open>rxBufferLength\<close>, which the constructor does not put there, and
  for messages that have a payload, what has been read and what is to come fit the buffer.
\<close>

fun expects :: "State \<Rightarrow> nat \<Rightarrow> nat \<Rightarrow> nat \<Rightarrow> bool" where
  "expects WAIT_START k len left = True"
| "expects WAIT_HEADER k len left = (k = 1)"
| "expects WAIT_LENGTH_L k len left = (k = 2)"
| "expects WAIT_LENGTH_H k len left = (k = 3)"
| "expects WAIT_MSG_ID_L k len left = (k = 4 \<and> left = len)"
| "expects WAIT_MSG_ID_H k len left = (k = 5 \<and> left = len)"
| "expects WAIT_SRC_ID k len left = (k = 6 \<and> left = len)"
| "expects WAIT_DST_ID k len left = (k = 7 \<and> left = len)"
| "expects WAIT_PAYLOAD k len left = (8 \<le> k \<and> k + left = 8 + len)"
| "expects WAIT_CHECKSUM_L k len left = (k = 8 + len)"
| "expects WAIT_CHECKSUM_H k len left = (k = 9 + len)"
| "expects _ k len left = False"

definition has_length :: "State \<Rightarrow> bool" where
  "has_length s \<longleftrightarrow> s \<in> {WAIT_MSG_ID_L, WAIT_MSG_ID_H, WAIT_SRC_ID, WAIT_DST_ID, WAIT_PAYLOAD, WAIT_CHECKSUM_L, WAIT_CHECKSUM_H}"

definition counts_payload :: "State \<Rightarrow> bool" where
  "counts_payload s \<longleftrightarrow> s \<in> {WAIT_MSG_ID_L, WAIT_MSG_ID_H, WAIT_SRC_ID, WAIT_DST_ID, WAIT_PAYLOAD}"

definition parser_ok :: "PingParser \<Rightarrow> bool" where
  "parser_ok p \<longleftrightarrow> (let m = rxMessage p; s = parser_state p in
     length (msgData m) = unat (bufferLength m) \<and> 10 \<le> unat (bufferLength m) \<and> rxBufferLength p = ucast (bufferLength m) \<and>
     (\<exists>len. expects s (unat (rxCount p)) (unat len) (unat (payloadLength p)) \<and>
       (s = WAIT_LENGTH_H \<longrightarrow> payloadLength p = ucast (msgData m ! 2)) \<and>
       (has_length s \<longrightarrow> payload_length m = Some len \<and> unat len + 10 \<le> unat (bufferLength m)) \<and>
       (counts_payload s \<longrightarrow> payloadLength p \<noteq> 0)))"

text \<open>A byte in the middle of a message, with room for it in the buffer.\<close>

lemma push_byte_room:
  assumes "unat (rxCount p) < length (msgData (rxMessage p))" "length (msgData (rxMessage p)) < 2 ^ 32"
  shows "push_byte d p = Some (p\<lparr>rxMessage := (rxMessage p)\<lparr>msgData := (msgData (rxMessage p))[unat (rxCount p) := d]\<rparr>,
      rxCount := rxCount p + 1\<rparr>)" "unat (rxCount p + 1) = unat (rxCount p) + 1"
proof -
  show "push_byte d p = Some (p\<lparr>rxMessage := (rxMessage p)\<lparr>msgData := (msgData (rxMessage p))[unat (rxCount p) := d]\<rparr>,
      rxCount := rxCount p + 1\<rparr>)" using assms(1) by (simp add: push_byte_def)
  have "rxCount p + 1 = of_nat (unat (rxCount p) + 1)" by simp
  then show "unat (rxCount p + 1) = unat (rxCount p) + 1" using assms by (simp only: unat_of_nat_eq)
qed

lemma payload_length_update:
  "4 \<le> k \<Longrightarrow> payload_length (m\<lparr>msgData := (msgData m)[k := d]\<rparr>) = payload_length m"
  by (simp add: payload_length_def rd16_def peek_def drop_update_swap)

lemma payload_length_update3:
  assumes "4 \<le> length (msgData m)"
  shows "payload_length (m\<lparr>msgData := (msgData m)[3 := d]\<rparr>) = Some (push_bit 8 (ucast d) OR ucast (msgData m ! 2))"
proof -
  have "take 2 (drop 2 ((msgData m)[3 := d])) = [msgData m ! 2, d]"
    using assms by (intro nth_equalityI) (auto simp: less_Suc_eq eval_nat_numeral)
  then show ?thesis using assms by (simp add: payload_length_def rd_in_bounds or.commute)
qed

lemma verifyChecksum_defined:
  assumes "payload_length m = Some len" "unat len + 10 \<le> unat (bufferLength m)" "length (msgData m) = unat (bufferLength m)"
  shows "\<exists>ok. verifyChecksum m = Some ok"
proof -
  have N: "unat len + 10 < 2 ^ 16" using assms(2) unat_u16 [of "bufferLength m"] by simp
  have n: "msgDataLength m = Some (len + 10)" using assms(1) by (simp add: msgDataLength_def headerLength_def checksumLength_def)
  have "len + 10 = of_nat (unat len + 10)" by simp
  then have u: "unat (len + 10) = unat len + 10" using unat_of_nat_u16 [OF N] by (simp only:)
  then have "uint (len + 10) = int (unat len + 10)" by (simp only: uint_nat)
  then have i: "uint (len + 10) - 2 = int (unat len + 8)" "uint (len + 10) - 1 = int (unat len + 9)" by linarith+
  have "unat (of_int (int (unat len + 8)) :: u32) = unat len + 8"
    unfolding of_int_of_nat_eq using N by (intro unat_of_nat_eq) simp
  then have "calculateChecksum m = Some (sum_bytes (take (unat len + 8) (msgData m)))"
    using assms by (simp only: calculateChecksum_def n i bind.bind_lunit peek_def) simp
  moreover have "checksum m = Some (ucast (msgData m ! (unat len + 8)) + push_bit 8 (ucast (msgData m ! (unat len + 9))))"
    using assms by (simp only: checksum_def n i bind.bind_lunit at_int_def of_nat_0_le_iff if_True nat_int) (simp add: rd8_nth)
  ultimately show ?thesis by (cases "bufferLength m < len + 10") (auto simp: verifyChecksum_def n)
qed

text \<open>
  C30. With the length of its buffer in the field the constructor leaves out, a byte in any state
  keeps the parser within its buffer and in its invariant, except that a header that announces no
  payload leads to the state of the message without payload.
\<close>
theorem parser_in_bounds:
  assumes "parser_ok p"
  shows "\<exists>s q. parseByte d p = Some (s, q) \<and> (parser_ok q \<or> parser_state q = WAIT_MSG_ID_L \<and> payloadLength q = 0)"
proof -
  let ?m = "rxMessage p"
  have N: "length (msgData ?m) = unat (bufferLength ?m)" "10 \<le> unat (bufferLength ?m)" "rxBufferLength p = ucast (bufferLength ?m)"
    using assms by (simp_all add: parser_ok_def Let_def)
  then have N': "length (msgData ?m) < 2 ^ 32" using unat_u16 [of "bufferLength ?m"] by simp
  obtain len where len: "expects (parser_state p) (unat (rxCount p)) (unat len) (unat (payloadLength p))"
    "parser_state p = WAIT_LENGTH_H \<longrightarrow> payloadLength p = ucast (msgData ?m ! 2)"
    "has_length (parser_state p) \<longrightarrow> payload_length ?m = Some len \<and> unat len + 10 \<le> unat (bufferLength ?m)"
    "counts_payload (parser_state p) \<longrightarrow> payloadLength p \<noteq> 0"
    using assms by (auto simp: parser_ok_def Let_def)
  show ?thesis
  proof (cases "parser_state p")
    case WAIT_START
    then show ?thesis using N push_byte_room [of "p\<lparr>rxCount := 0\<rparr>"] N'
      by (auto simp: parseByte_def advance_def parser_ok_def Let_def has_length_def counts_payload_def)
  next
    case WAIT_HEADER
    then show ?thesis using N push_byte_room [of p] N' len
      by (auto simp: parseByte_def advance_def reset_def parser_ok_def Let_def has_length_def counts_payload_def)
  next
    case WAIT_LENGTH_L
    then show ?thesis using N push_byte_room [of p] N' len
      by (auto simp: parseByte_def advance_def reset_def parser_ok_def Let_def has_length_def counts_payload_def)
  next
    case WAIT_LENGTH_H
    let ?L = "push_bit 8 (ucast d) OR ucast (msgData ?m ! 2) :: u16"
    have "unat (ucast (bufferLength ?m) - 10 :: u32) = unat (bufferLength ?m) - 10"
      using N(2) by (subst unat_sub) (simp_all add: word_le_nat_alt)
    then have "ucast ?L \<le> rxBufferLength p - 8 - 2 \<Longrightarrow> unat ?L + 10 \<le> unat (bufferLength ?m)"
      using N by (simp add: word_le_nat_alt)
    moreover have "payload_length (?m\<lparr>msgData := (msgData ?m)[3 := d]\<rparr>) = Some ?L"
      using N by (intro payload_length_update3) simp
    ultimately show ?thesis using WAIT_LENGTH_H N push_byte_room [of p] N' len
      by (auto simp: parseByte_def advance_def reset_def parser_ok_def Let_def has_length_def counts_payload_def)
  next
    case WAIT_MSG_ID_L
    then show ?thesis using N push_byte_room [of p] N' len
      by (auto simp: parseByte_def parse_id_def advance_def reset_def parser_ok_def Let_def has_length_def counts_payload_def payload_length_update)
  next
    case WAIT_MSG_ID_H
    then show ?thesis using N push_byte_room [of p] N' len
      by (auto simp: parseByte_def parse_id_def advance_def reset_def parser_ok_def Let_def has_length_def counts_payload_def payload_length_update)
  next
    case WAIT_SRC_ID
    then show ?thesis using N push_byte_room [of p] N' len
      by (auto simp: parseByte_def parse_id_def advance_def reset_def parser_ok_def Let_def has_length_def counts_payload_def payload_length_update)
  next
    case WAIT_DST_ID
    then show ?thesis using N push_byte_room [of p] N' len
      by (auto simp: parseByte_def parse_id_def advance_def reset_def parser_ok_def Let_def has_length_def counts_payload_def payload_length_update)
  next
    case WAIT_PAYLOAD
    then have "0 < unat (payloadLength p)" using len(4) by (simp add: counts_payload_def unat_gt_0)
    moreover have "unat (payloadLength p - 1) = unat (payloadLength p) - 1"
      using WAIT_PAYLOAD len(4) by (intro unat_minus_one) (simp add: counts_payload_def)
    ultimately show ?thesis using WAIT_PAYLOAD N push_byte_room [of p] N' len
      by (auto simp: parseByte_def parse_id_def advance_def reset_def parser_ok_def Let_def has_length_def counts_payload_def payload_length_update)
  next
    case WAIT_CHECKSUM_L
    then show ?thesis using N push_byte_room [of p] N' len
      by (auto simp: parseByte_def parse_id_def advance_def reset_def parser_ok_def Let_def has_length_def counts_payload_def payload_length_update)
  next
    case WAIT_CHECKSUM_H
    let ?q = "?m\<lparr>msgData := (msgData ?m)[unat len + 9 := d]\<rparr>"
    have "payload_length ?q = Some len" using WAIT_CHECKSUM_H len by (simp add: payload_length_update has_length_def)
    then obtain ok where "verifyChecksum ?q = Some ok"
      using verifyChecksum_defined [of ?q len] WAIT_CHECKSUM_H N len by (auto simp: has_length_def)
    then show ?thesis using WAIT_CHECKSUM_H N push_byte_room [of p] N' len
      by (auto simp: parseByte_def parser_ok_def Let_def has_length_def counts_payload_def add.commute)
  qed (use len in auto)
qed

theorem parser_in_bounds_witness:
  "\<exists>s q. parseByte 66 (demo_parser\<lparr>rxBufferLength := 512\<rparr>) = Some (s, q) \<and>
    (parser_ok q \<or> parser_state q = WAIT_MSG_ID_L \<and> payloadLength q = 0)"
proof (rule parser_in_bounds)
  show "parser_ok (demo_parser\<lparr>rxBufferLength := 512\<rparr>)"
    by (simp add: parser_ok_def demo_parser_def new_PingParser_def new_message_def Let_def has_length_def counts_payload_def)
qed

end
