(* ===== verification/Ping_Device.thy ===== *)
theory Ping_Device
  imports Ping_Parser Queues
begin

text \<open>
  The device layer of the Ping360 (ping-device.cpp, ping-device-ping360.cpp) over the message
  classes of ping-message-common.h and ping-message-ping360.h and the receive buffer of the links
  (serial-link.cpp, udp-link.cpp): the commands as they go on the line, the loop that waits for a
  message, and what a message leaves in the device object.
\<close>

section \<open>Message classes\<close>

text \<open>Stores through a reference into the buffer; the fields of a payload follow the header.\<close>

definition store :: "nat \<Rightarrow> u8 list \<Rightarrow> ping_message \<Rightarrow> ping_message option" where
  "store off bs m = do { buf \<leftarrow> poke (msgData m) off bs; Some (m\<lparr>msgData := buf\<rparr>) }"

definition set_payload_length :: "u16 \<Rightarrow> ping_message \<Rightarrow> ping_message option" where
  "set_payload_length n = store 2 (le16 n)"

definition set_message_id :: "u16 \<Rightarrow> ping_message \<Rightarrow> ping_message option" where
  "set_message_id i = store 4 (le16 i)"

definition set_source_device_id :: "u8 \<Rightarrow> ping_message \<Rightarrow> ping_message option" where
  "set_source_device_id d = store 6 [d]"

definition set_destination_device_id :: "u8 \<Rightarrow> ping_message \<Rightarrow> ping_message option" where
  "set_destination_device_id d = store 7 [d]"

definition set8 :: "nat \<Rightarrow> u8 \<Rightarrow> ping_message \<Rightarrow> ping_message option" where
  "set8 off v = store (headerLength + off) [v]"

definition set16 :: "nat \<Rightarrow> u16 \<Rightarrow> ping_message \<Rightarrow> ping_message option" where
  "set16 off v = store (headerLength + off) (le16 v)"

definition get8 :: "nat \<Rightarrow> ping_message \<Rightarrow> u8 option" where
  "get8 off m = rd8 (msgData m) (headerLength + off)"

definition get16 :: "nat \<Rightarrow> ping_message \<Rightarrow> u16 option" where
  "get16 off m = rd16 (msgData m) (headerLength + off)"

text \<open>What every constructor of a message class does, for the size of its buffer, of its payload and its id.\<close>

definition construct :: "(nat \<Rightarrow> u8) \<Rightarrow> u16 \<Rightarrow> u16 \<Rightarrow> u16 \<Rightarrow> ping_message option" where
  "construct junk cap payload i = do {
     m \<leftarrow> store 0 [66] (new_message junk cap);
     m \<leftarrow> store 1 [82] m;
     m \<leftarrow> set_payload_length payload m;
     m \<leftarrow> set_message_id i m;
     m \<leftarrow> set_source_device_id 0 m;
     set_destination_device_id 0 m }"

definition ACK :: u16 where "ACK = 1"
definition NACK :: u16 where "NACK = 2"
definition DEVICE_INFORMATION :: u16 where "DEVICE_INFORMATION = 4"
definition PROTOCOL_VERSION :: u16 where "PROTOCOL_VERSION = 5"
definition GENERAL_REQUEST :: u16 where "GENERAL_REQUEST = 6"
definition DEVICE_DATA :: u16 where "DEVICE_DATA = 2300"
definition AUTO_DEVICE_DATA :: u16 where "AUTO_DEVICE_DATA = 2301"

definition common_general_request :: "(nat \<Rightarrow> u8) \<Rightarrow> ping_message option" where
  "common_general_request junk = construct junk 12 2 6"

definition set_requested_id :: "u16 \<Rightarrow> ping_message \<Rightarrow> ping_message option" where
  "set_requested_id = set16 0"

definition nacked_id :: "ping_message \<Rightarrow> u16 option" where
  "nacked_id = get16 0"

definition ping360_reset :: "(nat \<Rightarrow> u8) \<Rightarrow> ping_message option" where
  "ping360_reset junk = construct junk 12 2 2600"

definition ping360_transducer :: "(nat \<Rightarrow> u8) \<Rightarrow> ping_message option" where
  "ping360_transducer junk = construct junk 24 14 2601"

definition ping360_auto_transmit :: "(nat \<Rightarrow> u8) \<Rightarrow> ping_message option" where
  "ping360_auto_transmit junk = construct junk 26 16 2602"

definition ping360_motor_off :: "(nat \<Rightarrow> u8) \<Rightarrow> ping_message option" where
  "ping360_motor_off junk = construct junk 10 0 2903"

section \<open>Commands\<close>

text \<open>The bytes handed to the port, and the message as it is left.\<close>

definition writeMessage :: "ping_message \<Rightarrow> (ping_message \<times> u8 list) option" where
  "writeMessage m = do {
     m \<leftarrow> updateChecksum m;
     n \<leftarrow> msgDataLength m;
     bs \<leftarrow> peek (msgData m) 0 (unat n);
     Some (m, bs) }"

definition set_auto_transmit :: "(nat \<Rightarrow> u8) \<Rightarrow> u8 \<Rightarrow> u8 \<Rightarrow> u16 \<Rightarrow> u16 \<Rightarrow> u16 \<Rightarrow> u16 \<Rightarrow> u16 \<Rightarrow> u16 \<Rightarrow> u8 \<Rightarrow> u8 \<Rightarrow> u8 list option" where
  "set_auto_transmit junk mode gain duration period frequency samples start stop steps delay = do {
     m \<leftarrow> ping360_auto_transmit junk;
     m \<leftarrow> set8 0 mode m;
     m \<leftarrow> set8 1 gain m;
     m \<leftarrow> set16 2 duration m;
     m \<leftarrow> set16 4 period m;
     m \<leftarrow> set16 6 frequency m;
     m \<leftarrow> set16 8 samples m;
     m \<leftarrow> set16 10 start m;
     m \<leftarrow> set16 12 stop m;
     m \<leftarrow> set8 14 steps m;
     m \<leftarrow> set8 15 delay m;
     (m, bs) \<leftarrow> writeMessage m;
     Some bs }"

definition set_motor_off :: "(nat \<Rightarrow> u8) \<Rightarrow> u8 list option" where
  "set_motor_off junk = do { m \<leftarrow> ping360_motor_off junk; (m, bs) \<leftarrow> writeMessage m; Some bs }"

definition set_reset :: "(nat \<Rightarrow> u8) \<Rightarrow> u8 \<Rightarrow> u8 \<Rightarrow> u8 list option" where
  "set_reset junk bootloader reserved = do {
     m \<leftarrow> ping360_reset junk;
     m \<leftarrow> set8 0 bootloader m;
     m \<leftarrow> set8 1 reserved m;
     (m, bs) \<leftarrow> writeMessage m;
     Some bs }"

definition set_transducer :: "(nat \<Rightarrow> u8) \<Rightarrow> u8 \<Rightarrow> u8 \<Rightarrow> u16 \<Rightarrow> u16 \<Rightarrow> u16 \<Rightarrow> u16 \<Rightarrow> u16 \<Rightarrow> u8 \<Rightarrow> u8 \<Rightarrow> u8 list option" where
  "set_transducer junk mode gain angle duration period frequency samples transmit reserved = do {
     m \<leftarrow> ping360_transducer junk;
     m \<leftarrow> set8 0 mode m;
     m \<leftarrow> set8 1 gain m;
     m \<leftarrow> set16 2 angle m;
     m \<leftarrow> set16 4 duration m;
     m \<leftarrow> set16 6 period m;
     m \<leftarrow> set16 8 frequency m;
     m \<leftarrow> set16 10 samples m;
     m \<leftarrow> set8 12 transmit m;
     m \<leftarrow> set8 13 reserved m;
     (m, bs) \<leftarrow> writeMessage m;
     Some bs }"

text \<open>A buffer that has the length of its message, after the header and the fields written so far.\<close>

definition holds :: "u16 \<Rightarrow> nat \<Rightarrow> u8 list \<Rightarrow> ping_message \<Rightarrow> bool" where
  "holds i n vs m \<longleftrightarrow> n + 10 < 2 ^ 16 \<and> length vs \<le> n \<and> bufferLength m = of_nat (n + 10) \<and>
     (\<exists>rest. length rest = n + 2 - length vs \<and>
        msgData m = [66, 82] @ le16 (of_nat n) @ le16 i @ [0, 0] @ vs @ rest)"

lemma construct_holds:
  assumes "n + 10 < 2 ^ 16" "cap = of_nat (n + 10)" "payload = of_nat n"
  shows "\<exists>m. construct junk cap payload i = Some m \<and> holds i n [] m"
proof -
  have u: "unat cap = n + 10" unfolding assms(2) using assms(1) by (rule unat_of_nat_u16)
  obtain a b c d e f g h rest where buf: "map junk [0..<n + 10] = a # b # c # d # e # f # g # h # rest" "length rest = n + 2"
    by (simp add: upt_conv_Cons)
  have "2 \<le> cap" using u by (simp add: word_le_nat_alt)
  then have "msgData (new_message junk cap) = 66 # 82 # c # d # e # f # g # h # rest" "bufferLength (new_message junk cap) = cap"
    by (simp_all add: new_message_def Let_def u buf)
  then have "construct junk cap payload i =
      Some ((new_message junk cap)\<lparr>msgData := [66, 82] @ le16 payload @ le16 i @ [0, 0] @ rest\<rparr>)"
    by (simp add: construct_def store_def set_payload_length_def set_message_id_def set_source_device_id_def
      set_destination_device_id_def poke_def le16_bytes numeral_eq_Suc)
  then show ?thesis using assms buf(2) \<open>bufferLength (new_message junk cap) = cap\<close> by (simp add: holds_def)
qed

lemma store_field:
  assumes "holds i n vs m" "off = 8 + length vs" "length vs + length bs \<le> n"
  shows "\<exists>m'. store off bs m = Some m' \<and> holds i n (vs @ bs) m'"
proof -
  obtain rest where rest: "length rest = n + 2 - length vs"
    "msgData m = [66, 82] @ le16 (of_nat n) @ le16 i @ [0, 0] @ vs @ rest" using assms(1) by (auto simp: holds_def)
  have "poke (([66, 82] @ le16 (of_nat n) @ le16 i @ [0, 0] @ vs) @ rest) off bs =
      Some (([66, 82] @ le16 (of_nat n) @ le16 i @ [0, 0] @ vs) @ bs @ drop (length bs) rest)"
    using assms rest by (intro poke_at_length) auto
  then show ?thesis using assms rest by (auto simp: store_def holds_def)
qed

lemma set8_field:
  "holds i n vs m \<Longrightarrow> off = length vs \<Longrightarrow> length vs + 1 \<le> n \<Longrightarrow>
     \<exists>m'. set8 off v m = Some m' \<and> holds i n (vs @ [v]) m'"
  using store_field [of i n vs m "8 + off" "[v]"] by (simp add: set8_def headerLength_def)

lemma set16_field:
  "holds i n vs m \<Longrightarrow> off = length vs \<Longrightarrow> length vs + 2 \<le> n \<Longrightarrow>
     \<exists>m'. set16 off v m = Some m' \<and> holds i n (vs @ le16 v) m'"
  using store_field [of i n vs m "8 + off" "le16 v"] by (simp add: set16_def headerLength_def)

lemma writeMessage_holds:
  assumes "holds i n vs m" "length vs = n"
  shows "\<exists>m'. writeMessage m = Some (m', frame i 0 0 vs) \<and> holds i n [] m'"
proof -
  obtain rest where rest: "length rest = 2" "msgData m = body i 0 0 vs @ rest"
    and n: "n + 10 < 2 ^ 16" "bufferLength m = of_nat (n + 10)"
    using assms by (auto simp: holds_def body_def)
  then obtain l h where lh: "msgData m = body i 0 0 vs @ [l, h]" by (auto simp: numeral_2_eq_2 length_Suc_conv)
  have "unat (bufferLength m) = n + 10" unfolding n(2) using n(1) by (rule unat_of_nat_u16)
  then have u: "updateChecksum m = Some (m\<lparr>msgData := frame i 0 0 vs\<rparr>)"
    using updateChecksum_frame [OF lh] assms(2) by simp
  have "msgData (m\<lparr>msgData := frame i 0 0 vs\<rparr>) = body i 0 0 vs @ le16 (sum_bytes (body i 0 0 vs))"
    by (simp add: frame_def)
  then obtain k where "msgDataLength (m\<lparr>msgData := frame i 0 0 vs\<rparr>) = Some k" "unat k = length vs + 10"
    using msgDataLength_body n(1) assms(2) by blast
  then show ?thesis using u n assms(2)
    by (auto simp: writeMessage_def peek_def holds_def frame_def body_def)
qed

lemma bind_some:
  assumes "\<exists>m. f = Some m \<and> P m" "\<And>m. P m \<Longrightarrow> g m = r"
  shows "Option.bind f g = r"
  using assms by fastforce

lemma write_frame: "holds i n vs m \<Longrightarrow> length vs = n \<Longrightarrow> (do { (m, bs) \<leftarrow> writeMessage m; Some bs }) = Some (frame i 0 0 vs)"
  using writeMessage_holds by fastforce

lemma classes_hold:
  "\<exists>m. common_general_request junk = Some m \<and> holds 6 2 [] m"
  "\<exists>m. ping360_reset junk = Some m \<and> holds 2600 2 [] m"
  "\<exists>m. ping360_transducer junk = Some m \<and> holds 2601 14 [] m"
  "\<exists>m. ping360_auto_transmit junk = Some m \<and> holds 2602 16 [] m"
  "\<exists>m. ping360_motor_off junk = Some m \<and> holds 2903 0 [] m"
  unfolding common_general_request_def ping360_reset_def ping360_transducer_def ping360_auto_transmit_def ping360_motor_off_def
  by (rule construct_holds; simp)+

lemma command_frames:
  "set_transducer junk mode gain angle duration period frequency samples transmit reserved =
     Some (frame 2601 0 0 ([mode, gain] @ le16 angle @ le16 duration @ le16 period @ le16 frequency @ le16 samples @
       [transmit, reserved]))"
  "set_auto_transmit junk mode gain duration period frequency samples start stop steps delay =
     Some (frame 2602 0 0 ([mode, gain] @ le16 duration @ le16 period @ le16 frequency @ le16 samples @ le16 start @
       le16 stop @ [steps, delay]))"
  "set_reset junk bootloader reserved = Some (frame 2600 0 0 [bootloader, reserved])"
  "set_motor_off junk = Some (frame 2903 0 0 [])"
  unfolding set_transducer_def set_auto_transmit_def set_reset_def set_motor_off_def
  by (rule bind_some, rule classes_hold,
    ((rule bind_some, (erule set8_field | erule set16_field), simp, simp)+)?, drule write_frame, simp_all)+

text \<open>
  The bytes of the four commands, whatever the allocated buffers held.
\<close>
theorem commands_on_the_wire:
  "set_transducer junk mode gain angle duration period frequency samples transmit reserved =
     Some (frame 2601 0 0 ([mode, gain] @ le16 angle @ le16 duration @ le16 period @ le16 frequency @ le16 samples @
       [transmit, reserved])) \<and>
   set_auto_transmit junk mode gain duration period frequency samples start stop steps delay =
     Some (frame 2602 0 0 ([mode, gain] @ le16 duration @ le16 period @ le16 frequency @ le16 samples @ le16 start @
       le16 stop @ [steps, delay])) \<and>
   set_reset junk bootloader reserved = Some (frame 2600 0 0 [bootloader, reserved]) \<and>
   set_motor_off junk = Some (frame 2903 0 0 [])"
  by (simp only: command_frames simp_thms)

section \<open>The device object\<close>

text \<open>
  The last data message, field by field; \<open>data\<close> is the null pointer or an array from \<open>new\<close>. The
  automatic scan adds four fields.
\<close>

record device_data =
  mode :: u8
  gain_setting :: u8
  angle :: u16
  transmit_duration :: u16
  sample_period :: u16
  transmit_frequency :: u16
  number_of_samples :: u16
  data :: "u8 list option"
  data_length :: u16

record auto_device_data = device_data +
  start_angle :: u16
  stop_angle :: u16
  num_steps :: u8
  delay :: u8

record device_information =
  device_type :: u8
  device_revision :: u8
  firmware_version_major :: u8
  firmware_version_minor :: u8
  firmware_version_patch :: u8

record protocol_version =
  version_major :: u8
  version_minor :: u8
  version_patch :: u8

text \<open>\<open>written\<close> is what went to the port, \<open>linkBuffer\<close> what came from it and is not read yet.\<close>

record Ping360 =
  device_id :: u8
  device_info :: device_information
  protocol :: protocol_version
  parser :: PingParser
  general_request :: ping_message
  device_data_data :: device_data
  auto_device_data_data :: auto_device_data
  linkBuffer :: "u8 list"
  written :: "u8 list list"

text \<open>\<open>doRead\<close> and \<open>read\<close> of a link.\<close>

definition doRead :: "u8 list \<Rightarrow> Ping360 \<Rightarrow> Ping360" where
  "doRead bs d = d\<lparr>linkBuffer := linkBuffer d @ bs\<rparr>"

definition link_read :: "nat \<Rightarrow> Ping360 \<Rightarrow> u8 list \<times> Ping360" where
  "link_read n d = (let amount = min n (length (linkBuffer d)) in
     (take amount (linkBuffer d), d\<lparr>linkBuffer := drop amount (linkBuffer d)\<rparr>))"

definition device_read :: "Ping360 \<Rightarrow> (ping_message option \<times> Ping360) option" where
  "device_read d = (case link_read 1 d of
     (b # _, d) \<Rightarrow> do { (m, p) \<leftarrow> read b (parser d); Some (m, d\<lparr>parser := p\<rparr>) }
   | ([], d) \<Rightarrow> Some (None, d))"

text \<open>The buffer of the link is a queue of bytes: they are read in the order in which they came.\<close>

definition link_push :: "u8 \<Rightarrow> Ping360 \<Rightarrow> Ping360 option" where
  "link_push b d = Some (doRead [b] d)"

definition link_pop :: "Ping360 \<Rightarrow> (u8 \<times> Ping360) option option" where
  "link_pop d = (case link_read 1 d of ([], d) \<Rightarrow> Some None | (b # _, d) \<Rightarrow> Some (Some (b, d)))"

interpretation link: fifo "\<lambda>_. True" linkBuffer "\<lambda>_. True" link_push link_pop "\<lambda>_. True"
  by unfold_locales (simp_all add: link_push_def doRead_def link_pop_def link_read_def)

lemma link_in_order:
  "\<exists>ins outs d'. link.session xs d = Some (ins, outs, d') \<and> linkBuffer d @ ins = outs @ linkBuffer d'"
  using link.session_fifo [of xs d] by simp

text \<open>A longer array is allocated when the message has more data; its bytes are \<open>junk\<close> until copied.\<close>

definition store_data :: "(nat \<Rightarrow> u8) \<Rightarrow> u16 \<Rightarrow> nat \<Rightarrow> ping_message \<Rightarrow> 'a device_data_scheme \<Rightarrow> 'a device_data_scheme option" where
  "store_data junk n off m d = do {
     let d = (if data_length d < n then d\<lparr>data := Some (map junk [0..<unat n])\<rparr> else d);
     let d = d\<lparr>data_length := n\<rparr>;
     bs \<leftarrow> peek (msgData m) (headerLength + off) (unat n);
     case data d of
       None \<Rightarrow> if n = 0 then Some d else None
     | Some buf \<Rightarrow> do { buf \<leftarrow> poke buf 0 bs; Some (d\<lparr>data := Some buf\<rparr>) } }"

definition store_device_data :: "(nat \<Rightarrow> u8) \<Rightarrow> ping_message \<Rightarrow> device_data \<Rightarrow> device_data option" where
  "store_device_data junk m d = do {
     v \<leftarrow> get8 0 m; let d = d\<lparr>mode := v\<rparr>;
     v \<leftarrow> get8 1 m; let d = d\<lparr>gain_setting := v\<rparr>;
     v \<leftarrow> get16 2 m; let d = d\<lparr>angle := v\<rparr>;
     v \<leftarrow> get16 4 m; let d = d\<lparr>transmit_duration := v\<rparr>;
     v \<leftarrow> get16 6 m; let d = d\<lparr>sample_period := v\<rparr>;
     v \<leftarrow> get16 8 m; let d = d\<lparr>transmit_frequency := v\<rparr>;
     v \<leftarrow> get16 10 m; let d = d\<lparr>number_of_samples := v\<rparr>;
     n \<leftarrow> get16 12 m;
     store_data junk n 14 m d }"

definition store_auto_device_data :: "(nat \<Rightarrow> u8) \<Rightarrow> ping_message \<Rightarrow> auto_device_data \<Rightarrow> auto_device_data option" where
  "store_auto_device_data junk m d = do {
     v \<leftarrow> get8 0 m; let d = d\<lparr>mode := v\<rparr>;
     v \<leftarrow> get8 1 m; let d = d\<lparr>gain_setting := v\<rparr>;
     v \<leftarrow> get16 2 m; let d = d\<lparr>angle := v\<rparr>;
     v \<leftarrow> get16 4 m; let d = d\<lparr>transmit_duration := v\<rparr>;
     v \<leftarrow> get16 6 m; let d = d\<lparr>sample_period := v\<rparr>;
     v \<leftarrow> get16 8 m; let d = d\<lparr>transmit_frequency := v\<rparr>;
     v \<leftarrow> get16 10 m; let d = d\<lparr>start_angle := v\<rparr>;
     v \<leftarrow> get16 12 m; let d = d\<lparr>stop_angle := v\<rparr>;
     v \<leftarrow> get8 14 m; let d = d\<lparr>num_steps := v\<rparr>;
     v \<leftarrow> get8 15 m; let d = d\<lparr>delay := v\<rparr>;
     v \<leftarrow> get16 16 m; let d = d\<lparr>number_of_samples := v\<rparr>;
     n \<leftarrow> get16 18 m;
     store_data junk n 20 m d }"

definition handle_common :: "ping_message \<Rightarrow> Ping360 \<Rightarrow> Ping360 option" where
  "handle_common m d = do {
     v \<leftarrow> source_device_id m;
     let d = d\<lparr>device_id := v\<rparr>;
     i \<leftarrow> message_id m;
     if i = PROTOCOL_VERSION then do {
       a \<leftarrow> get8 0 m; b \<leftarrow> get8 1 m; c \<leftarrow> get8 2 m;
       Some (d\<lparr>protocol := \<lparr>version_major = a, version_minor = b, version_patch = c\<rparr>\<rparr>) }
     else if i = DEVICE_INFORMATION then do {
       a \<leftarrow> get8 0 m; b \<leftarrow> get8 1 m; c \<leftarrow> get8 2 m; e \<leftarrow> get8 3 m; f \<leftarrow> get8 4 m;
       Some (d\<lparr>device_info := \<lparr>device_type = a, device_revision = b, firmware_version_major = c,
         firmware_version_minor = e, firmware_version_patch = f\<rparr>\<rparr>) }
     else Some d }"

definition handleMessage :: "(nat \<Rightarrow> u8) \<Rightarrow> ping_message \<Rightarrow> Ping360 \<Rightarrow> Ping360 option" where
  "handleMessage junk m d = do {
     i \<leftarrow> message_id m;
     d \<leftarrow> (if i = AUTO_DEVICE_DATA then do {
             x \<leftarrow> store_auto_device_data junk m (auto_device_data_data d);
             Some (d\<lparr>auto_device_data_data := x\<rparr>) }
           else if i = DEVICE_DATA then do {
             x \<leftarrow> store_device_data junk m (device_data_data d);
             Some (d\<lparr>device_data_data := x\<rparr>) }
           else Some d);
     handle_common m d }"

section \<open>Waiting for a message\<close>

text \<open>
  A poll is a reading of the clock with the bytes that reached the link since the one before. The
  result is a message, the null pointer, or that the polls are used up and the loop goes on.
\<close>

type_synonym polls = "(int \<times> u8 list) list"

datatype reply = Got ping_message | Null | Waiting

fun wait_loop :: "(nat \<Rightarrow> u8) \<Rightarrow> u16 \<Rightarrow> int \<Rightarrow> polls \<Rightarrow> Ping360 \<Rightarrow> (reply \<times> polls \<times> Ping360) option" where
  "wait_loop junk i deadline [] d = Some (Waiting, [], d)"
| "wait_loop junk i deadline ((now, arrived) # ps) d =
     (if now < deadline then do {
        (m, d) \<leftarrow> device_read (doRead arrived d);
        case m of
          None \<Rightarrow> wait_loop junk i deadline ps d
        | Some m \<Rightarrow> do {
            d \<leftarrow> handleMessage junk m d;
            j \<leftarrow> message_id m;
            if j = i \<or> j = NACK then Some (Got m, ps, d) else wait_loop junk i deadline ps d } }
      else Some (Null, ps, doRead arrived d))"

definition waitMessage :: "(nat \<Rightarrow> u8) \<Rightarrow> u16 \<Rightarrow> int \<Rightarrow> polls \<Rightarrow> Ping360 \<Rightarrow> (reply \<times> polls \<times> Ping360) option" where
  "waitMessage junk i timeoutMs ps d = (case ps of
     [] \<Rightarrow> Some (Waiting, [], d)
   | (timeStart, arrived) # ps \<Rightarrow> wait_loop junk i (timeStart + timeoutMs) ps (doRead arrived d))"

definition request :: "(nat \<Rightarrow> u8) \<Rightarrow> u16 \<Rightarrow> int \<Rightarrow> polls \<Rightarrow> Ping360 \<Rightarrow> (reply \<times> polls \<times> Ping360) option" where
  "request junk i timeoutMs ps d = do {
     g \<leftarrow> set_requested_id i (general_request d);
     (g, bs) \<leftarrow> writeMessage g;
     let d = d\<lparr>general_request := g, written := written d @ [bs]\<rparr>;
     (r, ps, d) \<leftarrow> waitMessage junk i timeoutMs ps d;
     case r of
       Got m \<Rightarrow> do {
         j \<leftarrow> message_id m;
         if j = NACK then do {
           k \<leftarrow> nacked_id m;
           Some (if k \<noteq> GENERAL_REQUEST then Null else r, ps, d) }
         else Some (r, ps, d) }
     | _ \<Rightarrow> Some (r, ps, d) }"

text \<open>The result \<open>None\<close> of the pair is a wait that has not ended.\<close>

definition initialize :: "(nat \<Rightarrow> u8) \<Rightarrow> polls \<Rightarrow> Ping360 \<Rightarrow> (bool option \<times> polls \<times> Ping360) option" where
  "initialize junk ps d = do {
     (r, ps, d) \<leftarrow> request junk PROTOCOL_VERSION 500 ps d;
     case r of
       Null \<Rightarrow> Some (Some False, ps, d)
     | Waiting \<Rightarrow> Some (None, ps, d)
     | Got _ \<Rightarrow> do {
         (r, ps, d) \<leftarrow> request junk DEVICE_INFORMATION 500 ps d;
         Some (case r of Null \<Rightarrow> Some False | Waiting \<Rightarrow> None | Got _ \<Rightarrow> Some True, ps, d) } }"

section \<open>What a data message leaves behind\<close>

text \<open>The payload of a data message, the intensities a device holds, and its array being long enough.\<close>

definition data_payload :: "u8 \<Rightarrow> u8 \<Rightarrow> u16 \<Rightarrow> u16 \<Rightarrow> u16 \<Rightarrow> u16 \<Rightarrow> u16 \<Rightarrow> u8 list \<Rightarrow> u8 list" where
  "data_payload md gain a duration period frequency samples bytes =
     [md, gain] @ le16 a @ le16 duration @ le16 period @ le16 frequency @ le16 samples @
     le16 (of_nat (length bytes)) @ bytes"

definition intensities :: "'a device_data_scheme \<Rightarrow> u8 list" where
  "intensities d = take (unat (data_length d)) (case data d of None \<Rightarrow> [] | Some buf \<Rightarrow> buf)"

definition data_ok :: "'a device_data_scheme \<Rightarrow> bool" where
  "data_ok d \<longleftrightarrow> unat (data_length d) \<le> (case data d of None \<Rightarrow> 0 | Some buf \<Rightarrow> length buf)"

lemma store_data_result:
  assumes "data_ok d" "peek (msgData m) (headerLength + off) (unat n) = Some bs"
  shows "\<exists>d'. store_data junk n off m d = Some d' \<and> intensities d' = bs \<and> data_ok d' \<and>
    (\<exists>buf. d' = d\<lparr>data_length := n, data := buf\<rparr>)"
proof -
  have len: "length bs = unat n" using assms(2) by (rule length_peek)
  let ?buf = "if data_length d < n then Some (map junk [0..<unat n]) else data d"
  have room: "unat n \<le> (case ?buf of None \<Rightarrow> 0 | Some buf \<Rightarrow> length buf)"
    using assms(1) by (auto simp: data_ok_def word_less_nat_alt split: option.splits)
  have step: "store_data junk n off m d = (case ?buf of
      None \<Rightarrow> if n = 0 then Some (d\<lparr>data_length := n\<rparr>) else None
    | Some buf \<Rightarrow> do { buf \<leftarrow> poke buf 0 bs; Some (d\<lparr>data_length := n, data := Some buf\<rparr>) })"
    using assms(2) by (cases "data d") (simp_all add: store_data_def)
  show ?thesis
  proof (cases ?buf)
    case None
    then show ?thesis using room len unfolding step
      by (cases d) (auto simp: intensities_def data_ok_def unat_eq_0)
  next
    case (Some buf)
    then show ?thesis using room len unfolding step
      by (cases d) (auto simp: intensities_def data_ok_def poke_def)
  qed
qed

text \<open>Parts of a payload.\<close>

lemma peek_part:
  assumes "peek buf a n = Some bs" "k + j \<le> n"
  shows "peek buf (a + k) j = Some (take j (drop k bs))"
  using assms by (auto simp: peek_def take_drop add.commute add.left_commute min_def split: if_splits)

lemma carries_get:
  assumes "carries i src dst payload m"
  shows "k + 1 \<le> length payload \<Longrightarrow> get8 k m = Some (payload ! k)"
    and "k + 2 \<le> length payload \<Longrightarrow> get16 k m = Some (from_le (take 2 (drop k payload)))"
  using assms peek_part [of "msgData m" headerLength "length payload" payload k]
  by (simp_all add: carries_def get8_def get16_def rd8_def rd16_def hd_drop_conv_nth take_Suc_conv_app_nth)

lemma store_device_data_result:
  assumes "data_ok d" "length bytes < 2 ^ 16"
    and m: "carries i src dst (data_payload md gain a duration period frequency samples bytes) m"
  shows "\<exists>d'. store_device_data junk m d = Some d' \<and> mode d' = md \<and> gain_setting d' = gain \<and> angle d' = a \<and>
    transmit_duration d' = duration \<and> sample_period d' = period \<and> transmit_frequency d' = frequency \<and>
    number_of_samples d' = samples \<and> intensities d' = bytes \<and> data_ok d'"
proof -
  let ?payload = "data_payload md gain a duration period frequency samples bytes"
  have n: "unat (of_nat (length bytes) :: u16) = length bytes" using assms(2) by (rule unat_of_nat_u16)
  have "peek (msgData m) (headerLength + 14) (length bytes) = Some bytes"
    using m peek_part [of "msgData m" headerLength "length ?payload" ?payload 14 "length bytes"]
    by (simp add: carries_def data_payload_def le16_bytes)
  then have p: "peek (msgData m) (headerLength + 14) (unat (of_nat (length bytes) :: u16)) = Some bytes" unfolding n .
  let ?d = "d\<lparr>mode := md, gain_setting := gain, angle := a, transmit_duration := duration, sample_period := period,
    transmit_frequency := frequency, number_of_samples := samples\<rparr>"
  have "data_ok ?d" using assms(1) by (simp add: data_ok_def)
  from store_data_result [OF this p] obtain d' where d': "store_data junk (of_nat (length bytes)) 14 m ?d = Some d'"
    "intensities d' = bytes" "data_ok d'" "\<exists>buf. d' = ?d\<lparr>data_length := of_nat (length bytes), data := buf\<rparr>" by blast
  then obtain buf where b: "d' = ?d\<lparr>data_length := of_nat (length bytes), data := buf\<rparr>" by blast
  have "mode d' = md" "gain_setting d' = gain" "angle d' = a" "transmit_duration d' = duration"
    "sample_period d' = period" "transmit_frequency d' = frequency" "number_of_samples d' = samples" unfolding b by simp_all
  moreover have "store_device_data junk m d = store_data junk (of_nat (length bytes)) 14 m ?d"
    using carries_get [OF m] from_le16 [unfolded le16_bytes]
    by (simp add: store_device_data_def data_payload_def le16_bytes numeral_eq_Suc del: from_le.simps)
  ultimately show ?thesis using d' by simp
qed

section \<open>Waiting for a reply\<close>

lemma doRead_nothing [simp]: "doRead [] d = d"
  by (simp add: doRead_def)

lemma device_read_byte:
  "linkBuffer d = b # bs \<Longrightarrow> read b (parser d) = Some (m, p) \<Longrightarrow>
     device_read d = Some (m, d\<lparr>linkBuffer := bs, parser := p\<rparr>)"
  by (simp add: device_read_def link_read_def Let_def)

text \<open>
  A wait that reads a byte in each of its polls while bytes arrive: when the stream of the bytes that are
  in the link and those that arrive in the polls \<open>ps1\<close> holds a message after bytes without one, and as
  many polls as it has bytes follow before the deadline, the message is handled.
\<close>

definition in_time :: "int \<Rightarrow> polls \<Rightarrow> bool" where
  "in_time deadline ps \<longleftrightarrow> (\<forall>(now, arrived) \<in> set ps. now < deadline)"

definition got :: "(nat \<Rightarrow> u8) \<Rightarrow> u16 \<Rightarrow> int \<Rightarrow> ping_message \<Rightarrow> polls \<Rightarrow> Ping360 \<Rightarrow> (reply \<times> polls \<times> Ping360) option" where
  "got junk i deadline m ps d = do {
     d \<leftarrow> handleMessage junk m d;
     j \<leftarrow> message_id m;
     if j = i \<or> j = NACK then Some (Got m, ps, d) else wait_loop junk i deadline ps d }"

lemma wait_byte:
  assumes "now < deadline" "linkBuffer d @ arrived = c # bs" "read c (parser d) = Some (x, p)"
  shows "wait_loop junk i deadline ((now, arrived) # ps) d = (case x of
      None \<Rightarrow> wait_loop junk i deadline ps (d\<lparr>linkBuffer := bs, parser := p\<rparr>)
    | Some m \<Rightarrow> got junk i deadline m ps (d\<lparr>linkBuffer := bs, parser := p\<rparr>))"
  using assms device_read_byte [of "doRead arrived d" c bs x p] by (simp add: doRead_def got_def split: option.split)

lemma wait_finds:
  assumes "in_time deadline (ps1 @ ps2)" "linkBuffer d @ concat (map snd ps1) = ys @ b # zs"
    and "read_bytes ys (parser d) = Some ([], q)" "read b q = Some (Some m, q')" "length ys < length ps2"
  shows "\<exists>ps' buf. wait_loop junk i deadline (ps1 @ ps2) d = got junk i deadline m ps' (d\<lparr>linkBuffer := buf, parser := q'\<rparr>)"
  using assms
proof (induction "length ps1 + length ps2" arbitrary: ps1 ps2 ys zs d)
  case (Suc k)
  obtain now arrived ps where first: "ps1 @ ps2 = (now, arrived) # ps" using Suc.hyps(2) by (cases "ps1 @ ps2") auto
  have now: "now < deadline" and later: "in_time deadline ps" using Suc.prems(1) first by (auto simp: in_time_def)
  define qs1 where "qs1 = tl ps1"
  define qs2 where "qs2 = (if ps1 = [] then tl ps2 else ps2)"
  have ps: "ps = qs1 @ qs2" "k = length qs1 + length qs2"
    using first Suc.hyps(2) by (cases ps1; cases ps2; simp add: qs1_def qs2_def)+
  have arr: "(if ps1 = [] then [] else arrived) @ concat (map snd qs1) = concat (map snd ps1)"
    using first by (cases ps1) (auto simp: qs1_def)
  show ?case
  proof (cases "linkBuffer d @ arrived")
    case Nil
    then have buf: "linkBuffer d = []" "arrived = []" by simp_all
    then have "ps1 \<noteq> []" using Suc.prems(2) by auto
    have d: "d\<lparr>linkBuffer := []\<rparr> = d" using buf(1) by (cases d) simp
    have "wait_loop junk i deadline ((now, arrived) # ps) d = wait_loop junk i deadline ps d"
      using now by (simp add: device_read_def link_read_def Let_def buf d)
    moreover have "\<exists>ps' buf. wait_loop junk i deadline (qs1 @ qs2) d =
        got junk i deadline m ps' (d\<lparr>linkBuffer := buf, parser := q'\<rparr>)"
      using Suc.prems arr buf \<open>ps1 \<noteq> []\<close> later ps by (intro Suc.hyps(1) [of qs1 qs2 d ys zs]) (auto simp: qs2_def)
    ultimately show ?thesis using first ps(1) by simp
  next
    case (Cons c bs)
    have stream: "(c # bs) @ concat (map snd qs1) = ys @ b # zs @ (if ps1 = [] then arrived else [])"
    proof (cases "ps1 = []")
      case True
      then show ?thesis using Cons Suc.prems(2) by (simp add: qs1_def)
    next
      case False
      then have "(linkBuffer d @ arrived) @ concat (map snd qs1) = ys @ b # zs" using Suc.prems(2) arr by simp
      then show ?thesis unfolding Cons using False by simp
    qed
    show ?thesis
    proof (cases ys)
      case Nil
      then have "c = b" "parser d = q" using stream Suc.prems(3) by simp_all
      then have "wait_loop junk i deadline ((now, arrived) # ps) d =
          got junk i deadline m ps (d\<lparr>linkBuffer := bs, parser := q'\<rparr>)"
        using wait_byte [OF now Cons] Suc.prems(4) by simp
      then show ?thesis using first by auto
    next
      case (Cons y ys')
      then have y: "c = y" "bs @ concat (map snd qs1) = ys' @ b # zs @ (if ps1 = [] then arrived else [])"
        using stream by simp_all
      obtain p where p: "read y (parser d) = Some (None, p)" "read_bytes ys' p = Some ([], q)"
        using Suc.prems(3) Cons by (auto simp: bind_eq_Some_conv split: option.splits)
      let ?d = "d\<lparr>linkBuffer := bs, parser := p\<rparr>"
      have "wait_loop junk i deadline ((now, arrived) # ps) d = wait_loop junk i deadline ps ?d"
        using wait_byte [OF now \<open>linkBuffer d @ arrived = c # bs\<close>] p(1) y(1) by simp
      moreover have "length ys' < length qs2" using Suc.prems(5) Cons by (auto simp: qs2_def)
      then have "\<exists>ps' buf. wait_loop junk i deadline (qs1 @ qs2) ?d =
          got junk i deadline m ps' (?d\<lparr>linkBuffer := buf, parser := q'\<rparr>)"
        using y(2) p(2) later ps Suc.prems(4)
        by (intro Suc.hyps(1) [of qs1 qs2 ?d ys' "zs @ (if ps1 = [] then arrived else [])"]) auto
      ultimately show ?thesis using first ps(1) by simp
    qed
  qed
qed simp

lemma read_bytes_first:
  "read_bytes xs p = Some (m # ms, r) \<Longrightarrow>
     \<exists>ys b zs q q'. xs = ys @ b # zs \<and> read_bytes ys p = Some ([], q) \<and> read b q = Some (Some m, q') \<and>
       read_bytes zs q' = Some (ms, r)"
proof (induction xs arbitrary: p)
  case (Cons x xs)
  obtain y s ts where y: "read x p = Some (y, s)" "read_bytes xs s = Some (ts, r)"
    "(case y of None \<Rightarrow> ts | Some z \<Rightarrow> z # ts) = m # ms"
    using Cons.prems by (auto simp: bind_eq_Some_conv cong: option.case_cong)
  show ?case
  proof (cases y)
    case None
    then obtain ys b zs q q' where "xs = ys @ b # zs" "read_bytes ys s = Some ([], q)" "read b q = Some (Some m, q')"
      "read_bytes zs q' = Some (ms, r)" using Cons.IH [of s] y by auto
    then show ?thesis using y(1) None by (intro exI [of _ "x # ys"]) auto
  next
    case (Some z)
    then show ?thesis using y by (intro exI [of _ "[]"]) auto
  qed
qed simp

lemma await_data:
  assumes payload_def: "payload = data_payload md gain a duration period frequency ns bytes"
    and "between (parser d)" "fits (parser d) payload" "data_ok (device_data_data d)"
    and "66 \<notin> set noise"
    and "linkBuffer d @ arrived @ concat (map snd ps1) = noise @ frame DEVICE_DATA src dst payload @ rest"
    and "in_time (t + timeoutMs) (ps1 @ ps2)" "length noise + length (frame DEVICE_DATA src dst payload) \<le> length ps2"
  shows "\<exists>m ps' d'. waitMessage junk DEVICE_DATA timeoutMs ((t, arrived) # ps1 @ ps2) d = Some (Got m, ps', d') \<and>
    carries DEVICE_DATA src dst payload m \<and> device_id d' = src \<and> written d' = written d \<and> mode (device_data_data d') = md \<and>
    gain_setting (device_data_data d') = gain \<and> angle (device_data_data d') = a \<and>
    transmit_duration (device_data_data d') = duration \<and> sample_period (device_data_data d') = period \<and>
    transmit_frequency (device_data_data d') = frequency \<and> number_of_samples (device_data_data d') = ns \<and>
    intensities (device_data_data d') = bytes \<and> data_ok (device_data_data d')"
proof -
  obtain p1 where p1: "read_bytes noise (parser d) = Some ([], p1)" "between p1" "kept (parser d) p1"
    using read_noise assms(2,5) by blast
  then have "fits p1 payload" using assms(3) by (simp add: kept_def fits_def)
  from read_frame [OF p1(2) this] obtain m r where m: "read_bytes (frame DEVICE_DATA src dst payload) p1 = Some ([m], r)"
    "carries DEVICE_DATA src dst payload m" by blast
  have "read_bytes (noise @ frame DEVICE_DATA src dst payload) (parser d) = Some ([m], r)"
    using p1(1) m(1) by (simp add: read_bytes_append)
  from read_bytes_first [OF this] obtain ys b zs q q' where split: "noise @ frame DEVICE_DATA src dst payload = ys @ b # zs"
    "read_bytes ys (parser d) = Some ([], q)" "read b q = Some (Some m, q')" by blast
  have "length bytes < 2 ^ 16"
    using assms(3) unat_u16 [of "bufferLength (rxMessage (parser d))"] by (simp add: fits_def payload_def data_payload_def)
  from store_device_data_result [OF assms(4) this m(2) [unfolded payload_def]] obtain x where x:
    "store_device_data junk m (device_data_data d) = Some x" "mode x = md" "gain_setting x = gain" "angle x = a"
    "transmit_duration x = duration" "sample_period x = period" "transmit_frequency x = frequency"
    "number_of_samples x = ns" "intensities x = bytes" "data_ok x" by blast
  have "length noise + length (frame DEVICE_DATA src dst payload) = length ys + Suc (length zs)"
    using arg_cong [OF split(1), of length] by simp
  then have len: "length ys < length ps2" using assms(8) by linarith
  have "linkBuffer (doRead arrived d) @ concat (map snd ps1) = ys @ b # zs @ rest"
    using assms(6) split(1) by (simp add: doRead_def)
  from wait_finds [OF assms(7) this _ split(3) len, of junk DEVICE_DATA] split(2)
  obtain ps' buf where "wait_loop junk DEVICE_DATA (t + timeoutMs) (ps1 @ ps2) (doRead arrived d) =
      got junk DEVICE_DATA (t + timeoutMs) m ps' (d\<lparr>linkBuffer := buf, parser := q'\<rparr>)" by (auto simp: doRead_def)
  then have "waitMessage junk DEVICE_DATA timeoutMs ((t, arrived) # ps1 @ ps2) d =
      Some (Got m, ps', d\<lparr>linkBuffer := buf, parser := q', device_data_data := x, device_id := src\<rparr>)"
    using m(2) x(1) by (simp add: waitMessage_def got_def handleMessage_def handle_common_def carries_def DEVICE_DATA_def
      AUTO_DEVICE_DATA_def PROTOCOL_VERSION_def DEVICE_INFORMATION_def)
  then show ?thesis using m(2) x by auto
qed

text \<open>A device whose link holds some noise and a reply with two samples.\<close>

definition demo_data :: device_data where
  "demo_data = \<lparr>mode = 0, gain_setting = 0, angle = 0, transmit_duration = 0, sample_period = 0, transmit_frequency = 0,
     number_of_samples = 0, data = None, data_length = 0\<rparr>"

definition demo_auto :: auto_device_data where
  "demo_auto = \<lparr>mode = 0, gain_setting = 0, angle = 0, transmit_duration = 0, sample_period = 0, transmit_frequency = 0,
     number_of_samples = 0, data = None, data_length = 0, start_angle = 0, stop_angle = 0, num_steps = 0, delay = 0\<rparr>"

definition demo_device :: "u8 list \<Rightarrow> Ping360" where
  "demo_device bs = \<lparr>device_id = 0, device_info = \<lparr>device_type = 0, device_revision = 0, firmware_version_major = 0,
     firmware_version_minor = 0, firmware_version_patch = 0\<rparr>, protocol = \<lparr>version_major = 0, version_minor = 0,
     version_patch = 0\<rparr>, parser = demo_parser, general_request = the (common_general_request (\<lambda>_. 0)),
     device_data_data = demo_data, auto_device_data_data = demo_auto, linkBuffer = bs, written = []\<rparr>"

definition demo_payload :: "u8 list" where
  "demo_payload = data_payload 1 2 100 7 80 750 2 [200, 10]"

section \<open>The length field of a data message\<close>

text \<open>
  The length of the data is the field of the message, not what its payload holds: a length within
  the receive buffer takes old bytes behind the message for samples, a longer one reads beyond it.
\<close>

text \<open>
  The length of the samples is taken from a field of the message: where it ends within the receive
  buffer the device stores that many bytes of the buffer, whatever the payload was; where it ends
  beyond, it reads out of bounds.
\<close>
theorem data_length_trusted:
  assumes "data_ok d" "22 \<le> length (msgData m)" "get16 12 m = Some n"
  shows "if 22 + unat n \<le> length (msgData m)
    then \<exists>d'. store_device_data junk m d = Some d' \<and> intensities d' = take (unat n) (drop 22 (msgData m))
    else store_device_data junk m d = None"
proof -
  have rd: "get8 k m \<noteq> None" if "k \<le> 13" for k using that assms(2) by (simp add: get8_def headerLength_def)
  have rd': "get16 k m \<noteq> None" if "k \<le> 12" for k using that assms(2) by (simp add: get16_def headerLength_def)
  obtain md gain a duration period frequency samples where g: "get8 0 m = Some md" "get8 1 m = Some gain"
    "get16 2 m = Some a" "get16 4 m = Some duration" "get16 6 m = Some period" "get16 8 m = Some frequency"
    "get16 10 m = Some samples"
    using rd [of 0] rd [of 1] rd' [of 2] rd' [of 4] rd' [of 6] rd' [of 8] rd' [of 10] by auto
  let ?d = "d\<lparr>mode := md, gain_setting := gain, angle := a, transmit_duration := duration, sample_period := period,
    transmit_frequency := frequency, number_of_samples := samples\<rparr>"
  have step: "store_device_data junk m d = store_data junk n 14 m ?d" by (simp only: store_device_data_def g assms(3) bind.bind_lunit Let_def)
  have ok: "data_ok ?d" using assms(1) by (simp add: data_ok_def)
  show ?thesis
  proof (cases "22 + unat n \<le> length (msgData m)")
    case True
    then have "peek (msgData m) (headerLength + 14) (unat n) = Some (take (unat n) (drop 22 (msgData m)))"
      by (simp add: peek_def headerLength_def)
    from store_data_result [OF ok this] show ?thesis using True step by auto
  next
    case False
    then have "peek (msgData m) (headerLength + 14) (unat n) = None" by (simp add: headerLength_def)
    then show ?thesis using False by (simp only: step store_data_def Let_def bind.bind_lzero if_False)
  qed
qed

theorem data_length_trusted_witness:
  "store_device_data (\<lambda>_. 0) \<lparr>bufferLength = 24, msgData = replicate 20 0 @ [3, 0, 9, 9]\<rparr> demo_data = None"
proof -
  have "get16 12 \<lparr>bufferLength = 24, msgData = replicate 20 0 @ [3, 0, 9, 9]\<rparr> = Some 3"
    by (simp add: get16_def rd16_def peek_def headerLength_def)
  from data_length_trusted [OF _ _ this, of demo_data] show ?thesis
    by (simp add: data_ok_def demo_data_def)
qed

end
