(* ===== verification/Ping360_Interface.thy ===== *)
theory Ping360_Interface
  imports Ping_Device "HOL-Library.Signed_Division"
begin

text \<open>
  The sonar interface of the Ping360 node (sonar\_interface.cpp, sonar\_interface.h) and the part of
  the node that drives it (ping360\_node.cpp): the angular configuration in gradians, the scan of
  the head, the transducer settings, and the laser scan filled from the readings. Angles are kept
  in gradians: the conversions to radians by floating point are not part of the model. C++ integer
  division is \<open>sdiv\<close>.
\<close>

section \<open>State\<close>

text \<open>\<open>freed\<close>: the array that \<open>data\<close> of the device points to has been deleted.\<close>

record Ping360Interface =
  sonar :: Ping360
  freed :: bool
  real_sonar :: bool
  angle_min :: int
  angle_max :: int
  angle_step :: int
  cur_angle :: int
  timeout :: int

definition fullScan :: "Ping360Interface \<Rightarrow> bool" where
  "fullScan s \<longleftrightarrow> angle_min s = - 200"

text \<open>A negative number becomes a huge one in the conversion to \<open>size_t\<close>.\<close>

definition angleCount :: "Ping360Interface \<Rightarrow> u64" where
  "angleCount s = of_int ((angle_max s - angle_min s) sdiv \<bar>angle_step s\<bar>)"

definition angleIndex :: "Ping360Interface \<Rightarrow> u64" where
  "angleIndex s = (if angle_step s > 0 then of_int ((cur_angle s - angle_min s) sdiv angle_step s)
     else of_int ((cur_angle s - angle_max s) sdiv angle_step s))"

definition samples :: "Ping360Interface \<Rightarrow> u16" where
  "samples s = number_of_samples (device_data_data (sonar s))"

section \<open>Angular configuration\<close>

text \<open>
  The conversions from degrees for arguments that are not negative: none of the quotients is at a
  rounding boundary except \<open>step * 360 / 400\<close>, which is then exact.
\<close>

definition computeCost :: "int \<Rightarrow> int \<Rightarrow> int \<Rightarrow> int \<Rightarrow> int" where
  "computeCost target_step target_half_aperture step half_aperture =
     (if half_aperture mod step \<noteq> 0 then 1000
      else \<bar>step - target_step\<bar> + \<bar>half_aperture - target_half_aperture\<bar>)"

text \<open>The two loops as one list of pairs; the state is the best step, its cost and its half aperture.\<close>

definition candidates :: "int \<Rightarrow> int \<Rightarrow> (int \<times> int) list" where
  "candidates ts th = concat (map (\<lambda>step. map (\<lambda>half. (step, half)) [th..min (th + 10) 200]) [1..ts * 2 - 1])"

fun search :: "int \<Rightarrow> int \<Rightarrow> (int \<times> int) list \<Rightarrow> int \<times> int \<times> int \<Rightarrow> int \<times> int \<times> int" where
  "search ts th [] best = best"
| "search ts th ((step, half) # xs) (best_step, best_cost, best_half) =
     (let cost = computeCost ts th step half in
      if cost < best_cost then search ts th xs (step, cost, half)
      else search ts th xs (best_step, best_cost, best_half))"

definition best_angles :: "int \<Rightarrow> int \<Rightarrow> bool \<Rightarrow> (int \<times> int) option" where
  "best_angles th ts ensure_divisor =
     (if \<not> ensure_divisor then Some (ts, th)
      else if ts = 0 then None
      else let cost = computeCost ts th ts th in
        if cost = 0 then Some (ts, th)
        else let (step, _, half) = search ts th (candidates ts th) (ts, cost, th) in Some (step, half))"

definition configureAngles ::
    "int \<Rightarrow> int \<Rightarrow> bool \<Rightarrow> Ping360Interface \<Rightarrow> ((int \<times> int) \<times> Ping360Interface) option" where
  "configureAngles aperture_deg step_deg ensure_divisor s = do {
     let th = (10 * aperture_deg + 9) div 18;
     let ts = (20 * step_deg + 9) div 18;
     (step, half) \<leftarrow> best_angles th ts ensure_divisor;
     let s = s\<lparr>angle_step := step, angle_min := - half, angle_max := half\<rparr>;
     let s = (if fullScan s then s\<lparr>angle_max := angle_max s - angle_step s\<rparr> else s);
     s \<leftarrow> (if cur_angle s < angle_min s \<or> cur_angle s > angle_max s then Some (s\<lparr>cur_angle := 0\<rparr>)
           else if angle_step s = 0 then None
           else if (cur_angle s - angle_min s) mod angle_step s \<noteq> 0 then Some (s\<lparr>cur_angle := 0\<rparr>)
           else Some s);
     Some (((18 * half + 5) div 10, (18 * angle_step s + 10) div 20), s) }"

section \<open>The scan\<close>

definition updateAngle :: "Ping360Interface \<Rightarrow> bool \<times> Ping360Interface" where
  "updateAngle s = (let s = s\<lparr>cur_angle := cur_angle s + angle_step s\<rparr> in
     if fullScan s then
       (let end_turn = cur_angle s + angle_step s > angle_max s in
        (end_turn, if cur_angle s > angle_max s then s\<lparr>cur_angle := angle_min s\<rparr> else s))
     else if cur_angle s + angle_step s \<ge> angle_max s \<or> cur_angle s + angle_step s \<le> angle_min s
     then (True, s\<lparr>angle_step := angle_step s * (- 1)\<rparr>)
     else (False, s))"

text \<open>
  A reading: the command with the angle, then the reply. An emulated sonar fills the array with
  random bytes (\<open>noise\<close>); its result is at hand at once.
\<close>

definition emulate :: "(nat \<Rightarrow> u8) \<Rightarrow> Ping360Interface \<Rightarrow> Ping360Interface option" where
  "emulate noise s = (let d = device_data_data (sonar s); n = unat (samples s) in
     if n = 0 then Some s
     else if freed s then None
     else case data d of
       None \<Rightarrow> None
     | Some buf \<Rightarrow> do {
         buf \<leftarrow> poke buf 0 (map noise [0..<n]);
         Some (s\<lparr>sonar := (sonar s)\<lparr>device_data_data := d\<lparr>data := Some buf\<rparr>\<rparr>\<rparr>) })"

definition transmit_angle :: "Ping360Interface \<Rightarrow> u16" where
  "transmit_angle s = of_int (if cur_angle s > 0 then cur_angle s else cur_angle s + 400)"

text \<open>The result \<open>None\<close> of the first pair is a wait that has not ended.\<close>

definition read_sonar :: "(nat \<Rightarrow> u8) \<Rightarrow> polls \<Rightarrow> Ping360Interface \<Rightarrow>
    ((bool option \<times> bool) \<times> polls \<times> Ping360Interface) option" where
  "read_sonar junk ps s = (let (end_turn, s) = updateAngle s; d = device_data_data (sonar s) in
     if real_sonar s then do {
       bs \<leftarrow> set_transducer junk (mode d) (gain_setting d) (transmit_angle s) (transmit_duration d) (sample_period d)
         (transmit_frequency d) (number_of_samples d) 1 0;
       (r, ps, p) \<leftarrow> waitMessage junk DEVICE_DATA (timeout s) ps ((sonar s)\<lparr>written := written (sonar s) @ [bs]\<rparr>);
       Some ((case r of Got _ \<Rightarrow> Some True | Null \<Rightarrow> Some False | Waiting \<Rightarrow> None, end_turn), ps, s\<lparr>sonar := p\<rparr>) }
     else do {
       s \<leftarrow> emulate junk s;
       Some ((Some True, end_turn), ps, s) })"

section \<open>Transducer settings\<close>

text \<open>
  The floating-point expressions of \<open>configureTransducer\<close>, with their conversions to integers: the
  samples that fit the range, the sample period for a number of samples, the two transmit
  durations and the longest duration for a sample period.
\<close>

record transducer_floats =
  samples_in_range :: "u16 \<Rightarrow> u16"
  period_for :: "u16 \<Rightarrow> u16 \<Rightarrow> u16"
  one_way_duration :: "u16 \<Rightarrow> u16"
  pulse_duration :: "u16 \<Rightarrow> u16"
  longest_duration :: "u16 \<Rightarrow> u16"

definition configureTransducer :: "(nat \<Rightarrow> u8) \<Rightarrow> transducer_floats \<Rightarrow> u8 \<Rightarrow> u16 \<Rightarrow> u16 \<Rightarrow> Ping360Interface \<Rightarrow>
    Ping360Interface option" where
  "configureTransducer junk f gain frequency speed_of_sound s = (
     let d = device_data_data (sonar s);
       n = min 1200 (samples_in_range f speed_of_sound);
       period = period_for f n speed_of_sound;
       duration = max (pulse_duration f period) (one_way_duration f speed_of_sound);
       duration = (if duration < 5 then 5
                   else let max_duration = min 500 (longest_duration f period) in
                     if duration > max_duration then max_duration else duration);
       d = d\<lparr>mode := 1, gain_setting := gain, transmit_frequency := frequency, number_of_samples := n,
             sample_period := period, transmit_duration := duration\<rparr>;
       put = (\<lambda>d s. s\<lparr>sonar := (sonar s)\<lparr>device_data_data := d\<rparr>\<rparr>)
     in if real_sonar s then Some (put d s)
        else if data d \<noteq> None \<and> data_length d \<noteq> n \<and> freed s then None
        else let s = (if data d \<noteq> None \<and> data_length d \<noteq> n then s\<lparr>freed := True\<rparr> else s);
                 d = d\<lparr>data_length := n\<rparr>;
                 d = (if data d = None then d\<lparr>data := Some (map junk [0..<unat n])\<rparr> else d)
             in Some (put d s))"

section \<open>The laser scan\<close>

text \<open>
  The message the node fills and publishes, its angles in gradians; a range is the result of
  \<open>rangeFrom\<close> for the index of a sample, or zero. The float comparison with the limits of the
  scan is the parameter \<open>in_range\<close>.
\<close>

record 'f laser_scan =
  scan_angle_min :: int
  scan_angle_max :: int
  scan_increment :: int
  ranges :: "'f list"
  scan_intensities :: "u8 list"

record 'f node =
  iface :: Ping360Interface
  scan :: "'f laser_scan"
  scan_threshold :: int
  published :: "'f laser_scan list"

text \<open>The bytes behind the pointer and the length of \<open>intensities()\<close>.\<close>

definition read_intensities :: "Ping360Interface \<Rightarrow> u8 list option" where
  "read_intensities s = (let d = device_data_data (sonar s) in
     if data_length d = 0 then Some []
     else if freed s then None
     else case data d of None \<Rightarrow> None | Some buf \<Rightarrow> peek buf 0 (unat (data_length d)))"

definition resize :: "nat \<Rightarrow> 'a \<Rightarrow> 'a list \<Rightarrow> 'a list" where
  "resize n z xs = take n xs @ replicate (n - length xs) z"

definition first_hit :: "(nat \<Rightarrow> bool) \<Rightarrow> int \<Rightarrow> u8 list \<Rightarrow> nat option" where
  "first_hit in_range threshold bs =
     find (\<lambda>i. threshold \<le> int (unat (bs ! i)) \<and> in_range i) [0..<length bs]"

definition publishScan :: "(nat \<Rightarrow> 'f) \<Rightarrow> 'f \<Rightarrow> (nat \<Rightarrow> bool) \<Rightarrow> bool \<Rightarrow> 'f node \<Rightarrow> 'f node option" where
  "publishScan rangeFrom zero in_range end_turn n = (
     let s = iface n; i = unat (angleIndex s);
       rs = resize (unat (angleCount s)) zero (ranges (scan n));
       xs = resize (unat (angleCount s)) 0 (scan_intensities (scan n)) in
     if length rs \<le> i then None
     else do {
       bs \<leftarrow> read_intensities s;
       let hit = first_hit in_range (scan_threshold n) bs;
       let rs = rs[i := (case hit of None \<Rightarrow> zero | Some k \<Rightarrow> rangeFrom k)];
       let xs = xs[i := (case hit of None \<Rightarrow> 0 | Some k \<Rightarrow> bs ! k)];
       let m = (scan n)\<lparr>ranges := rs, scan_intensities := xs\<rparr>;
       let m = (if end_turn \<and> \<not> fullScan s then
           let m = (if angle_step s < 0 then m\<lparr>scan_angle_max := angle_max s, scan_angle_min := angle_min s\<rparr>
                    else m\<lparr>scan_angle_max := angle_min s, scan_angle_min := angle_max s\<rparr>);
             m = m\<lparr>scan_increment := - angle_step s\<rparr>
           in m\<lparr>scan_angle_max := scan_angle_max m - scan_increment m\<rparr>
         else m);
       Some (n\<lparr>scan := m, published := (if end_turn then published n @ [m] else published n)\<rparr>) })"

text \<open>
  A step of the node without the image: a reading, then the echo and the laser scan for those who
  subscribed. \<open>echo\<close> is the angle and the intensities of the message.
\<close>

definition publishEcho :: "Ping360Interface \<Rightarrow> (int \<times> u8 list) option" where
  "publishEcho s = do { bs \<leftarrow> read_intensities s; Some (cur_angle s, bs) }"

definition refresh :: "(nat \<Rightarrow> u8) \<Rightarrow> (nat \<Rightarrow> 'f) \<Rightarrow> 'f \<Rightarrow> (nat \<Rightarrow> bool) \<Rightarrow> bool \<Rightarrow> bool \<Rightarrow> polls \<Rightarrow> 'f node \<Rightarrow>
    ((int \<times> u8 list) option \<times> polls \<times> 'f node) option" where
  "refresh junk rangeFrom zero in_range echo_wanted scan_wanted ps n = do {
     ((valid, end_turn), ps, s) \<leftarrow> read_sonar junk ps (iface n);
     let n = n\<lparr>iface := s\<rparr>;
     if valid \<noteq> Some True then Some (None, ps, n)
     else do {
       echo \<leftarrow> (if echo_wanted then map_option Some (publishEcho s) else Some None);
       n \<leftarrow> (if scan_wanted then publishScan rangeFrom zero in_range end_turn n else Some n);
       Some (echo, ps, n) } }"

section \<open>The angular configuration\<close>

lemma search_min:
  "search ts th xs (s0, c0, h0) = (s, c, h) \<Longrightarrow> c0 = computeCost ts th s0 h0 \<Longrightarrow>
     c = computeCost ts th s h \<and> c \<le> c0 \<and> (\<forall>(s', h') \<in> set xs. c \<le> computeCost ts th s' h') \<and>
     ((s, h) = (s0, h0) \<or> (s, h) \<in> set xs)"
proof (induction xs arbitrary: s0 c0 h0)
  case (Cons x xs)
  obtain s1 h1 where x: "x = (s1, h1)" by (cases x)
  show ?case
  proof (cases "computeCost ts th s1 h1 < c0")
    case True
    then have "search ts th xs (s1, computeCost ts th s1 h1, h1) = (s, c, h)" using Cons.prems x by (simp add: Let_def)
    from Cons.IH [OF this refl] show ?thesis using True by (auto simp: x)
  next
    case False
    then have "search ts th xs (s0, c0, h0) = (s, c, h)" using Cons.prems x by (simp add: Let_def)
    from Cons.IH [OF this Cons.prems(2)] show ?thesis using False by (auto simp: x)
  qed
qed simp

lemma set_candidates: "set (candidates ts th) = {(s, h). 1 \<le> s \<and> s < 2 * ts \<and> th \<le> h \<and> h \<le> min (th + 10) 200}"
  by (auto simp: candidates_def image_iff)

text \<open>The search finds a divisor, and none nearer to what was asked for.\<close>

definition nearest :: "int \<Rightarrow> int \<Rightarrow> int \<Rightarrow> int \<Rightarrow> bool" where
  "nearest ts th s h \<longleftrightarrow> (\<forall>s' \<in> {1..2 * ts - 1}. \<forall>h' \<in> {th..min (th + 10) 200}.
     h' mod s' = 0 \<longrightarrow> \<bar>s - ts\<bar> + \<bar>h - th\<bar> \<le> \<bar>s' - ts\<bar> + \<bar>h' - th\<bar>)"

lemma best_angles_optimal:
  assumes "1 \<le> ts" "ts \<le> 400" "0 \<le> th" "th \<le> 200"
  shows "\<exists>s h. best_angles th ts True = Some (s, h) \<and> 0 < s \<and> h mod s = 0 \<and> th \<le> h \<and> h \<le> min (th + 10) 200 \<and>
    nearest ts th s h"
proof (cases "computeCost ts th ts th = 0")
  case True
  then have "th mod ts = 0" by (auto simp: computeCost_def split: if_splits)
  then show ?thesis using True assms by (auto simp: best_angles_def nearest_def Let_def)
next
  case False
  obtain s c h where r: "search ts th (candidates ts th) (ts, computeCost ts th ts th, th) = (s, c, h)"
    by (cases "search ts th (candidates ts th) (ts, computeCost ts th ts th, th)")
  then have b: "best_angles th ts True = Some (s, h)" using False assms by (simp add: best_angles_def Let_def)
  from search_min [OF r refl] have c: "c = computeCost ts th s h"
    "\<forall>s' h'. 1 \<le> s' \<and> s' < 2 * ts \<and> th \<le> h' \<and> h' \<le> min (th + 10) 200 \<longrightarrow> c \<le> computeCost ts th s' h'"
    "(s, h) = (ts, th) \<or> 1 \<le> s \<and> s < 2 * ts \<and> th \<le> h \<and> h \<le> min (th + 10) 200"
    unfolding set_candidates by auto
  have "computeCost ts th 1 th \<le> 399" using assms by (simp add: computeCost_def)
  moreover have "c \<le> computeCost ts th 1 th" using c(2) assms by auto
  ultimately have "c \<le> 399" by linarith
  then have d: "h mod s = 0" "c = \<bar>s - ts\<bar> + \<bar>h - th\<bar>" using c(1) by (auto simp: computeCost_def split: if_splits)
  have "\<bar>s - ts\<bar> + \<bar>h - th\<bar> \<le> \<bar>s' - ts\<bar> + \<bar>h' - th\<bar>"
    if "s' \<in> {1..2 * ts - 1}" "h' \<in> {th..min (th + 10) 200}" "h' mod s' = 0" for s' h'
    using c(2) [rule_format, of s' h'] that d(2) by (simp add: computeCost_def)
  then have "nearest ts th s h" by (simp add: nearest_def)
  then show ?thesis using b d(1) c(3) assms by (intro exI [of _ s] exI [of _ h]) auto
qed

text \<open>
  C32. With a divisor wanted, the angular configuration finds a step that divides the half
  aperture, with the half aperture between the requested one and ten gradians more and at most
  200; no other pair of the search range is nearer to the request; and the head is left at a
  multiple of the step within the sector.
\<close>
theorem angles_configured:
  assumes "0 \<le> aperture" "aperture \<le> 360" "1 \<le> step" "step \<le> 300"
  shows "\<exists>r t h. configureAngles aperture step True s = Some (r, t) \<and> 0 < angle_step t \<and> h mod angle_step t = 0 \<and>
    angle_min t = - h \<and> angle_max t = (if h = 200 then 200 - angle_step t else h) \<and>
    (10 * aperture + 9) div 18 \<le> h \<and> h \<le> min ((10 * aperture + 9) div 18 + 10) 200 \<and>
    nearest ((20 * step + 9) div 18) ((10 * aperture + 9) div 18) (angle_step t) h \<and>
    angle_min t \<le> cur_angle t \<and> cur_angle t \<le> angle_max t \<and> (cur_angle t - angle_min t) mod angle_step t = 0"
proof -
  let ?th = "(10 * aperture + 9) div 18" and ?ts = "(20 * step + 9) div 18"
  have th: "0 \<le> ?th" "?th \<le> 200" and ts: "1 \<le> ?ts" "?ts \<le> 400" using assms by simp_all
  from best_angles_optimal [OF ts th] obtain k h where k: "best_angles ?th ?ts True = Some (k, h)" "0 < k" "h mod k = 0"
    "?th \<le> h" "h \<le> min (?th + 10) 200"
    "nearest ?ts ?th k h" by (elim exE conjE)
  let ?s = "s\<lparr>angle_step := k, angle_min := - h, angle_max := (if h = 200 then 200 - k else h)\<rparr>"
  let ?zero = "cur_angle s < - h \<or> cur_angle s > angle_max ?s \<or> (cur_angle s + h) mod k \<noteq> 0"
  have conf: "configureAngles aperture step True s =
      Some (((18 * h + 5) div 10, (18 * k + 10) div 20), if ?zero then ?s\<lparr>cur_angle := 0\<rparr> else ?s)"
    using k(2) by (cases s) (auto simp: configureAngles_def k(1) fullScan_def Let_def)
  have "k \<le> h \<or> h = 0" using k(2,3) by (metis dvd_imp_mod_0 mod_0_imp_dvd order_refl th(1) k(4) zdvd_imp_le order_trans le_less)
  then have zero: "- h \<le> 0" "0 \<le> angle_max ?s" using k(4) th by auto
  show ?thesis
    using k(2-6) zero
    by (intro exI [of _ "((18 * h + 5) div 10, (18 * k + 10) div 20)"]
        exI [of _ "if ?zero then ?s\<lparr>cur_angle := 0\<rparr> else ?s"] exI [of _ h] conjI conf) auto
qed

text \<open>A sector of 120 degrees in steps of 7.\<close>

definition demo_iface :: Ping360Interface where
  "demo_iface = \<lparr>sonar = demo_device [], freed = False, real_sonar = False, angle_min = 0, angle_max = 0, angle_step = 0,
     cur_angle = 0, timeout = 8000\<rparr>"

theorem angles_configured_witness:
  "\<exists>r t h. configureAngles 120 7 True demo_iface = Some (r, t) \<and> 0 < angle_step t \<and> h mod angle_step t = 0 \<and>
    angle_min t = - h \<and> angle_max t = (if h = 200 then 200 - angle_step t else h) \<and>
    (10 * 120 + 9) div 18 \<le> h \<and> h \<le> min ((10 * 120 + 9) div 18 + 10) 200 \<and>
    nearest ((20 * 7 + 9) div 18) ((10 * 120 + 9) div 18) (angle_step t) h \<and>
    angle_min t \<le> cur_angle t \<and> cur_angle t \<le> angle_max t \<and> (cur_angle t - angle_min t) mod angle_step t = 0"
  by (rule angles_configured) simp_all

section \<open>A full scan\<close>

text \<open>The angles of a full scan in divisors, as the configuration leaves them.\<close>

definition full_ok :: "Ping360Interface \<Rightarrow> bool" where
  "full_ok s \<longleftrightarrow> angle_min s = - 200 \<and> 0 < angle_step s \<and> 200 mod angle_step s = 0 \<and> angle_max s = 200 - angle_step s \<and>
     - 200 \<le> cur_angle s \<and> cur_angle s \<le> angle_max s \<and> (cur_angle s + 200) mod angle_step s = 0"

lemma unat_of_int_u64: "0 \<le> x \<Longrightarrow> x < 2 ^ 64 \<Longrightarrow> unat (of_int x :: u64) = nat x"
  by (simp add: unat_eq_nat_uint uint_word_of_int)

lemma sdiv_multiple: "0 \<le> k \<Longrightarrow> (n :: int) \<noteq> 0 \<Longrightarrow> (k * n) sdiv n = k"
  by (auto simp: signed_divide_int_def sgn_mult abs_mult sgn_if zero_less_mult_iff mult_less_0_iff)

lemma full_scan_indices:
  assumes "full_ok s" "updateAngle s = (end_turn, t)"
  shows "full_ok t" "end_turn \<longleftrightarrow> cur_angle t = angle_max t \<or> cur_angle t = angle_min t"
    and "unat (angleIndex t) \<le> unat (angleCount t)" "angleIndex t = angleCount t \<longleftrightarrow> cur_angle t = angle_max t"
proof -
  let ?d = "angle_step s"
  have d: "angle_min s = - 200" "angle_max s = 200 - ?d" "0 < ?d" using assms(1) by (simp_all add: full_ok_def)
  obtain k where k: "200 = k * ?d" using assms(1) by (auto simp: full_ok_def elim!: dvdE)
  obtain j where j: "cur_angle s + 200 = j * ?d" using assms(1) by (auto simp: full_ok_def elim!: dvdE)
  have "0 \<le> j * ?d" "j * ?d \<le> (2 * k - 1) * ?d" using assms(1) j k by (auto simp: full_ok_def algebra_simps)
  then have jk: "0 \<le> j" "j \<le> 2 * k - 1" using d(3) by (auto simp: zero_le_mult_iff)
  have k0: "0 < k" using k d(3) by (metis zero_less_mult_pos2 zero_less_numeral)
  define i where "i = (if j = 2 * k - 1 then 0 else j + 1)"
  have i: "0 \<le> i" "i \<le> 2 * k - 1" using jk k0 by (auto simp: i_def)
  have less: "a * ?d < b * ?d \<longleftrightarrow> a < b" for a b using d(3) by simp
  have max: "angle_max s = (2 * k - 1) * ?d - 200" using d k by (simp add: algebra_simps)
  have cur: "cur_angle s = j * ?d - 200" using j by simp
  have t: "t = s\<lparr>cur_angle := i * ?d - 200\<rparr>" "end_turn \<longleftrightarrow> 2 * k - 1 < j + 2"
    using assms(2) less [of "2 * k - 1" "j + 1"] less [of "2 * k - 1" "j + 2"] d(1) jk
    by (auto simp: updateAngle_def fullScan_def Let_def max cur i_def algebra_simps split: if_splits)
  have eq: "a * ?d = b * ?d \<longleftrightarrow> a = b" for a b using d(3) by simp
  have pos: "0 \<le> i * ?d" "i * ?d \<le> (2 * k - 1) * ?d" using i d(3) by (simp_all add: mult_right_mono)
  have "(2 * k - 1) * ?d = 400 - ?d" using k by (simp add: algebra_simps)
  then have "i * ?d \<le> 400 - ?d" using pos(2) by simp
  then show "full_ok t" using pos(1) d assms(1) by (simp add: full_ok_def t(1))
  have "cur_angle t = i * ?d - 200" "angle_max t = (2 * k - 1) * ?d - 200" "angle_min t = - 200"
    using max d(1) by (simp_all add: t(1))
  then have ends: "cur_angle t = angle_max t \<longleftrightarrow> i = 2 * k - 1" "cur_angle t = angle_min t \<longleftrightarrow> i = 0"
    using eq [of i "2 * k - 1"] eq [of i 0] by simp_all
  show "end_turn \<longleftrightarrow> cur_angle t = angle_max t \<or> cur_angle t = angle_min t"
    unfolding ends t(2) using jk by (auto simp: i_def)
  have "k * 1 \<le> k * ?d" using d(3) k0 by (intro mult_left_mono) simp_all
  then have "k \<le> 200" unfolding k [symmetric] mult_1_right .
  then have "2 * k - 1 < 2 ^ 64" by simp
  then have u: "unat (of_int (2 * k - 1) :: u64) = nat (2 * k - 1)" "unat (of_int i :: u64) = nat i"
    using i by (rule_tac [!] unat_of_int_u64) linarith+
  have n: "angleCount t = of_int (2 * k - 1)" "angleIndex t = of_int i"
    using d(1,3) i sdiv_multiple [of "2 * k - 1" ?d] sdiv_multiple [of i ?d]
    by (simp_all add: angleCount_def angleIndex_def t(1) max)
  show "unat (angleIndex t) \<le> unat (angleCount t)" unfolding n u using i by simp
  have "angleIndex t = angleCount t \<longleftrightarrow> nat i = nat (2 * k - 1)"
    unfolding n u [symmetric] by (simp only: word_unat_eq_iff)
  then show "angleIndex t = angleCount t \<longleftrightarrow> cur_angle t = angle_max t" unfolding ends using i k0 by auto
qed

text \<open>
  C33. A full scan in divisors goes round for ever within its angles; its index is within the scan
  message at every angle but the last of a turn, where it is the number of elements and
  publishScan writes beyond the message; and a turn ends twice, at the last angle and at the
  first.
\<close>
theorem full_scan_overruns:
  assumes "full_ok s" "updateAngle s = (end_turn, t)"
  shows "full_ok t \<and> (end_turn \<longleftrightarrow> cur_angle t = angle_max t \<or> cur_angle t = angle_min t) \<and>
    (if cur_angle t = angle_max t then angleIndex t = angleCount t \<and>
       publishScan rangeFrom zero in_range end_turn (n\<lparr>iface := t\<rparr>) = None
     else unat (angleIndex t) < unat (angleCount t))"
proof (cases "cur_angle t = angle_max t")
  case True
  then have "angleIndex t = angleCount t" using full_scan_indices(4) [OF assms] by simp
  moreover have "length (resize n z xs) = n" for n and z :: 'a and xs by (simp add: resize_def)
  ultimately show ?thesis using full_scan_indices(1,2) [OF assms] True by (simp add: publishScan_def Let_def)
next
  case False
  then have "unat (angleIndex t) \<noteq> unat (angleCount t)" using full_scan_indices(4) [OF assms] by (simp add: word_unat_eq_iff)
  then show ?thesis using full_scan_indices [OF assms] False by simp
qed

definition demo_node :: "Ping360Interface \<Rightarrow> nat node" where
  "demo_node s = \<lparr>iface = s, scan = \<lparr>scan_angle_min = 0, scan_angle_max = 0, scan_increment = 0, ranges = [],
     scan_intensities = []\<rparr>, scan_threshold = 200, published = []\<rparr>"

theorem full_scan_overruns_witness:
  "(let s = demo_iface\<lparr>angle_min := - 200, angle_max := 196, angle_step := 4, cur_angle := 192\<rparr>; t = snd (updateAngle s) in
    cur_angle t = 196 \<and> publishScan id 0 (\<lambda>_. True) True (demo_node t) = None)"
proof -
  let ?s = "demo_iface\<lparr>angle_min := - 200, angle_max := 196, angle_step := 4, cur_angle := 192\<rparr>"
  let ?t = "?s\<lparr>cur_angle := 196\<rparr>"
  have u: "updateAngle ?s = (True, ?t)" by (simp add: updateAngle_def fullScan_def Let_def)
  have "full_ok ?s" by (simp add: full_ok_def)
  from full_scan_overruns [OF this u, of id 0 "\<lambda>_. True" "demo_node ?t"] show ?thesis
    by (simp add: u Let_def demo_node_def)
qed

section \<open>A sector scan\<close>

text \<open>A sector in divisors with at least two steps a side, and the next position inside it.\<close>

definition sector_ok :: "Ping360Interface \<Rightarrow> bool" where
  "sector_ok s \<longleftrightarrow> angle_min s = - angle_max s \<and> angle_max s < 200 \<and> angle_step s \<noteq> 0 \<and>
     angle_max s mod angle_step s = 0 \<and> 2 * \<bar>angle_step s\<bar> \<le> angle_max s \<and>
     cur_angle s mod angle_step s = 0 \<and> \<bar>cur_angle s\<bar> \<le> angle_max s \<and> \<bar>cur_angle s + angle_step s\<bar> < angle_max s"

text \<open>Two multiples of a step that differ, differ by a step.\<close>

lemma step_apart: "(e :: int) dvd y \<Longrightarrow> e dvd h \<Longrightarrow> y < h \<Longrightarrow> y + \<bar>e\<bar> \<le> h"
proof -
  assume "e dvd y" "e dvd h" "y < h"
  then have "\<bar>e\<bar> \<le> h - y" by (intro zdvd_imp_le) auto
  then show ?thesis by simp
qed

lemma sector_step:
  assumes "sector_ok s" "updateAngle s = (end_turn, t)"
  shows "sector_ok t \<and> \<bar>cur_angle t\<bar> < angle_max t \<and> angle_max t = angle_max s \<and> angle_min t = - angle_max s \<and>
    (if end_turn then angle_step t = - angle_step s \<and>
       cur_angle t = (if angle_step s > 0 then angle_max s - angle_step s else - angle_max s - angle_step s)
     else angle_step t = angle_step s)"
proof -
  let ?d = "angle_step s" and ?h = "angle_max s" and ?y = "cur_angle s + angle_step s"
  have h: "angle_min s = - ?h" "?h < 200" "?d \<noteq> 0" "2 * \<bar>?d\<bar> \<le> ?h" "\<bar>cur_angle s\<bar> \<le> ?h" "\<bar>?y\<bar> < ?h"
    using assms(1) by (auto simp: sector_ok_def)
  have dvd: "?d dvd ?h" "?d dvd - ?h" "?d dvd ?y" "?d dvd cur_angle s" using assms(1) by (auto simp: sector_ok_def)
  have y: "?y + \<bar>?d\<bar> \<le> ?h" "- ?h + \<bar>?d\<bar> \<le> ?y" using step_apart [OF dvd(3,1)] step_apart [OF dvd(2,3)] h(6) by auto
  have fs: "\<not> fullScan (s\<lparr>cur_angle := ?y\<rparr>)" using h by (simp add: fullScan_def)
  show ?thesis
  proof (cases "?y + ?d \<ge> ?h \<or> ?y + ?d \<le> - ?h")
    case True
    then have t: "end_turn" "t = s\<lparr>cur_angle := ?y, angle_step := - ?d\<rparr>"
      using assms(2) fs h(1) by (auto simp: updateAngle_def Let_def)
    have "?y = (if ?d > 0 then ?h - ?d else - ?h - ?d)" using True y h(3,4) by (auto split: if_splits)
    then show ?thesis using h dvd y by (auto simp: t sector_ok_def)
  next
    case False
    then have t: "\<not> end_turn" "t = s\<lparr>cur_angle := ?y\<rparr>" using assms(2) fs h(1) by (auto simp: updateAngle_def Let_def)
    then show ?thesis using False h dvd y by (auto simp: sector_ok_def)
  qed
qed

lemma sector_index:
  assumes "sector_ok t" "\<bar>cur_angle t\<bar> < angle_max t"
  obtains q N where "unat (angleIndex t) = nat q" "unat (angleCount t) = nat N" "0 < q" "q < N"
    "2 * angle_max t = N * \<bar>angle_step t\<bar>"
    "q * angle_step t = (if angle_step t > 0 then cur_angle t + angle_max t else cur_angle t - angle_max t)"
proof -
  let ?e = "angle_step t" and ?h = "angle_max t" and ?y = "cur_angle t"
  have h: "angle_min t = - ?h" "?h < 200" "?e \<noteq> 0" using assms(1) by (auto simp: sector_ok_def)
  have dvd: "?e dvd ?h" "?e dvd ?y" using assms(1) by (auto simp: sector_ok_def)
  then have "\<bar>?e\<bar> dvd 2 * ?h" by simp
  then obtain N where N: "2 * ?h = N * \<bar>?e\<bar>" by (metis dvd_def mult.commute)
  let ?x = "if ?e > 0 then ?y + ?h else ?y - ?h"
  have "?e dvd ?x" using dvd by auto
  then obtain q where q: "?x = q * ?e" by (metis dvd_def mult.commute)
  have qe: "q * \<bar>?e\<bar> = (if ?e > 0 then ?y + ?h else ?h - ?y)" using q h(3) by (auto split: if_splits)
  then have "0 < q * \<bar>?e\<bar>" "q * \<bar>?e\<bar> < N * \<bar>?e\<bar>" using assms(2) N by (auto split: if_splits)
  then have bounds: "0 < q" "q < N" using h(3) by (auto simp: zero_less_mult_iff)
  have "N * 1 \<le> N * \<bar>?e\<bar>" using h(3) bounds by (intro mult_left_mono) auto
  then have "N < 400" using N h(2) by simp
  have "angleIndex t = of_int q"
    using q sdiv_multiple [of q ?e] bounds h by (auto simp: angleIndex_def split: if_splits)
  moreover have "angleCount t = of_int N"
    using N sdiv_multiple [of N "\<bar>?e\<bar>"] bounds h by (simp add: angleCount_def)
  ultimately show thesis
    using bounds \<open>N < 400\<close> N q by (intro that [of q N]) (simp_all add: unat_of_int_u64)
qed

text \<open>The angle that element \<open>i\<close> of a published scan stands for.\<close>

definition angle_of :: "'f laser_scan \<Rightarrow> int \<Rightarrow> int" where
  "angle_of m i = scan_angle_min m + i * scan_increment m"

lemma length_resize [simp]: "length (resize n z xs) = n"
  by (simp add: resize_def)

text \<open>
  C34. A sector scan that is well set up (a symmetric sector below 200 gradians with at least two
  steps on each side, the head and both ends on multiples of the step, and the next position
  strictly inside) stays so, and a reading of it with a valid array of samples is stored inside
  its message. But the last reading of a sweep is stored after the step has been reversed: in the
  published scan it stands at element 1, whose angle is the opposite one.
\<close>
theorem sector_ends_swapped:
  assumes "sector_ok s" "updateAngle s = (end_turn, t)" "data_ok (device_data_data (sonar t))" "\<not> freed t"
  shows "sector_ok t \<and> 0 < unat (angleIndex t) \<and> unat (angleIndex t) < unat (angleCount t) \<and>
    (\<exists>n'. publishScan rangeFrom zero in_range end_turn (n\<lparr>iface := t\<rparr>) = Some n' \<and>
      (if end_turn then published n' = published n @ [scan n'] \<and> angleIndex t = 1 \<and>
         angle_of (scan n') 1 = - cur_angle t \<and> angle_of (scan n') (uint (angleCount t) - 1) = cur_angle t
       else published n' = published n))"
proof -
  have step: "sector_ok t" "\<bar>cur_angle t\<bar> < angle_max t" "angle_max t = angle_max s" "angle_min t = - angle_max s"
    "end_turn \<Longrightarrow> angle_step t = - angle_step s"
    "end_turn \<Longrightarrow> cur_angle t = (if angle_step s > 0 then angle_max s - angle_step s else - angle_max s - angle_step s)"
    using sector_step [OF assms(1,2)] by (auto split: if_splits)
  obtain q N where q: "unat (angleIndex t) = nat q" "unat (angleCount t) = nat N" "0 < q" "q < N"
    "2 * angle_max t = N * \<bar>angle_step t\<bar>"
    "q * angle_step t = (if angle_step t > 0 then cur_angle t + angle_max t else cur_angle t - angle_max t)"
    using sector_index [OF step(1,2)] .
  have bounds: "0 < unat (angleIndex t)" "unat (angleIndex t) < unat (angleCount t)" "uint (angleCount t) = N"
    using q(1-4) by (simp_all add: uint_nat)
  have "read_intensities t \<noteq> None"
    using assms(3,4) by (auto simp: read_intensities_def data_ok_def Let_def peek_def unat_eq_0 split: option.splits)
  then obtain bs where bs: "read_intensities t = Some bs" by blast
  have last: "angleIndex t = 1 \<and> (if angle_step t < 0 then angle_max t + angle_step t = cur_angle t
      else - angle_max t + angle_step t = cur_angle t)" if end_turn
  proof -
    have e: "angle_step t \<noteq> 0" using step(1) by (simp add: sector_ok_def)
    have "q * angle_step t = 1 * angle_step t" using q(6) step(3,5,6) that e by (auto split: if_splits)
    then have "q = 1" using e by simp
    then show ?thesis using q(1,6) e by (auto simp: word_unat_eq_iff split: if_splits)
  qed
  have "\<not> fullScan t" using step(1,4) by (auto simp: sector_ok_def fullScan_def)
  then have "\<exists>n'. publishScan rangeFrom zero in_range end_turn (n\<lparr>iface := t\<rparr>) = Some n' \<and>
      (if end_turn then published n' = published n @ [scan n'] \<and> angleIndex t = 1 \<and>
         angle_of (scan n') 1 = - cur_angle t \<and> angle_of (scan n') (uint (angleCount t) - 1) = cur_angle t
       else published n' = published n)"
    using bounds last q(5) step(3,4) unfolding publishScan_def
    by (auto simp: bs Let_def angle_of_def algebra_simps)
  then show ?thesis using step(1) bounds by blast
qed

theorem sector_ends_swapped_witness:
  "(let s = demo_iface\<lparr>angle_min := - 60, angle_max := 60, angle_step := 10, cur_angle := 40\<rparr>; t = snd (updateAngle s) in
    \<exists>n'. publishScan id 0 (\<lambda>_. True) True ((demo_node s)\<lparr>iface := t\<rparr>) = Some n' \<and> published n' = [scan n'] \<and>
      cur_angle t = 50 \<and> angleIndex t = 1 \<and> angle_of (scan n') 1 = - 50)"
proof -
  let ?s = "demo_iface\<lparr>angle_min := - 60, angle_max := 60, angle_step := 10, cur_angle := 40\<rparr>"
  let ?t = "?s\<lparr>cur_angle := 50, angle_step := - 10\<rparr>"
  have u: "updateAngle ?s = (True, ?t)" by (simp add: updateAngle_def fullScan_def Let_def)
  have "sector_ok ?s" by (simp add: sector_ok_def)
  moreover have "data_ok (device_data_data (sonar ?t))" "\<not> freed ?t"
    by (simp_all add: data_ok_def demo_iface_def demo_device_def demo_data_def)
  ultimately show ?thesis
    using sector_ends_swapped [OF _ u, of id 0 "\<lambda>_. True" "demo_node ?s"] by (auto simp: u Let_def demo_node_def)
qed

text \<open>
  A configuration keeps the head where it is when that angle belongs to the new sector. Where it
  is the upper end, the next step leaves the sector, and the index wraps.
\<close>

text \<open>
  At the upper end of its sector the head leaves the sector, the index is -1 as a size_t, and the
  scan is written out of bounds.
\<close>
theorem upper_end_overruns:
  assumes "angle_min s = - angle_max s" "0 < angle_max s" "angle_max s < 200" "0 < angle_step s"
    and "cur_angle s = angle_max s" "updateAngle s = (end_turn, t)"
  shows "end_turn \<and> cur_angle t = angle_max t + angle_step s \<and> angleIndex t = - 1 \<and>
    publishScan rangeFrom zero in_range end_turn (n\<lparr>iface := t\<rparr>) = None"
proof -
  have t: "end_turn" "t = s\<lparr>cur_angle := angle_max s + angle_step s, angle_step := - angle_step s\<rparr>"
    using assms by (auto simp: updateAngle_def fullScan_def Let_def)
  have i: "angleIndex t = - 1"
    using assms(4) by (simp add: t(2) angleIndex_def signed_divide_int_def sgn_if)
  have "unat (angleCount t) \<le> unat (- 1 :: u64)" by (simp add: word_le_nat_alt [symmetric])
  then show ?thesis using i t by (simp add: publishScan_def Let_def)
qed

theorem upper_end_overruns_witness:
  "(let s = demo_iface\<lparr>angle_min := - 60, angle_max := 60, angle_step := 10, cur_angle := 60\<rparr>; t = snd (updateAngle s) in
    cur_angle t = 70 \<and> angleIndex t = - 1)"
proof -
  let ?s = "demo_iface\<lparr>angle_min := - 60, angle_max := 60, angle_step := 10, cur_angle := 60\<rparr>"
  have u: "updateAngle ?s = (True, ?s\<lparr>cur_angle := 70, angle_step := - 10\<rparr>)"
    by (simp add: updateAngle_def fullScan_def Let_def)
  show ?thesis using upper_end_overruns [OF _ _ _ _ _ u, of id 0 "\<lambda>_. True" "demo_node ?s"] by (simp add: u Let_def)
qed

section \<open>The emulated sonar\<close>

text \<open>
  Its array is deleted when the number of samples changes, but the pointer is not reset, so no new
  one is allocated: whatever then uses the array uses freed memory.
\<close>

text \<open>
  The emulated sonar after its number of samples has changed.
\<close>
theorem emulation_uses_freed:
  assumes "\<not> real_sonar s" "data (device_data_data (sonar s)) \<noteq> None" "data_length (device_data_data (sonar s)) = k"
    and "k \<noteq> min 1200 (samples_in_range f speed)" "0 < samples_in_range f speed" "\<not> freed s"
  shows "\<exists>t. configureTransducer junk f gain frequency speed s = Some t \<and> freed t \<and> emulate noise t = None \<and>
    read_intensities t = None \<and>
    (\<forall>g speed'. min 1200 (samples_in_range g speed') \<noteq> data_length (device_data_data (sonar t)) \<longrightarrow>
       configureTransducer junk g gain frequency speed' t = None)"
proof -
  have "min 1200 (samples_in_range f speed) \<noteq> 0" using assms(5) by (auto simp: min_def)
  then show ?thesis using assms
    by (auto simp: configureTransducer_def Let_def emulate_def samples_def read_intensities_def unat_eq_0)
qed

theorem emulation_uses_freed_witness:
  "(let s = demo_iface\<lparr>sonar := (demo_device [])\<lparr>device_data_data := demo_data\<lparr>data := Some [0, 0], data_length := 2\<rparr>\<rparr>\<rparr>;
        f = \<lparr>samples_in_range = \<lambda>_. 600, period_for = \<lambda>_ _. 90, one_way_duration = \<lambda>_. 16, pulse_duration = \<lambda>_. 0,
          longest_duration = \<lambda>_. 144\<rparr> in
    \<exists>t. configureTransducer (\<lambda>_. 0) f 0 740 1500 s = Some t \<and> freed t \<and> emulate (\<lambda>_. 0) t = None)"
proof -
  let ?s = "demo_iface\<lparr>sonar := (demo_device [])\<lparr>device_data_data := demo_data\<lparr>data := Some [0, 0], data_length := 2\<rparr>\<rparr>\<rparr>"
  let ?f = "\<lparr>samples_in_range = \<lambda>_. 600, period_for = \<lambda>_ _. 90, one_way_duration = \<lambda>_. 16, pulse_duration = \<lambda>_. 0,
          longest_duration = \<lambda>_. 144\<rparr>"
  show ?thesis
    using emulation_uses_freed [of ?s 2 ?f 1500 "\<lambda>_. 0" 0 740 "\<lambda>_. 0"]
    by (auto simp: demo_iface_def Let_def)
qed

section \<open>A reading of the real sonar\<close>

lemma transmit_angle_range:
  assumes "- 200 \<le> cur_angle s" "cur_angle s \<le> 200"
  shows "1 \<le> unat (transmit_angle s)" "unat (transmit_angle s) \<le> 400"
    "int (unat (transmit_angle s)) mod 400 = cur_angle s mod 400"
proof -
  let ?a = "if cur_angle s > 0 then cur_angle s else cur_angle s + 400"
  have "unat (of_int ?a :: u16) = nat ?a" using assms
    by (subst unat_eq_nat_uint, subst uint_word_of_int) auto
  then have u: "int (unat (transmit_angle s)) = ?a" using assms by (simp add: transmit_angle_def)
  show "int (unat (transmit_angle s)) mod 400 = cur_angle s mod 400" unfolding u by simp
  have "1 \<le> int (unat (transmit_angle s))" "int (unat (transmit_angle s)) \<le> 400" unfolding u using assms by auto
  then show "1 \<le> unat (transmit_angle s)" and "unat (transmit_angle s) \<le> 400" by linarith+
qed

text \<open>
  C31. One reading of the real sonar, to an angle from -200 to 200 gradians: it steps the head and
  sends exactly one transducer command with the stored settings and the new angle (from 1 to 400
  gradians, the same direction). When the bytes that are in the link or arrive while the node
  waits are some bytes without the start byte of a message, the reply, and whatever follows, and
  enough polls for reading them one by one follow before the deadline, the reading succeeds and
  leaves exactly the samples and the angle of the reply in the device. (The parser is between two
  messages, the reply fits its buffer, and the array of samples of the device is as long as it
  says.)
\<close>
theorem sonar_reading:
  assumes "real_sonar s" "updateAngle s = (end_turn, t)" "- 200 \<le> cur_angle t" "cur_angle t \<le> 200"
    and "payload = data_payload md gain a duration period frequency ns bytes"
    and "between (parser (sonar s))" "fits (parser (sonar s)) payload" "data_ok (device_data_data (sonar s))"
    and "66 \<notin> set noise"
    and "linkBuffer (sonar s) @ arrived @ concat (map snd ps1) = noise @ frame DEVICE_DATA src dst payload @ rest"
    and "in_time (t0 + timeout s) (ps1 @ ps2)" "length noise + length (frame DEVICE_DATA src dst payload) \<le> length ps2"
  shows "\<exists>ps' u x d. read_sonar junk ((t0, arrived) # ps1 @ ps2) s = Some ((Some True, end_turn), ps', u) \<and>
    d = device_data_data (sonar s) \<and> cur_angle u = cur_angle t \<and> angle_step u = angle_step t \<and>
    written (sonar u) = written (sonar s) @ [frame 2601 0 0 ([mode d, gain_setting d] @ le16 x @
      le16 (transmit_duration d) @ le16 (sample_period d) @ le16 (transmit_frequency d) @ le16 (number_of_samples d) @ [1, 0])] \<and>
    1 \<le> unat x \<and> unat x \<le> 400 \<and> int (unat x) mod 400 = cur_angle t mod 400 \<and>
    intensities (device_data_data (sonar u)) = bytes \<and> angle (device_data_data (sonar u)) = a"
proof -
  let ?d = "device_data_data (sonar s)"
  have t: "sonar t = sonar s" "real_sonar t" "timeout t = timeout s"
    using assms(1,2) by (auto simp: updateAngle_def Let_def split: if_splits)
  let ?bs = "frame 2601 0 0 ([mode ?d, gain_setting ?d] @ le16 (transmit_angle t) @ le16 (transmit_duration ?d) @
    le16 (sample_period ?d) @ le16 (transmit_frequency ?d) @ le16 (number_of_samples ?d) @ [1, 0])"
  let ?p = "(sonar s)\<lparr>written := written (sonar s) @ [?bs]\<rparr>"
  let ?ps = "(t0, arrived) # ps1 @ ps2"
  have "\<exists>m ps' d'. waitMessage junk DEVICE_DATA (timeout s) ?ps ?p = Some (Got m, ps', d') \<and>
      written d' = written ?p \<and> angle (device_data_data d') = a \<and> intensities (device_data_data d') = bytes"
    using await_data [OF assms(5), of ?p noise arrived ps1 src dst rest t0 "timeout s" ps2 junk] assms(6-12) by auto
  then obtain m ps' d' where d': "waitMessage junk DEVICE_DATA (timeout s) ?ps ?p = Some (Got m, ps', d')"
      "written d' = written ?p" "angle (device_data_data d') = a" "intensities (device_data_data d') = bytes" by blast
  have "read_sonar junk ?ps s = Some ((Some True, end_turn), ps', t\<lparr>sonar := d'\<rparr>)"
    using command_frames(1) [of junk "mode ?d"] d'(1) by (simp add: read_sonar_def assms(2) t Let_def)
  then show ?thesis using d' transmit_angle_range [OF assms(3,4)] by auto
qed

theorem sonar_reading_witness:
  "(let s = demo_iface\<lparr>sonar := demo_device [1], real_sonar := True, angle_min := - 60, angle_max := 60, angle_step := 10\<rparr> in
    \<exists>ps' u. read_sonar (\<lambda>_. 0) ((0, []) # [(3, []), (4, frame DEVICE_DATA 3 0 demo_payload)] @ replicate 40 (5, [])) s =
        Some ((Some True, False), ps', u) \<and>
      cur_angle u = 10 \<and> length (written (sonar u)) = 1 \<and> intensities (device_data_data (sonar u)) = [200, 10])"
proof -
  let ?s = "demo_iface\<lparr>sonar := demo_device [1], real_sonar := True, angle_min := - 60, angle_max := 60, angle_step := 10\<rparr>"
  let ?ps1 = "[(3 :: int, [] :: u8 list), (4, frame DEVICE_DATA 3 0 demo_payload)]"
  let ?ps2 = "replicate 40 (5 :: int, [] :: u8 list)"
  have u: "updateAngle ?s = (False, ?s\<lparr>cur_angle := 10\<rparr>)" by (simp add: updateAngle_def fullScan_def demo_iface_def Let_def)
  have dev: "parser (demo_device bs) = demo_parser" "device_data_data (demo_device bs) = demo_data"
    "linkBuffer (demo_device bs) = bs" "written (demo_device bs) = []" for bs by (simp_all add: demo_device_def)
  have len: "length demo_payload = 16" by (simp add: demo_payload_def data_payload_def)
  have "\<exists>ps' v x d. read_sonar (\<lambda>_. 0) ((0, []) # ?ps1 @ ?ps2) ?s = Some ((Some True, False), ps', v) \<and>
    d = device_data_data (sonar ?s) \<and> cur_angle v = cur_angle (?s\<lparr>cur_angle := 10\<rparr>) \<and>
    angle_step v = angle_step (?s\<lparr>cur_angle := 10\<rparr>) \<and>
    written (sonar v) = written (sonar ?s) @ [frame 2601 0 0 ([mode d, gain_setting d] @ le16 x @
      le16 (transmit_duration d) @ le16 (sample_period d) @ le16 (transmit_frequency d) @ le16 (number_of_samples d) @ [1, 0])] \<and>
    1 \<le> unat x \<and> unat x \<le> 400 \<and> int (unat x) mod 400 = cur_angle (?s\<lparr>cur_angle := 10\<rparr>) mod 400 \<and>
    intensities (device_data_data (sonar v)) = [200, 10] \<and> angle (device_data_data (sonar v)) = 100"
  proof (rule sonar_reading [where noise = "[1]" and src = 3 and dst = 0 and rest = "[]", OF _ u _ _ demo_payload_def])
    show "fits (parser (sonar ?s)) demo_payload"
      using len by (auto simp: dev fits_def demo_parser_def new_PingParser_def new_message_def Let_def)
    show "in_time (0 + timeout ?s) (?ps1 @ ?ps2)" by (simp add: in_time_def demo_iface_def)
  qed (use dev len demo_parser_between in \<open>simp_all add: data_ok_def demo_data_def\<close>)
  then show ?thesis by (auto simp: dev Let_def)
qed

end
