(* ===== verification/Spec2Isabelle.thy ===== *)
theory Spec2Isabelle
  imports Upgrade_Manager Device_Manager Data_Handler Pub_Handler Driver_Callbacks Ping360_Interface
begin

text \<open>
  A model of the sensor packages of this repository: the Livox lidar SDK
  (\<open>src/livox_ros2/livox_sdk\<close>) with its firmware upgrade, the ROS driver on top of it
  (\<open>src/livox_ros2/livox_driver\<close>), and the Ping360 sonar (\<open>src/ping360_ros2/ping360_sonar\<close>).

  \<^bold>\<open>How the parts interact.\<close>  \<open>GeneralCommandHandler\<close> receives each datagram, has \<open>SdkProtocol\<close>
  check and parse it (which needs the two checksums of FastCRC), and either treats it as the
  detection of a lidar, completes the pending command whose sequence number it acknowledges, or
  passes it to the handler of the lidar's device type (HAP or Mid360). Commands travel the other
  way: a request is built into a buffer, the handler packs it into a frame, sends the frame and
  enters the command in the table of pending commands, which a periodic timer searches for
  deadlines that have passed. Before all this the device manager opens the sockets for the hosts of
  the configuration, routes each datagram to the command path or to \<open>DataHandler\<close>, which hands points
  and samples to the callbacks, takes up the lidars that announce themselves, and drives the viewer. The
  commands of the user (\<open>CommandImpl\<close>) and the firmware upgrade (\<open>UpgradeManager\<close>, one
  \<open>LivoxLidarUpgrader\<close> for each lidar) are clients of this path; the ROS driver is a client of the
  SDK: its callbacks configure a lidar that appears, \<open>PubHandler\<close> converts and collects its points into
  frames, which are stored with the samples in the queues of \<open>Lds\<close>, and \<open>Lddc\<close> empties these queues into ROS messages. The Ping360 node steps the sonar head
  through \<open>Ping360Interface\<close>, which talks to the device over the \<open>ping-cpp\<close> library.

  \<^bold>\<open>Theories: shared.\<close>
  \<^item> \<open>Prelude\<close>: machine words, little-endian layouts, loads and stores in a byte buffer (a store or
    load outside the buffer is \<open>None\<close>), \<open>std::map\<close> as a list ordered by key with the locale
    \<open>ordered_map\<close>, and the locale \<open>machine\<close> of an event-driven state with an invariant.
  \<^item> \<open>Queues\<close>: the locale \<open>fifo\<close> of a queue, interpreted on the packet ring and the sample list of
    the driver and on the receive buffer of the sonar's link.

  \<^bold>\<open>Theories: the SDK.\<close>
  \<^item> \<open>Fast_CRC\<close>, \<open>Mcrf4xx\<close>: \<open>FastCRC16::ccitt\<close>, \<open>FastCRC32::crc32\<close>, \<open>FastCRC16::mcrf4xx\<close> with
    their tables, as the code computes them (four tables, blocks of sixteen bytes, an unaligned
    start); the equivalence with the bit-by-bit definitions and the detection of burst errors, through
    the locales \<open>sliced_table\<close>, \<open>sliced_table16\<close> and \<open>detecting_table\<close>, interpreted on the tables of
    the code.
  \<^item> \<open>Livox_Defs\<close>: the enumerations and structs of \<open>livox_lidar_def.h\<close> and \<open>define.h\<close>.
  \<^item> \<open>Sdk_Protocol\<close>: \<open>sdk_protocol.cpp\<close>, \<open>comm_port.cpp\<close>, \<open>generate_seq.cpp\<close>; round trip of frames.
  \<^item> \<open>Build_Request\<close>: \<open>build_request.cpp\<close>, with \<open>std::stoi\<close> and its exceptions as a sum type.
  \<^item> \<open>Sdk_State\<close>: the state of the command path as one record \<open>sdk_state\<close>, the operations on its
    tables and the parameter query.
  \<^item> \<open>Command_Handlers\<close>: \<open>hap_command_handler.cpp\<close> and \<open>mid360_command_handler.cpp\<close>.
  \<^item> \<open>General_Handler\<close>: the rest of \<open>general_command_handler.cpp\<close> and the parts of
    \<open>device_manager.cpp\<close> it calls back into.
  \<^item> \<open>Handler_Invariant\<close>: the invariant \<open>sdk_wf\<close> and its preservation by every operation.
  \<^item> \<open>Handler_Properties\<close>: the command path as a \<open>machine\<close> of events and its properties.
  \<^item> \<open>Device_Manager\<close>: the rest of \<open>device_manager.cpp\<close>, with every socket it opens, registers and closes;
    the teardown accounts for all of them (\<open>dm_inv\<close>), and a lidar that announces itself is routed
    from then on (\<open>knows\<close>).
  \<^item> \<open>Data_Handler\<close>: \<open>data_handler.cpp\<close>, a refinement of a plain registry of observers.
  \<^item> \<open>Lidar_State_Info\<close>: \<open>parse_lidar_state_info.cpp\<close>, the state a lidar pushes, read key by key; the calls
    of the JSON writer are read back by \<open>json_read\<close> and compared with a table of keys, names and shapes.
  \<^item> \<open>Command_Impl\<close>: \<open>command_impl.cpp\<close>, the commands of the user, with the guards of each.
  \<^item> \<open>Firmware\<close>: \<open>firmware.cpp\<close>, reading and checking a firmware file.
  \<^item> \<open>Upgrader\<close>, \<open>Upgrade_Manager\<close>: \<open>livox_lidar_upgrader.cpp\<close> and \<open>upgrade_manager.cpp\<close>, the
    table-driven state machine of an upgrade, its requests and responses, what it sends to a lidar
    that answers, and when it gives up.

  \<^bold>\<open>Theories: the ROS driver.\<close>
  \<^item> \<open>Driver_Queue\<close>: \<open>comm/ldq.cpp\<close>, the ring of packets, and \<open>comm/lidar_imu_data_queue.cpp\<close>.
  \<^item> \<open>Cache_Index\<close>: \<open>comm/cache_index.cpp\<close>, the slots of lidars, as a \<open>machine\<close>.
  \<^item> \<open>Lds\<close>: \<open>lds.cpp\<close>, \<open>comm/semaphore.cpp\<close>, \<open>call_back/lidar_common_callback.cpp\<close>.
  \<^item> \<open>Pub_Handler\<close>: \<open>comm/pub_handler.cpp\<close>, from datagrams to frames, and with \<open>Lds\<close> to the rings; the
    floating-point operations are the parameter \<open>float_ops\<close>.
  \<^item> \<open>Lddc\<close>: \<open>lddc.cpp\<close> built for ROS 2; what is published of a stored frame, the layout of a point
    cloud and the two transfer formats whose loop does not end.
  \<^item> \<open>Driver_Callbacks\<close>: \<open>call_back/livox_lidar_callback.cpp\<close>, the setup loop of \<open>lds_lidar.cpp\<close> and
    \<open>parse_livox_lidar_cfg.cpp\<close>; when a lidar counts as sampling.

  \<^bold>\<open>Theories: the Ping360.\<close>
  \<^item> \<open>Ping_Parser\<close>: \<open>ping-message.h\<close> and \<open>ping-parser.h\<close>; what the parser finds in a stream of bytes.
  \<^item> \<open>Ping_Device\<close>: \<open>ping-device.cpp\<close>, \<open>ping-device-ping360.cpp\<close>, the message classes and the receive
    buffer of the links; the commands as bytes, waiting for a reply, and what a reply leaves.
  \<^item> \<open>Ping360_Interface\<close>: \<open>sonar_interface.cpp\<close> and the scan of \<open>ping360_node.cpp\<close>.

  \<^bold>\<open>Conventions.\<close>  A function whose behaviour the language leaves undefined on some input (an
  access outside a buffer, a null pointer) returns \<open>None\<close> there; an operation that the code lets
  fail returns the code's own status. \<open>env n\<close> is what the operating system answers to the \<open>n\<close>-th
  send. Callbacks are values of the type \<open>callback\<close>; the callbacks of the user only leave a trace in
  \<open>out\<close>, those of the SDK itself run their code. A \<open>float\<close> is the word of its bits; where the code
  computes with floating point, the function is a parameter. What memory holds that the code never
  sets is a parameter too.

  \<^bold>\<open>Bounds and fuel.\<close>  The callback of the firmware-type query sends the query again, whose failure
  calls the callback again. The counter of the code bounds this nesting; \<open>runner_of\<close> unfolds thirteen
  levels and \<open>fw_type_query_bounded\<close> shows that more would change nothing. Times are natural numbers
  of milliseconds. The upgrade repeats a request at most ten times (thirty for the progress) and sends
  the firmware in chunks of 1024 bytes, for a length up to \<open>2 ^ 32 - 1024\<close>, where the 32-bit offset
  does not wrap. The polling loop of \<open>Lddc\<close> runs with fuel: the number of packets in the ring is
  enough, and for the formats whose loop does not end no fuel is. The loop that waits for a Ping message
  is structural in the list of its polls (the time and the bytes that have arrived at each). Angles
  of the sonar are kept in gradians.

  \<^bold>\<open>Not modelled.\<close>  Threads and mutexes (each operation is one atomic step), sockets and the event
  loop, logging, the JSON library (what it finds in a file is a record). Of the SDK: the C interface and
  its configuration file, log files and the debug point cloud. Of the driver: the ROS 1 branches and
  start-up. Of the Ping360: images, ROS
  parameters and the text rendering of messages. Other packages of the repository: the Oculus sonar
  and the vendored libraries.
\<close>

end
